(* ===== verification/Prelude.thy ===== *)
theory Prelude
  imports Main "HOL-Library.Word" "HOL-Library.Char_ord" "HOL-Library.List_Lexorder" "HOL-Library.Multiset"
begin

text \<open>
  Shared vocabulary of the development: Go's results (a value, an error value or a panic), the
  world-passing functions in which every effectful operation of the sources is written, the
  observation of a call log, reachability for step relations, and the generic list and map lemmas
  that several components use.
\<close>

section \<open>Go results\<close>

text \<open>
  A byte string models both Go's \<open>string\<close> and \<open>[]byte\<close>: a \<^typ>\<open>char\<close> is one byte.
\<close>

type_synonym bytes = string

text \<open>
  Go error values. \<open>Error_New\<close> is \<open>errors.New\<close> or a \<open>fmt.Errorf\<close> without \<open>%w\<close>, \<open>Error_Wrap\<close> is
  \<open>fmt.Errorf("<prefix>%w", err)\<close>, \<open>Error_Ext\<close> is an error value made by code outside the sources,
  and the two context errors of the standard library have constructors of their own because the
  sources compare against them.
\<close>

datatype go_error =
    Error_New string
  | Error_Wrap string go_error
  | Error_Ext string
  | Context_Canceled
  | Context_DeadlineExceeded

text \<open>\<open>errors.Is\<close> follows the chain of wrapped errors.\<close>

fun errors_Is :: "go_error \<Rightarrow> go_error \<Rightarrow> bool" where
  "errors_Is e target =
     (e = target \<or> (case e of Error_Wrap _ e' \<Rightarrow> errors_Is e' target | _ \<Rightarrow> False))"

declare errors_Is.simps [simp del]

lemma errors_Is_refl [simp]: "errors_Is e e"
  by (subst errors_Is.simps) simp

lemma errors_Is_Wrap [simp]:
  "errors_Is (Error_Wrap p e) t \<longleftrightarrow> Error_Wrap p e = t \<or> errors_Is e t"
  by (subst errors_Is.simps) simp

lemma errors_Is_leaf [simp]:
  "errors_Is (Error_New s) t \<longleftrightarrow> Error_New s = t"
  "errors_Is (Error_Ext s) t \<longleftrightarrow> Error_Ext s = t"
  "errors_Is Context_Canceled t \<longleftrightarrow> Context_Canceled = t"
  "errors_Is Context_DeadlineExceeded t \<longleftrightarrow> Context_DeadlineExceeded = t"
  by (subst errors_Is.simps; simp)+

text \<open>
  What a Go call that returns \<open>(T, error)\<close> can do: return a value with a nil error, return an
  error, or panic.
\<close>

datatype 'a result = Ok 'a | Err go_error | Panic string

fun res_bind :: "'a result \<Rightarrow> ('a \<Rightarrow> 'b result) \<Rightarrow> 'b result" where
  "res_bind (Ok x) f = f x"
| "res_bind (Err e) f = Err e"
| "res_bind (Panic p) f = Panic p"

fun res_map :: "('a \<Rightarrow> 'b) \<Rightarrow> 'a result \<Rightarrow> 'b result" where
  "res_map f (Ok x) = Ok (f x)"
| "res_map f (Err e) = Err e"
| "res_map f (Panic p) = Panic p"

text \<open>\<open>if err != nil { return fmt.Errorf("<prefix>%w", err) }\<close>\<close>

fun res_wrap :: "string \<Rightarrow> 'a result \<Rightarrow> 'a result" where
  "res_wrap p (Ok x) = Ok x"
| "res_wrap p (Err e) = Err (Error_Wrap p e)"
| "res_wrap p (Panic q) = Panic q"

fun is_ok :: "'a result \<Rightarrow> bool" where
  "is_ok (Ok _) = True"
| "is_ok _ = False"

fun is_panic :: "'a result \<Rightarrow> bool" where
  "is_panic (Panic _) = True"
| "is_panic _ = False"

named_theorems res_simps \<open>inversion of results built with the combinators\<close>

lemma res_bind_Ok_iff [res_simps]: "res_bind r f = Ok y \<longleftrightarrow> (\<exists>x. r = Ok x \<and> f x = Ok y)"
  by (cases r) auto

lemma res_bind_Err_iff [res_simps]:
  "res_bind r f = Err e \<longleftrightarrow> r = Err e \<or> (\<exists>x. r = Ok x \<and> f x = Err e)"
  by (cases r) auto

lemma res_bind_Panic_iff [res_simps]:
  "res_bind r f = Panic p \<longleftrightarrow> r = Panic p \<or> (\<exists>x. r = Ok x \<and> f x = Panic p)"
  by (cases r) auto

lemma res_wrap_iff [res_simps]:
  "res_wrap p r = Ok x \<longleftrightarrow> r = Ok x"
  "res_wrap p r = Panic q \<longleftrightarrow> r = Panic q"
  "res_wrap p r = Err e \<longleftrightarrow> (\<exists>e'. r = Err e' \<and> e = Error_Wrap p e')"
  by (cases r; auto)+

lemma res_map_iff [res_simps]:
  "res_map f r = Ok y \<longleftrightarrow> (\<exists>x. r = Ok x \<and> y = f x)"
  "res_map f r = Panic q \<longleftrightarrow> r = Panic q"
  "res_map f r = Err e \<longleftrightarrow> r = Err e"
  by (cases r; auto)+

lemma is_ok_iff [res_simps]: "is_ok r \<longleftrightarrow> (\<exists>x. r = Ok x)"
  by (cases r) auto

lemma is_panic_iff [res_simps]: "is_panic r \<longleftrightarrow> (\<exists>p. r = Panic p)"
  by (cases r) auto

lemma is_panic_wrap [simp]: "is_panic (res_wrap p r) \<longleftrightarrow> is_panic r"
  by (cases r) auto

lemma is_ok_wrap [simp]: "is_ok (res_wrap p r) \<longleftrightarrow> is_ok r"
  by (cases r) auto

lemma res_bind_cong [fundef_cong]:
  "r = r' \<Longrightarrow> (\<And>x. r' = Ok x \<Longrightarrow> f x = f' x) \<Longrightarrow> res_bind r f = res_bind r' f'"
  by (cases r') auto

text \<open>A loop that applies a fallible operation to every element, stopping at the first failure.\<close>

fun res_mapM :: "('a \<Rightarrow> 'b result) \<Rightarrow> 'a list \<Rightarrow> 'b list result" where
  "res_mapM f [] = Ok []"
| "res_mapM f (x # xs) = res_bind (f x) (\<lambda>y. res_map (\<lambda>ys. y # ys) (res_mapM f xs))"

lemma res_mapM_Ok_iff [res_simps]:
  "res_mapM f xs = Ok ys \<longleftrightarrow> list_all2 (\<lambda>x y. f x = Ok y) xs ys"
  by (induction xs arbitrary: ys) (auto simp: res_bind_Ok_iff res_map_iff list_all2_Cons1)

lemma res_mapM_no_Err:
  "(\<And>x e. x \<in> set xs \<Longrightarrow> f x \<noteq> Err e) \<Longrightarrow> res_mapM f xs \<noteq> Err e"
  by (induction xs) (auto simp: res_bind_Err_iff res_map_iff)

lemma is_panic_mapM:
  "(\<And>x e. x \<in> set xs \<Longrightarrow> f x \<noteq> Err e) \<Longrightarrow>
    is_panic (res_mapM f xs) \<longleftrightarrow> (\<exists>x \<in> set xs. is_panic (f x))"
proof (induction xs)
  case (Cons x xs)
  then have IH: "is_panic (res_mapM f xs) \<longleftrightarrow> (\<exists>x \<in> set xs. is_panic (f x))" by simp
  show ?case
  proof (cases "f x")
    case (Err e)
    then show ?thesis using Cons.prems [of x e] by simp
  qed (use IH in \<open>auto simp: is_panic_iff res_map_iff\<close>)
qed simp

section \<open>World-passing operations\<close>

text \<open>
  An operation with effects takes the world and returns its result with the world it leaves
  behind. The type of worlds is a parameter: the clients of an interface never look inside.
\<close>

type_synonym ('a, 'w) io = "'w \<Rightarrow> 'a result \<times> 'w"

definition io_return :: "'a \<Rightarrow> ('a, 'w) io" where
  "io_return x = (\<lambda>w. (Ok x, w))"

definition io_fail :: "go_error \<Rightarrow> ('a, 'w) io" where
  "io_fail e = (\<lambda>w. (Err e, w))"

definition io_lift :: "'a result \<Rightarrow> ('a, 'w) io" where
  "io_lift r = (\<lambda>w. (r, w))"

definition io_bind :: "('a, 'w) io \<Rightarrow> ('a \<Rightarrow> ('b, 'w) io) \<Rightarrow> ('b, 'w) io" where
  "io_bind m f = (\<lambda>w. case m w of
     (Ok x, w') \<Rightarrow> f x w' | (Err e, w') \<Rightarrow> (Err e, w') | (Panic p, w') \<Rightarrow> (Panic p, w'))"

definition io_wrap :: "string \<Rightarrow> ('a, 'w) io \<Rightarrow> ('a, 'w) io" where
  "io_wrap p m = (\<lambda>w. case m w of (r, w') \<Rightarrow> (res_wrap p r, w'))"

text \<open>
  \<open>defer func() { _ = c() }()\<close>: the deferred call runs whether the body returns, fails or panics;
  its own error is dropped, its own panic replaces the result.
\<close>

definition io_defer :: "(unit, 'w) io \<Rightarrow> ('a, 'w) io \<Rightarrow> ('a, 'w) io" where
  "io_defer c m = (\<lambda>w. case m w of
     (r, w') \<Rightarrow> (case c w' of (Panic p, w'') \<Rightarrow> (Panic p, w'') | (_, w'') \<Rightarrow> (r, w'')))"

text \<open>A nil interface or pointer value panics when a method of it is called.\<close>

definition deref :: "'a option \<Rightarrow> 'a result" where
  "deref x = (case x of None \<Rightarrow> Panic ''nil pointer dereference'' | Some v \<Rightarrow> Ok v)"

lemma deref_simps [simp]:
  "deref None = Panic ''nil pointer dereference''" "deref (Some v) = Ok v"
  by (simp_all add: deref_def)

lemmas io_defs = io_return_def io_fail_def io_lift_def io_bind_def io_wrap_def io_defer_def

lemma io_return_apply [simp]: "io_return x w = (Ok x, w)"
  and io_fail_apply [simp]: "io_fail e w = (Err e, w)"
  and io_lift_apply [simp]: "io_lift r w = (r, w)"
  by (simp_all add: io_defs)

lemma io_bind_Ok [simp]: "m w = (Ok x, w') \<Longrightarrow> io_bind m f w = f x w'"
  and io_bind_Err [simp]: "m w = (Err e, w') \<Longrightarrow> io_bind m f w = (Err e, w')"
  and io_bind_Panic [simp]: "m w = (Panic p, w') \<Longrightarrow> io_bind m f w = (Panic p, w')"
  by (simp_all add: io_bind_def)

lemma io_bind_assoc: "io_bind (io_bind m f) g = io_bind m (\<lambda>x. io_bind (f x) g)"
  by (rule ext) (simp add: io_bind_def split: prod.split result.split)

lemma io_bind_return [simp]: "io_bind (io_return x) f = f x"
  by (rule ext) (simp add: io_defs)

lemma io_bind_lift_Ok [simp]: "io_bind (io_lift (Ok x)) f = f x"
  by (rule ext) (simp add: io_defs)

lemma io_bind_lift_Err [simp]: "io_bind (io_lift (Err e)) f = io_fail e"
  by (rule ext) (simp add: io_defs)

lemma io_bind_fail [simp]: "io_bind (io_fail e) f = io_fail e"
  by (rule ext) (simp add: io_defs)

section \<open>What an operation does to the world\<close>

text \<open>
  An operation only changes the world along a preorder (it appends to a log, it leaves a part of the
  state alone). The combinators inherit this from the operations they are given.
\<close>

definition preserves :: "('w \<Rightarrow> 'w \<Rightarrow> bool) \<Rightarrow> ('a, 'w) io \<Rightarrow> bool" where
  "preserves R m \<longleftrightarrow> (\<forall>w. R w (snd (m w)))"

lemma preservesD: "preserves R m \<Longrightarrow> m w = (r, w') \<Longrightarrow> R w w'"
  unfolding preserves_def by (metis snd_conv)

locale effect =
  fixes R :: "'w \<Rightarrow> 'w \<Rightarrow> bool"
  assumes effect_refl: "R w w"
    and effect_trans: "R u v \<Longrightarrow> R v w \<Longrightarrow> R u w"
begin

lemma preserves_pure:
  "preserves R (io_return x)" "preserves R (io_fail e)" "preserves R (io_lift r)"
  by (simp_all add: preserves_def effect_refl)

lemma preserves_bind:
  assumes "preserves R m" "\<And>x. preserves R (f x)"
  shows "preserves R (io_bind m f)"
  unfolding preserves_def
proof
  fix w
  obtain r v where m: "m w = (r, v)" by (cases "m w")
  have "R w v" by (rule preservesD [OF assms(1) m])
  moreover have "R v (snd (f x v))" for x using assms(2) by (simp add: preserves_def)
  ultimately show "R w (snd (io_bind m f w))"
    using effect_trans m by (cases r) auto
qed

lemma preserves_wrap: "preserves R m \<Longrightarrow> preserves R (io_wrap p m)"
  by (simp add: preserves_def io_wrap_def split_beta)

lemma preserves_defer:
  assumes "preserves R m" "preserves R c"
  shows "preserves R (io_defer c m)"
  unfolding preserves_def
proof
  fix w
  obtain r v where m: "m w = (r, v)" by (cases "m w")
  obtain q u where c: "c v = (q, u)" by (cases "c v")
  have "R w u" by (rule effect_trans [OF preservesD [OF assms(1) m] preservesD [OF assms(2) c]])
  then show "R w (snd (io_defer c m w))" using m c by (simp add: io_defer_def split: result.split)
qed

lemma preserves_if:
  "(b \<Longrightarrow> preserves R m) \<Longrightarrow> (\<not> b \<Longrightarrow> preserves R n) \<Longrightarrow> preserves R (if b then m else n)"
  by simp

lemmas preserves_intros = preserves_pure preserves_bind preserves_wrap preserves_defer preserves_if

end

section \<open>An invariant with a postcondition\<close>

text \<open>
  An operation keeps an invariant of the world, and what it returns when it succeeds has a property.
\<close>

definition ensures :: "('w \<Rightarrow> bool) \<Rightarrow> ('a \<Rightarrow> bool) \<Rightarrow> ('a, 'w) io \<Rightarrow> bool" where
  "ensures I Q m \<longleftrightarrow> (\<forall>w. I w \<longrightarrow> (case m w of (r, w') \<Rightarrow> I w' \<and> (\<forall>x. r = Ok x \<longrightarrow> Q x)))"

named_theorems ensures_intros \<open>an operation keeps an invariant and its result has a property\<close>

lemma ensures_pure [ensures_intros]:
  "Q x \<Longrightarrow> ensures I Q (io_return x)" "ensures I Q (io_fail e)" "(\<And>x. r = Ok x \<Longrightarrow> Q x) \<Longrightarrow> ensures I Q (io_lift r)"
  by (simp_all add: ensures_def)

lemma ensures_bind [ensures_intros]:
  assumes "ensures I P m" "\<And>x. P x \<Longrightarrow> ensures I Q (f x)"
  shows "ensures I Q (io_bind m f)"
  unfolding ensures_def
proof (intro allI impI)
  fix w assume "I w"
  obtain r v where m: "m w = (r, v)" by (cases "m w")
  then have v: "I v" "\<And>x. r = Ok x \<Longrightarrow> P x" using assms(1) \<open>I w\<close> by (force simp: ensures_def)+
  then show "case io_bind m f w of (r, w') \<Rightarrow> I w' \<and> (\<forall>x. r = Ok x \<longrightarrow> Q x)"
    using m assms(2) by (cases r) (auto simp: ensures_def)
qed

lemma ensures_wrap [ensures_intros]: "ensures I Q m \<Longrightarrow> ensures I Q (io_wrap p m)"
  by (fastforce simp: ensures_def io_wrap_def res_simps split: prod.splits)

lemma ensures_defer [ensures_intros]:
  assumes "ensures I Q m" "ensures I (\<lambda>_. True) c"
  shows "ensures I Q (io_defer c m)"
  unfolding ensures_def
proof (intro allI impI)
  fix w assume "I w"
  obtain r v where m: "m w = (r, v)" by (cases "m w")
  obtain q u where c: "c v = (q, u)" by (cases "c v")
  have "I v" "\<And>x. r = Ok x \<Longrightarrow> Q x" using assms(1) \<open>I w\<close> m by (force simp: ensures_def)+
  moreover have "I u" using assms(2) \<open>I v\<close> c by (force simp: ensures_def)
  ultimately show "case io_defer c m w of (r, w') \<Rightarrow> I w' \<and> (\<forall>x. r = Ok x \<longrightarrow> Q x)"
    using m c by (auto simp: io_defer_def split: result.split)
qed

lemma ensures_if [ensures_intros]:
  "(b \<Longrightarrow> ensures I Q m) \<Longrightarrow> (\<not> b \<Longrightarrow> ensures I Q n) \<Longrightarrow> ensures I Q (if b then m else n)"
  by simp

lemma ensures_prod [ensures_intros]: "(\<And>a b. x = (a, b) \<Longrightarrow> ensures I Q (f a b)) \<Longrightarrow> ensures I Q (case x of (a, b) \<Rightarrow> f a b)"
  by (cases x) simp

lemma ensures_mono: "ensures I P m \<Longrightarrow> (\<And>x. P x \<Longrightarrow> Q x) \<Longrightarrow> ensures I Q m"
  by (fastforce simp: ensures_def split: prod.splits)

section \<open>Reachability of step relations\<close>

text \<open>
  The states a labelled step relation reaches from an initial state, with the labels taken.
\<close>

inductive run :: "('s \<Rightarrow> 'l \<Rightarrow> 's \<Rightarrow> bool) \<Rightarrow> 's \<Rightarrow> 'l list \<Rightarrow> 's \<Rightarrow> bool"
  for step :: "'s \<Rightarrow> 'l \<Rightarrow> 's \<Rightarrow> bool" and s0 :: 's where
  run_Nil [intro]: "run step s0 [] s0"
| run_snoc: "run step s0 ls s \<Longrightarrow> step s l t \<Longrightarrow> run step s0 (ls @ [l]) t"

inductive_cases run_NilE: "run step s [] t"

lemma run_one: "step s l t \<Longrightarrow> run step s [l] t"
  using run_snoc [OF run_Nil, of step s l t] by simp

lemma run_append:
  "run step t ms u \<Longrightarrow> run step s ls t \<Longrightarrow> run step s (ls @ ms) u"
proof (induction rule: run.induct)
  case run_Nil
  then show ?case by simp
next
  case (run_snoc ms u l v)
  then have "run step s ((ls @ ms) @ [l]) v" by (blast intro: run.run_snoc)
  then show ?case by simp
qed

lemma run_Cons: "step s l t \<Longrightarrow> run step t ls u \<Longrightarrow> run step s (l # ls) u"
  using run_append [of step t ls u s "[l]"] run_one [of step s l t] by simp

text \<open>
  The contract of an invariant: it holds initially and every step keeps it. A component that
  interprets this locale gets the invariant in every state it reaches.
\<close>

locale step_invariant =
  fixes step :: "'s \<Rightarrow> 'l \<Rightarrow> 's \<Rightarrow> bool"
    and start :: "'s \<Rightarrow> bool"
    and inv :: "'s \<Rightarrow> bool"
  assumes start_inv: "start s \<Longrightarrow> inv s"
    and step_inv: "inv s \<Longrightarrow> step s l t \<Longrightarrow> inv t"
begin

lemma run_inv: "run step s ls t \<Longrightarrow> inv s \<Longrightarrow> inv t"
  by (induction rule: run.induct) (auto intro: step_inv)

lemma reachable_inv: "start s \<Longrightarrow> run step s ls t \<Longrightarrow> inv t"
  by (blast intro: run_inv start_inv)

end

section \<open>Lists\<close>

text \<open>Keep the first element for each key, as a loop with a set of keys already seen does.\<close>

fun dedup_by :: "('a \<Rightarrow> 'k) \<Rightarrow> 'k set \<Rightarrow> 'a list \<Rightarrow> 'a list" where
  "dedup_by k seen [] = []"
| "dedup_by k seen (x # xs) =
     (if k x \<in> seen then dedup_by k seen xs else x # dedup_by k (insert (k x) seen) xs)"

lemma dedup_by_keys: "k ` set (dedup_by k seen xs) = k ` set xs - seen"
  by (induction k seen xs rule: dedup_by.induct) auto

lemma set_dedup_by: "set (dedup_by k seen xs) \<subseteq> set xs"
  by (induction k seen xs rule: dedup_by.induct) auto

lemma distinct_dedup_by: "distinct (map k (dedup_by k seen xs))"
proof (induction k seen xs rule: dedup_by.induct)
  case (2 k seen x xs)
  have "k x \<notin> k ` set (dedup_by k (insert (k x) seen) xs)"
    by (simp add: dedup_by_keys)
  with 2 show ?case by auto
qed simp

lemma dedup_by_append:
  "dedup_by k seen (xs @ ys) =
     dedup_by k seen xs @ dedup_by k (seen \<union> k ` set xs) ys"
  by (induction k seen xs rule: dedup_by.induct) (auto simp: insert_absorb)

text \<open>The element kept for a key is the first one that has it.\<close>

lemma find_dedup_by:
  "c \<notin> seen \<Longrightarrow> find (\<lambda>x. k x = c) (dedup_by k seen xs) = find (\<lambda>x. k x = c) xs"
  by (induction k seen xs rule: dedup_by.induct) auto

lemma dedup_by_id:
  "distinct (map k xs) \<Longrightarrow> k ` set xs \<inter> seen = {} \<Longrightarrow> dedup_by k seen xs = xs"
  by (induction k seen xs rule: dedup_by.induct) auto

text \<open>A sorted list with distinct keys is determined by its elements.\<close>

lemma sorted_key_unique:
  fixes k :: "'a \<Rightarrow> 'k::linorder"
  assumes "sorted (map k xs)" "sorted (map k ys)" "distinct (map k xs)" "mset xs = mset ys"
  shows "xs = ys"
proof -
  have mk: "mset (map k xs) = mset (map k ys)" using assms(4) by simp
  have "distinct (map k ys)"
    using assms(3) mk by (metis distinct_count_atmost_1 set_mset_mset)
  then have eq: "map k xs = map k ys"
    using assms(1-3) mk by (metis mset_eq_setD sorted_distinct_set_unique)
  have inj: "inj_on k (set xs)" using assms(3) by (simp add: distinct_map)
  have "set xs = set ys" using assms(4) by (metis set_mset_mset)
  with inj have "inj_on k (set xs \<union> set ys)" by simp
  then show ?thesis using eq by (metis inj_on_map_eq_map)
qed

lemma mset_concat_map: "mset (concat (map f xs)) = (\<Sum>x \<in># mset xs. mset (f x))"
  by (induction xs) auto

lemma find_sort_key:
  assumes "distinct (map k xs)"
  shows "find (\<lambda>x. k x = c) (sort_key f xs) = find (\<lambda>x. k x = c) xs"
proof -
  have *: "find (\<lambda>x. k x = c) ys = Some z \<longleftrightarrow> z \<in> set ys \<and> k z = c" if "distinct (map k ys)" for ys z
    using that
    by (induction ys) (auto simp: image_iff)
  have d: "distinct (map k (sort_key f xs))"
    using assms by (simp add: distinct_map)
  show ?thesis
    using * [OF d] * [OF assms] by (metis option.exhaust set_sort)
qed

section \<open>Signed 64-bit integers\<close>

text \<open>Go's \<open>int\<close> and \<open>int64\<close> read a 64-bit word as a two's complement number.\<close>

lemma sint_64: "sint v = (if uint v < 2 ^ 63 then uint v else uint v - 2 ^ 64)" for v :: "64 word"
proof -
  have u: "uint v < 2 ^ 64" using uint_lt2p [of v] by simp
  have sv: "sint v = (uint v + 2 ^ 63) mod 2 ^ 64 - 2 ^ 63"
    by (simp add: sint_uint signed_take_bit_eq_take_bit_shift take_bit_eq_mod)
  have "(uint v + 2 ^ 63) mod 2 ^ 64 = uint v - 2 ^ 63" if "2 ^ 63 \<le> uint v"
  proof -
    have "(uint v + 2 ^ 63) mod 2 ^ 64 = ((uint v - 2 ^ 63) + 2 ^ 64) mod 2 ^ 64"
      by (simp add: add.commute)
    also have "\<dots> = (uint v - 2 ^ 63) mod 2 ^ 64" by (rule mod_add_self2)
    also have "\<dots> = uint v - 2 ^ 63"
      using that u by (intro mod_pos_pos_trivial) auto
    finally show ?thesis .
  qed
  moreover have "(uint v + 2 ^ 63) mod 2 ^ 64 = uint v + 2 ^ 63" if "uint v < 2 ^ 63"
    using that by (intro mod_pos_pos_trivial) auto
  ultimately show ?thesis using sv by (cases "uint v < 2 ^ 63") auto
qed

text \<open>A sum of \<open>int64\<close> values wraps.\<close>

definition wrap_int64 :: "int \<Rightarrow> int" where
  "wrap_int64 x = sint (word_of_int x :: 64 word)"

lemma wrap_int64_id: "0 \<le> x \<Longrightarrow> x < 2 ^ 63 \<Longrightarrow> wrap_int64 x = x"
  by (simp add: wrap_int64_def sint_64 uint_word_of_int)

end
