(* ===== verification/Go_Strings.thy ===== *)
theory Go_Strings
  imports Prelude
begin

text \<open>
  The functions of Go's \<open>strings\<close>, \<open>strconv\<close> and \<open>path/filepath\<close> packages that the sources call,
  on byte strings: \<open>HasPrefix\<close>, \<open>CutPrefix\<close>, \<open>Contains\<close>, \<open>Split\<close>, \<open>Join\<close>, \<open>TrimSpace\<close>, decimal
  printing, and \<open>filepath.Clean\<close> for slash-separated paths. The lexical meaning of a path
  (\<open>lex_walk\<close>) is the specification against which \<open>Clean\<close> is proved.
\<close>

section \<open>Prefixes and substrings\<close>

definition strings_HasPrefix :: "string \<Rightarrow> string \<Rightarrow> bool" where
  "strings_HasPrefix s p = (take (length p) s = p)"

lemma HasPrefix_iff: "strings_HasPrefix s p \<longleftrightarrow> (\<exists>r. s = p @ r)"
  unfolding strings_HasPrefix_def by (metis append_eq_conv_conj append_take_drop_id)

lemma HasPrefix_append [simp]: "strings_HasPrefix (p @ r) p"
  by (auto simp: HasPrefix_iff)

lemma HasPrefix_Nil [simp]: "strings_HasPrefix s []"
  by (simp add: strings_HasPrefix_def)

text \<open>\<open>strings.CutPrefix\<close>: the rest after the prefix, if the prefix is there.\<close>

definition strings_CutPrefix :: "string \<Rightarrow> string \<Rightarrow> string option" where
  "strings_CutPrefix s p = (if strings_HasPrefix s p then Some (drop (length p) s) else None)"

lemma CutPrefix_Some_iff: "strings_CutPrefix s p = Some r \<longleftrightarrow> s = p @ r"
  by (auto simp: strings_CutPrefix_def HasPrefix_iff)

lemma CutPrefix_None_iff: "strings_CutPrefix s p = None \<longleftrightarrow> \<not> strings_HasPrefix s p"
  by (simp add: strings_CutPrefix_def)

fun strings_Contains :: "string \<Rightarrow> string \<Rightarrow> bool" where
  "strings_Contains [] t = (t = [])"
| "strings_Contains (c # cs) t = (strings_HasPrefix (c # cs) t \<or> strings_Contains cs t)"

lemma Contains_iff: "strings_Contains s t \<longleftrightarrow> (\<exists>a b. s = a @ t @ b)"
proof (induction s)
  case (Cons c cs)
  have "(\<exists>a b. c # cs = a @ t @ b) \<longleftrightarrow> (\<exists>b. c # cs = t @ b) \<or> (\<exists>a b. cs = a @ t @ b)"
    by (metis Cons_eq_append_conv append_Cons append_Nil)
  with Cons show ?case by (simp add: HasPrefix_iff)
qed auto

lemma Contains_appendI:
  "strings_Contains a t \<Longrightarrow> strings_Contains (a @ b) t"
  "strings_Contains b t \<Longrightarrow> strings_Contains (a @ b) t"
  unfolding Contains_iff by (metis append_assoc)+

lemma Contains_refl [simp]: "strings_Contains s s"
  unfolding Contains_iff by (metis append_Nil append_Nil2)

section \<open>Splitting and joining\<close>

text \<open>\<open>strings.Split\<close> at one byte: one field more than there are separators.\<close>

fun split_at :: "char \<Rightarrow> string \<Rightarrow> string list" where
  "split_at d [] = [[]]"
| "split_at d (c # cs) =
     (if c = d then [] # split_at d cs
      else (case split_at d cs of f # fs \<Rightarrow> (c # f) # fs | [] \<Rightarrow> [[c]]))"

fun strings_Join :: "string list \<Rightarrow> string \<Rightarrow> string" where
  "strings_Join [] sep = []"
| "strings_Join [x] sep = x"
| "strings_Join (x # y # xs) sep = x @ sep @ strings_Join (y # xs) sep"

lemma split_at_not_Nil [simp]: "split_at d s \<noteq> []"
  by (induction s) (auto split: list.split)

lemma split_at_fields: "f \<in> set (split_at d s) \<Longrightarrow> d \<notin> set f"
  by (induction s arbitrary: f) (fastforce split: if_splits list.splits)+

lemma split_at_nodelim [simp]: "d \<notin> set s \<Longrightarrow> split_at d s = [s]"
  by (induction s) auto

lemma split_at_append: "d \<notin> set f \<Longrightarrow> split_at d (f @ d # s) = f # split_at d s"
  by (induction f) auto

lemma split_Join:
  assumes "fs \<noteq> []" "\<And>f. f \<in> set fs \<Longrightarrow> d \<notin> set f"
  shows "split_at d (strings_Join fs [d]) = fs"
  using assms
  by (induction fs "[d]" rule: strings_Join.induct) (auto simp: split_at_append)

lemma Join_split: "strings_Join (split_at d s) [d] = s"
proof (induction s)
  case (Cons c cs)
  obtain f fs where e: "split_at d cs = f # fs" by (cases "split_at d cs") auto
  with Cons have "strings_Join (f # fs) [d] = cs" by simp
  then show ?case using e by (cases fs) auto
qed simp

lemma Contains_Join: "f \<in> set fs \<Longrightarrow> strings_Contains (strings_Join fs sep) f"
  by (induction fs sep rule: strings_Join.induct) (auto intro: Contains_appendI)

section \<open>Trimming white space\<close>

text \<open>
  The UTF-8 encodings of the code points for which \<open>unicode.IsSpace\<close> holds. No encoding is a
  proper prefix or suffix of another, so stripping them from either end is what \<open>TrimSpace\<close> does.
\<close>

definition ws_encodings :: "string list" where
  "ws_encodings =
     map (map char_of)
       ([[9], [10], [11], [12], [13], [32], [0xC2, 0x85], [0xC2, 0xA0], [0xE1, 0x9A, 0x80]]
        @ map (\<lambda>b. [0xE2, 0x80, b]) [0x80, 0x81, 0x82, 0x83, 0x84, 0x85, 0x86, 0x87, 0x88, 0x89, 0x8A]
        @ [[0xE2, 0x80, 0xA8], [0xE2, 0x80, 0xA9], [0xE2, 0x80, 0xAF], [0xE2, 0x81, 0x9F],
           [0xE3, 0x80, 0x80 :: nat]])"

lemma ws_encodings_code [code]:
  "ws_encodings =
     [[CHR 0x09], [CHR 0x0A], [CHR 0x0B], [CHR 0x0C], [CHR 0x0D], [CHR 0x20], [CHR 0xC2, CHR 0x85],
      [CHR 0xC2, CHR 0xA0], [CHR 0xE1, CHR 0x9A, CHR 0x80], [CHR 0xE2, CHR 0x80, CHR 0x80],
      [CHR 0xE2, CHR 0x80, CHR 0x81], [CHR 0xE2, CHR 0x80, CHR 0x82], [CHR 0xE2, CHR 0x80, CHR 0x83],
      [CHR 0xE2, CHR 0x80, CHR 0x84], [CHR 0xE2, CHR 0x80, CHR 0x85], [CHR 0xE2, CHR 0x80, CHR 0x86],
      [CHR 0xE2, CHR 0x80, CHR 0x87], [CHR 0xE2, CHR 0x80, CHR 0x88], [CHR 0xE2, CHR 0x80, CHR 0x89],
      [CHR 0xE2, CHR 0x80, CHR 0x8A], [CHR 0xE2, CHR 0x80, CHR 0xA8], [CHR 0xE2, CHR 0x80, CHR 0xA9],
      [CHR 0xE2, CHR 0x80, CHR 0xAF], [CHR 0xE2, CHR 0x81, CHR 0x9F], [CHR 0xE3, CHR 0x80, CHR 0x80]]"
  by (simp add: ws_encodings_def char_of_def bit_iff_odd drop_bit_eq_div)

text \<open>Strip the encodings of a list from the front for as long as one is there.\<close>

function strip_front :: "string list \<Rightarrow> string \<Rightarrow> string" where
  "strip_front ws s =
     (case find (\<lambda>w. w \<noteq> [] \<and> strings_HasPrefix s w) ws of
        None \<Rightarrow> s
      | Some w \<Rightarrow> strip_front ws (drop (length w) s))"
  by pat_completeness auto
termination
proof (relation "measure (\<lambda>(ws, s). length s)", simp)
  fix ws :: "string list" and s w
  assume "find (\<lambda>w. w \<noteq> [] \<and> strings_HasPrefix s w) ws = Some w"
  then have "w \<noteq> []" "strings_HasPrefix s w" by (auto simp: find_Some_iff)
  then show "((ws, drop (length w) s), (ws, s)) \<in> measure (\<lambda>(ws, s). length s)"
    by (auto simp: HasPrefix_iff)
qed

declare strip_front.simps [simp del]

definition strings_TrimSpace :: "string \<Rightarrow> string" where
  "strings_TrimSpace s =
     rev (strip_front (map rev ws_encodings) (rev (strip_front ws_encodings s)))"

lemma strip_front_Nil [simp]: "strip_front ws [] = []"
  by (subst strip_front.simps) (auto simp: HasPrefix_iff find_Some_iff split: option.split)

lemma strip_front_suffix: "\<exists>p. s = p @ strip_front ws s"
proof (induction ws s rule: strip_front.induct)
  case (1 ws s)
  show ?case
  proof (cases "find (\<lambda>w. w \<noteq> [] \<and> strings_HasPrefix s w) ws")
    case None
    then show ?thesis by (subst strip_front.simps) simp
  next
    case (Some w)
    then obtain p where p: "drop (length w) s = p @ strip_front ws (drop (length w) s)"
      using 1 by blast
    have "s = take (length w) s @ p @ strip_front ws (drop (length w) s)"
      using p by (metis append_take_drop_id)
    moreover have "strip_front ws s = strip_front ws (drop (length w) s)"
      using Some by (subst strip_front.simps) simp
    ultimately show ?thesis by (metis append_assoc)
  qed
qed

lemma TrimSpace_Nil [simp]: "strings_TrimSpace [] = []"
  by (simp add: strings_TrimSpace_def)

lemma TrimSpace_infix: "\<exists>a b. s = a @ strings_TrimSpace s @ b"
proof -
  obtain a where a: "s = a @ strip_front ws_encodings s" using strip_front_suffix by blast
  obtain b where "rev (strip_front ws_encodings s)
      = b @ strip_front (map rev ws_encodings) (rev (strip_front ws_encodings s))"
    using strip_front_suffix by blast
  then have "strip_front ws_encodings s = strings_TrimSpace s @ rev b"
    unfolding strings_TrimSpace_def by (metis rev_append rev_rev_ident)
  then show ?thesis using a by metis
qed

lemma TrimSpace_not_Nil: "strings_TrimSpace s \<noteq> [] \<Longrightarrow> s \<noteq> []"
  by auto

section \<open>Decimal printing\<close>

fun dec_of_nat :: "nat \<Rightarrow> string" where
  "dec_of_nat n =
     (if n < 10 then [char_of (48 + n)] else dec_of_nat (n div 10) @ [char_of (48 + n mod 10)])"

declare dec_of_nat.simps [simp del]

definition dec_of_int :: "int \<Rightarrow> string" where
  "dec_of_int i = (if i < 0 then CHR ''-'' # dec_of_nat (nat (- i)) else dec_of_nat (nat i))"

text \<open>The value of a string of decimal digits, to state that printing loses nothing.\<close>

definition dec_value :: "string \<Rightarrow> nat" where
  "dec_value s = foldl (\<lambda>a c. 10 * a + (of_char c - 48)) 0 s"

lemma dec_value_of_nat [simp]: "dec_value (dec_of_nat n) = n"
proof (induction n rule: dec_of_nat.induct)
  case (1 n)
  show ?case
  proof (cases "n < 10")
    case True
    then show ?thesis by (subst dec_of_nat.simps) (simp add: dec_value_def)
  next
    case False
    then have "dec_value (dec_of_nat n) = 10 * dec_value (dec_of_nat (n div 10)) + n mod 10"
      by (subst dec_of_nat.simps) (simp add: dec_value_def)
    with 1 False show ?thesis by simp
  qed
qed

lemma dec_of_nat_inj: "dec_of_nat m = dec_of_nat n \<Longrightarrow> m = n"
  by (metis dec_value_of_nat)

section \<open>Hexadecimal\<close>

text \<open>\<open>hex.EncodeToString\<close> and the \<open>%x\<close> verb on byte slices: two lower-case digits per byte.\<close>

definition hex_digit :: "nat \<Rightarrow> char" where
  "hex_digit n = (if n < 10 then char_of (48 + n) else char_of (87 + n))"

definition hex_encode :: "bytes \<Rightarrow> string" where
  "hex_encode b =
     concat (map (\<lambda>c. [hex_digit (of_char c div 16), hex_digit (of_char c mod 16)]) b)"

definition hex_value :: "char \<Rightarrow> nat" where
  "hex_value c = (let n = of_char c in if n < 58 then n - 48 else n - 87)"

fun hex_decode :: "string \<Rightarrow> bytes" where
  "hex_decode (a # b # s) = char_of (16 * hex_value a + hex_value b) # hex_decode s"
| "hex_decode _ = []"

lemma hex_value_digit [simp]: "n < 16 \<Longrightarrow> hex_value (hex_digit n) = n"
  by (auto simp: hex_value_def hex_digit_def Let_def)

lemma hex_decode_encode [simp]: "hex_decode (hex_encode b) = b"
proof (induction b)
  case (Cons c b)
  have "16 * ((of_char c :: nat) div 16) + of_char c mod 16 = of_char c" by simp
  then show ?case
    using Cons nat_of_char_less_256 [of c] by (simp add: hex_encode_def less_mult_imp_div_less)
qed (simp add: hex_encode_def)

lemma length_hex_encode [simp]: "length (hex_encode b) = 2 * length b"
  by (induction b) (auto simp: hex_encode_def)

lemma hex_encode_digits: "c \<in> set (hex_encode b) \<Longrightarrow> \<exists>n < 16. c = hex_digit n"
proof -
  assume "c \<in> set (hex_encode b)"
  then obtain x :: char where "c = hex_digit (of_char x div 16) \<or> c = hex_digit (of_char x mod 16)"
    by (auto simp: hex_encode_def)
  moreover have "(of_char x :: nat) div 16 < 16" "(of_char x :: nat) mod 16 < 16"
    using nat_of_char_less_256 [of x] by (simp_all add: less_mult_imp_div_less)
  ultimately show ?thesis by blast
qed

section \<open>Path cleaning\<close>

text \<open>
  \<open>filepath.Clean\<close> on Unix: empty and \<open>.\<close> elements go, a \<open>..\<close> removes the element before it, a
  leading \<open>..\<close> stays in a relative path and goes in a rooted one. The elements are kept in a stack,
  last element first.
\<close>

fun clean_step :: "bool \<Rightarrow> string list \<Rightarrow> string \<Rightarrow> string list" where
  "clean_step rooted acc c =
     (if c = [] \<or> c = ''.'' then acc
      else if c = ''..'' then
        (case acc of
           [] \<Rightarrow> (if rooted then [] else [''..''])
         | x # xs \<Rightarrow> (if x = ''..'' then ''..'' # acc else xs))
      else c # acc)"

definition path_rooted :: "string \<Rightarrow> bool" where
  "path_rooted p = (case p of [] \<Rightarrow> False | c # _ \<Rightarrow> c = CHR ''/'')"

definition clean_elems :: "string \<Rightarrow> string list" where
  "clean_elems p = rev (foldl (clean_step (path_rooted p)) [] (split_at (CHR ''/'') p))"

definition filepath_Clean :: "string \<Rightarrow> string" where
  "filepath_Clean p =
     (if p = [] then ''.''
      else if path_rooted p then CHR ''/'' # strings_Join (clean_elems p) ''/''
      else if clean_elems p = [] then ''.''
      else strings_Join (clean_elems p) ''/'')"

text \<open>\<open>filepath.Join\<close> (and \<open>path.Join\<close>): leading empty elements are skipped, the result is cleaned.\<close>

definition filepath_Join :: "string list \<Rightarrow> string" where
  "filepath_Join elem =
     (case dropWhile (\<lambda>e. e = []) elem of [] \<Rightarrow> [] | es \<Rightarrow> filepath_Clean (strings_Join es ''/''))"

lemma Join_nonempty: "filepath_Join elem \<noteq> [] \<longleftrightarrow> (\<exists>e \<in> set elem. e \<noteq> [])"
proof -
  have step: "\<forall>e \<in> set acc. e \<noteq> [] \<Longrightarrow> \<forall>e \<in> set (clean_step r acc c). e \<noteq> []" for r acc c
  proof -
    have "e = ''..'' \<or> e = c \<and> c \<noteq> [] \<or> e \<in> set acc" if "e \<in> set (clean_step r acc c)" for e
      using that by (auto split: if_splits list.splits)
    moreover assume "\<forall>e \<in> set acc. e \<noteq> []"
    ultimately show ?thesis by blast
  qed
  have loop: "\<forall>e \<in> set acc. e \<noteq> [] \<Longrightarrow> \<forall>e \<in> set (foldl (clean_step r) acc cs). e \<noteq> []" for r acc cs
  proof (induction cs arbitrary: acc)
    case (Cons c cs)
    show ?case unfolding foldl_Cons by (rule Cons.IH [OF step [OF Cons.prems]])
  qed simp
  have elems: "\<forall>e \<in> set (clean_elems p). e \<noteq> []" for p using loop [of "[]"] by (simp add: clean_elems_def)
  have join: "strings_Join es sep \<noteq> []" if "es \<noteq> []" "\<forall>e \<in> set es. e \<noteq> []" for es sep
    using that by (cases "(es, sep)" rule: strings_Join.cases) auto
  have "filepath_Clean p \<noteq> []" for p
    using join [OF _ elems] by (auto simp: filepath_Clean_def)
  then have "filepath_Join elem = [] \<longleftrightarrow> dropWhile (\<lambda>e. e = []) elem = []"
    unfolding filepath_Join_def by (simp only: split: list.split) simp
  then show ?thesis by (simp add: dropWhile_eq_Nil_conv)
qed

text \<open>
  The lexical meaning of a path: the location, as a list of names from the root, reached by
  walking its elements from a location. A \<open>..\<close> at the root stays there.
\<close>

fun lex_walk :: "string list \<Rightarrow> string list \<Rightarrow> string list" where
  "lex_walk loc [] = loc"
| "lex_walk loc (c # cs) =
     (if c = [] \<or> c = ''.'' then lex_walk loc cs
      else if c = ''..'' then lex_walk (butlast loc) cs
      else lex_walk (loc @ [c]) cs)"

definition lex_resolve :: "string list \<Rightarrow> string \<Rightarrow> string list" where
  "lex_resolve cwd p = lex_walk (if path_rooted p then [] else cwd) (split_at (CHR ''/'') p)"

lemma lex_walk_append [simp]: "lex_walk loc (cs @ ds) = lex_walk (lex_walk loc cs) ds"
  by (induction loc cs rule: lex_walk.induct) auto

lemma lex_walk_names:
  "\<forall>c \<in> set cs. c \<noteq> [] \<and> c \<noteq> ''.'' \<and> c \<noteq> ''..'' \<Longrightarrow> lex_walk loc cs = loc @ cs"
  by (induction loc cs rule: lex_walk.induct) auto

text \<open>No element kept is empty or \<open>.\<close>, and the stack walks to the same place as the elements read.\<close>

lemma clean_step_elems:
  "\<forall>c \<in> set acc. c \<noteq> [] \<and> c \<noteq> ''.'' \<Longrightarrow> \<forall>c \<in> set (clean_step r acc d). c \<noteq> [] \<and> c \<noteq> ''.''"
  by (cases acc) simp_all

lemma clean_step_walk:
  assumes "\<forall>c \<in> set acc. c \<noteq> [] \<and> c \<noteq> ''.''" "r \<Longrightarrow> base = []"
  shows "lex_walk base (rev (clean_step r acc d)) = lex_walk (lex_walk base (rev acc)) [d]"
  using assms by (cases acc) auto

lemma clean_fold:
  assumes "\<forall>c \<in> set acc. c \<noteq> [] \<and> c \<noteq> ''.''" "r \<Longrightarrow> base = []"
  shows "(\<forall>c \<in> set (foldl (clean_step r) acc cs). c \<noteq> [] \<and> c \<noteq> ''.'')
    \<and> lex_walk base (rev (foldl (clean_step r) acc cs)) = lex_walk (lex_walk base (rev acc)) cs"
  using assms
proof (induction cs arbitrary: acc)
  case (Cons d cs)
  let ?acc = "clean_step r acc d"
  from Cons.prems(1) have a: "\<forall>c \<in> set ?acc. c \<noteq> [] \<and> c \<noteq> ''.''" by (rule clean_step_elems)
  from Cons.IH [OF a Cons.prems(2)] clean_step_walk [OF Cons.prems(1), of r base d] Cons.prems(2)
  show ?case by (simp del: clean_step.simps)
qed simp

lemma clean_elems_nonempty: "c \<in> set (clean_elems p) \<Longrightarrow> c \<noteq> [] \<and> c \<noteq> ''.''"
  using clean_fold [of "[]" "path_rooted p" "[]"] by (auto simp: clean_elems_def)

lemma clean_step_subset: "set (clean_step r acc d) \<subseteq> insert d (set acc)"
  by (cases acc) auto

lemma clean_fold_subset: "set (foldl (clean_step r) acc cs) \<subseteq> set acc \<union> set cs"
proof (induction cs arbitrary: acc)
  case (Cons d cs)
  show ?case using Cons [of "clean_step r acc d"] clean_step_subset [of r acc d]
    by (auto simp del: clean_step.simps)
qed simp

lemma clean_elems_noslash: "c \<in> set (clean_elems p) \<Longrightarrow> CHR ''/'' \<notin> set c"
  using clean_fold_subset [of "path_rooted p" "[]" "split_at (CHR ''/'') p"]
  by (auto simp: clean_elems_def dest: split_at_fields)

lemma clean_elems_walk:
  "lex_resolve cwd p = lex_walk (if path_rooted p then [] else cwd) (clean_elems p)"
  using clean_fold [of "[]" "path_rooted p" "if path_rooted p then [] else cwd"
      "split_at (CHR ''/'') p"]
  by (simp add: clean_elems_def lex_resolve_def)

lemma Join_not_rooted:
  assumes "fs \<noteq> []" "\<And>f. f \<in> set fs \<Longrightarrow> f \<noteq> [] \<and> CHR ''/'' \<notin> set f"
  shows "\<not> path_rooted (strings_Join fs sep)"
proof -
  obtain f gs where fs: "fs = f # gs" using assms(1) by (cases fs) auto
  obtain c r where f: "f = c # r" using assms(2) [of f] fs by (cases f) auto
  have "c \<noteq> CHR ''/''" using assms(2) [of f] fs f by auto
  then show ?thesis using fs f by (cases gs) (auto simp: path_rooted_def)
qed

text \<open>Cleaning a path keeps the place it denotes.\<close>

lemma Clean_resolve: "lex_resolve cwd (filepath_Clean p) = lex_resolve cwd p"
proof -
  let ?es = "clean_elems p"
  have es: "\<And>f. f \<in> set ?es \<Longrightarrow> f \<noteq> [] \<and> CHR ''/'' \<notin> set f"
    using clean_elems_nonempty clean_elems_noslash by blast
  have split: "?es \<noteq> [] \<Longrightarrow> split_at (CHR ''/'') (strings_Join ?es ''/'') = ?es"
    using es split_Join [of ?es "CHR ''/''"] by blast
  consider "p = []" | "p \<noteq> []" "path_rooted p" | "p \<noteq> []" "\<not> path_rooted p" by blast
  then show ?thesis
  proof cases
    case 1
    then show ?thesis by (simp add: filepath_Clean_def lex_resolve_def path_rooted_def)
  next
    case 2
    then have c: "filepath_Clean p = CHR ''/'' # strings_Join ?es ''/''"
      by (simp add: filepath_Clean_def)
    have "lex_resolve cwd (filepath_Clean p) = lex_walk [] ?es"
      using split by (cases "?es = []") (simp_all add: c lex_resolve_def path_rooted_def)
    with 2 show ?thesis by (simp add: clean_elems_walk)
  next
    case 3
    show ?thesis
    proof (cases "?es = []")
      case True
      with 3 show ?thesis
        by (simp add: clean_elems_walk [of cwd p] filepath_Clean_def)
           (simp add: lex_resolve_def path_rooted_def)
    next
      case False
      with 3 have c: "filepath_Clean p = strings_Join ?es ''/''"
        by (simp add: filepath_Clean_def)
      have "\<not> path_rooted (strings_Join ?es ''/'')" using False es by (rule Join_not_rooted)
      with c split False 3 show ?thesis
        by (simp add: clean_elems_walk [of cwd p]) (simp add: lex_resolve_def)
    qed
  qed
qed

text \<open>A cleaned path without the text \<open>..\<close> has no parent element left.\<close>

lemma Clean_no_parent:
  assumes "\<not> strings_Contains (filepath_Clean p) ''..''"
  shows "''..'' \<notin> set (clean_elems p)"
proof
  assume p: "''..'' \<in> set (clean_elems p)"
  then have "strings_Contains (strings_Join (clean_elems p) ''/'') ''..''"
    by (rule Contains_Join)
  then have c: "strings_Contains (CHR ''/'' # strings_Join (clean_elems p) ''/'') ''..''"
    by simp
  have ne: "clean_elems p \<noteq> []" using p by auto
  have "p \<noteq> []" using p by (auto simp: clean_elems_def)
  with ne c show False using assms \<open>strings_Contains (strings_Join _ _) _\<close>
    by (auto simp: filepath_Clean_def split: if_splits)
qed

lemma Clean_below:
  assumes "\<not> strings_Contains (filepath_Clean p) ''..''"
  shows "\<exists>names. lex_resolve cwd p = (if path_rooted p then [] else cwd) @ names"
  using clean_elems_walk [of cwd p] lex_walk_names [of "clean_elems p"]
    Clean_no_parent [OF assms] clean_elems_nonempty by metis

end
