(* ===== verification/Messages.thy ===== *)
theory Messages
  imports Go_Strings
begin

text \<open>
  The protobuf messages of \<open>fabric-x-common\<close> that the sources build and read, with the fields they
  use, and the operations of the protobuf runtime on them. The messages are generated code outside
  the sources: a record field named \<open>*_rest\<close> stands for the fields no source reads. A singular
  message field that may be absent is an \<open>option\<close>; a repeated field is a list, and an empty
  repeated field is the same as an absent one, as in protobuf. An entry of \<open>Tx.Endorsements\<close> is an
  \<open>option\<close> because \<open>Endorse\<close> fills a slice of nil pointers.
\<close>

record identity =
  msp_id :: string
  id_rest :: bytes

record endorsement_with_identity =
  ewi_endorsement :: bytes
  ewi_identity :: "identity option"

type_synonym endorsement_list = "endorsement_with_identity list"

record read_write =
  rw_key :: bytes
  rw_value :: bytes
  rw_version :: "64 word option"

record tx_namespace =
  ns_id :: string
  ns_version :: "64 word"
  read_writes :: "read_write list"
  ns_rest :: bytes

record tx =
  namespaces :: "tx_namespace list"
  endorsements :: "endorsement_list option list"

datatype namespace_policy = Msp_Rule bytes | Threshold_Rule string bytes

text \<open>The generated getters: a nil receiver yields the zero value.\<close>

definition tx_GetNamespaces :: "tx option \<Rightarrow> tx_namespace list" where
  "tx_GetNamespaces t = (case t of None \<Rightarrow> [] | Some t \<Rightarrow> namespaces t)"

definition tx_GetEndorsements :: "tx option \<Rightarrow> endorsement_list option list" where
  "tx_GetEndorsements t = (case t of None \<Rightarrow> [] | Some t \<Rightarrow> endorsements t)"

definition GetEndorsementsWithIdentity :: "endorsement_list option \<Rightarrow> endorsement_list" where
  "GetEndorsementsWithIdentity e = (case e of None \<Rightarrow> [] | Some es \<Rightarrow> es)"

definition ewi_GetMspId :: "endorsement_with_identity \<Rightarrow> string" where
  "ewi_GetMspId e = (case ewi_identity e of None \<Rightarrow> '''' | Some i \<Rightarrow> msp_id i)"

lemma getters_simps [simp]:
  "tx_GetNamespaces None = []" "tx_GetNamespaces (Some t) = namespaces t"
  "tx_GetEndorsements None = []" "tx_GetEndorsements (Some t) = endorsements t"
  "GetEndorsementsWithIdentity None = []" "GetEndorsementsWithIdentity (Some es) = es"
  by (simp_all add: tx_GetNamespaces_def tx_GetEndorsements_def GetEndorsementsWithIdentity_def)

text \<open>
  The operations of the protobuf runtime and of the generated code that the transaction package
  calls: \<open>proto.CloneOf\<close>, \<open>proto.Equal\<close> on namespaces, \<open>TxNamespace.ASN1Marshal(txID, nil)\<close>,
  \<open>proto.Unmarshal\<close> into an \<open>Identity\<close>, and \<open>proto.Marshal\<close> of a policy.
\<close>

record proto_api =
  proto_CloneOf :: "tx option \<Rightarrow> tx option"
  proto_Equal :: "tx_namespace \<Rightarrow> tx_namespace \<Rightarrow> bool"
  ns_ASN1Marshal :: "tx_namespace \<Rightarrow> string \<Rightarrow> bytes result"
  identity_Unmarshal :: "bytes \<Rightarrow> identity result"
  policy_Marshal :: "namespace_policy \<Rightarrow> bytes result"

text \<open>
  The documented contract: a clone is a deep copy (of a message without nil list elements), a nil
  message clones to nil, and equality compares the field values.
\<close>

definition proto_laws :: "proto_api \<Rightarrow> bool" where
  "proto_laws P \<longleftrightarrow>
     proto_CloneOf P None = None \<and>
     (\<forall>t. None \<notin> set (endorsements t) \<longrightarrow> proto_CloneOf P (Some t) = Some t) \<and>
     (\<forall>t. \<exists>t'. proto_CloneOf P (Some t) = Some t' \<and> namespaces t' = namespaces t) \<and>
     (\<forall>a b. proto_Equal P a b \<longleftrightarrow> a = b)"

lemma clone_None: "proto_laws P \<Longrightarrow> proto_CloneOf P None = None"
  and clone_Some: "proto_laws P \<Longrightarrow> None \<notin> set (endorsements t) \<Longrightarrow> proto_CloneOf P (Some t) = Some t"
  and clone_namespaces:
    "proto_laws P \<Longrightarrow> proto_CloneOf P (Some t) = Some t' \<Longrightarrow> namespaces t' = namespaces t"
  and clone_not_None: "proto_laws P \<Longrightarrow> proto_CloneOf P (Some t) \<noteq> None"
  and equal_iff: "proto_laws P \<Longrightarrow> proto_Equal P a b \<longleftrightarrow> a = b"
  unfolding proto_laws_def by (blast, blast, metis option.inject, metis option.distinct(1), blast)

text \<open>A concrete runtime that satisfies the contract, for closed instances of the theorems.\<close>

definition sample_proto :: proto_api where
  "sample_proto =
     \<lparr>proto_CloneOf = (\<lambda>t. t),
      proto_Equal = (\<lambda>a b. a = b),
      ns_ASN1Marshal = (\<lambda>n txID. Ok (txID @ ns_id n)),
      identity_Unmarshal = (\<lambda>b. Ok \<lparr>msp_id = b, id_rest = []\<rparr>),
      policy_Marshal = (\<lambda>p. case p of Msp_Rule b \<Rightarrow> Ok b | Threshold_Rule s k \<Rightarrow> Ok (s @ k))\<rparr>"

lemma sample_proto_laws [simp]: "proto_laws sample_proto"
  by (simp add: proto_laws_def sample_proto_def)

text \<open>
  A signing identity (\<open>msp.SigningIdentity\<close>), an interface of \<open>fabric-x-common\<close>: signing may be
  randomised or talk to a device, so it is an operation on the world.
\<close>

record 'w signing_identity =
  si_Serialize :: "bytes result"
  si_Sign :: "bytes \<Rightarrow> (bytes, 'w) io"

text \<open>\<open>protoutil.MarshalOrPanic\<close> and its kin: a marshalling error becomes a panic.\<close>

fun or_panic :: "'a result \<Rightarrow> 'a result" where
  "or_panic (Ok x) = Ok x"
| "or_panic (Err e) = Panic ''marshal error''"
| "or_panic (Panic p) = Panic p"

lemma or_panic_iff [res_simps]:
  "or_panic r = Ok x \<longleftrightarrow> r = Ok x"
  "or_panic r \<noteq> Err e"
  by (cases r; auto)+

section \<open>The policy language, PEM, X.509 and files\<close>

datatype public_key = Ecdsa_Key bytes | Other_Key bytes

record certificate =
  cert_PublicKey :: "public_key option"
  cert_is_ECDSA :: bool

text \<open>
  \<open>policydsl.FromString\<close> followed by \<open>protoutil.MarshalOrPanic\<close> of its result needs the parsed
  expression only to pass it on: it is an opaque byte string. \<open>pem_Decode\<close> returns a block's bytes
  and the rest of the input, or nothing. The errors of the two X.509 parsers are never read, so failure is
  \<^term>\<open>None\<close>, which for a public key also stands for a nil key.
\<close>

record policy_api =
  dsl_FromString :: "string \<Rightarrow> bytes result"
  dsl_Marshal :: "bytes \<Rightarrow> bytes result"
  os_ReadFile :: "string \<Rightarrow> bytes result"
  pem_Decode :: "bytes \<Rightarrow> (bytes \<times> bytes) option"
  pem_EncodeToMemory :: "string \<Rightarrow> bytes \<Rightarrow> bytes"
  x509_ParseCertificate :: "bytes \<Rightarrow> certificate option"
  x509_ParsePKIXPublicKey :: "bytes \<Rightarrow> public_key option"
  x509_MarshalPKIXPublicKey :: "public_key \<Rightarrow> bytes result"

text \<open>A toy file format for a closed instance: a block is one byte, \<open>E\<close> is an ECDSA key.\<close>

definition sample_policy_api :: policy_api where
  "sample_policy_api =
     \<lparr>dsl_FromString = (\<lambda>s. if s = [] then Err (Error_Ext ''empty'') else Ok s),
      dsl_Marshal = Ok,
      os_ReadFile = (\<lambda>p. Ok p),
      pem_Decode = (\<lambda>d. case d of [] \<Rightarrow> None | c # r \<Rightarrow> Some ([c], r)),
      pem_EncodeToMemory = (\<lambda>t b. t @ b),
      x509_ParseCertificate = (\<lambda>b. None),
      x509_ParsePKIXPublicKey =
        (\<lambda>b. Some (if b = ''E'' then Ecdsa_Key b else Other_Key b)),
      x509_MarshalPKIXPublicKey = (\<lambda>k. case k of Ecdsa_Key b \<Rightarrow> Ok b | Other_Key b \<Rightarrow> Ok b)\<rparr>"

end
