(* ===== verification/Tx_Policy.thy ===== *)
theory Tx_Policy
  imports Messages
begin

text \<open>
  \<open>tools/fxconfig/internal/transaction/policy.go\<close>: namespace policies from a policy expression or
  from the public key in a PEM file. The policy language, PEM, X.509 and the file system are
  parameters (\<open>policy_api\<close>); the search through the PEM blocks is the source's loop, which stops
  only if decoding consumes input, so it is a partial function and its termination a theorem.
\<close>

definition CreateMspPolicy :: "policy_api \<Rightarrow> string \<Rightarrow> namespace_policy result" where
  "CreateMspPolicy L policy =
     res_bind (dsl_FromString L policy) (\<lambda>p. res_map Msp_Rule (or_panic (dsl_Marshal L p)))"

text \<open>
  The key of one block: a certificate's key if the block is a certificate with an ECDSA key, else
  the block's own key if it parses as one and is ECDSA. \<open>Inl\<close> is the early return of the type
  assertion, \<open>Inr\<close> the value of \<open>publicKey\<close> at the test against nil.
\<close>

definition block_key :: "policy_api \<Rightarrow> bytes \<Rightarrow> go_error + public_key option" where
  "block_key L b =
     (case x509_ParseCertificate L b of
        Some cert \<Rightarrow> Inr (if cert_PublicKey cert \<noteq> None \<and> cert_is_ECDSA cert then cert_PublicKey cert else None)
      | None \<Rightarrow>
          (case x509_ParsePKIXPublicKey L b of
             Some (Ecdsa_Key k) \<Rightarrow> Inr (Some (Ecdsa_Key k))
           | Some (Other_Key k) \<Rightarrow> Inl (Error_New ''public key is not a ecdsa public key'')
           | None \<Rightarrow> Inr None))"

definition parseCertificateOrPublicKey :: "policy_api \<Rightarrow> bytes \<Rightarrow> bytes result" where
  "parseCertificateOrPublicKey L b =
     (case block_key L b of
        Inl e \<Rightarrow> Err e
      | Inr None \<Rightarrow> Err (Error_New ''no ECDSA public key in block'')
      | Inr (Some key) \<Rightarrow>
          res_wrap ''marshalling public key from failed: '' (x509_MarshalPKIXPublicKey L key))"

text \<open>
  The loop over the PEM blocks. An error of a block means the next block; a panic would leave the
  loop. \<open>None\<close> is a loop that never ends.
\<close>

partial_function (option) getPubKeyFromPemData :: "policy_api \<Rightarrow> bytes \<Rightarrow> bytes result option" where
  "getPubKeyFromPemData L content =
     (case pem_Decode L content of
        None \<Rightarrow> Some (Err (Error_New ''no ECDSA public key in pem file''))
      | Some (block, rest) \<Rightarrow>
          (case parseCertificateOrPublicKey L block of
             Err e \<Rightarrow> getPubKeyFromPemData L rest
           | Ok key \<Rightarrow> Some (Ok (pem_EncodeToMemory L ''PUBLIC KEY'' key))
           | Panic p \<Rightarrow> Some (Panic p)))"

definition CreateThresholdPolicy :: "policy_api \<Rightarrow> string \<Rightarrow> namespace_policy result option" where
  "CreateThresholdPolicy L path =
     (case os_ReadFile L path of
        Err e \<Rightarrow> Some (Err e)
      | Panic p \<Rightarrow> Some (Panic p)
      | Ok pkData \<Rightarrow>
          map_option (res_map (\<lambda>k. Threshold_Rule ''ECDSA'' k)) (getPubKeyFromPemData L pkData))"

section \<open>The search through the blocks\<close>

text \<open>The blocks of a PEM input, as repeated decoding finds them.\<close>

inductive pem_blocks :: "policy_api \<Rightarrow> bytes \<Rightarrow> bytes list \<Rightarrow> bool" for L where
  no_block: "pem_Decode L d = None \<Longrightarrow> pem_blocks L d []"
| block: "pem_Decode L d = Some (b, r) \<Longrightarrow> pem_blocks L r bs \<Longrightarrow> pem_blocks L d (b # bs)"

text \<open>
  The documented behaviour of \<open>pem.Decode\<close>: the rest it returns is what follows the block, so it
  is shorter than the input.
\<close>

definition pem_consumes :: "policy_api \<Rightarrow> bool" where
  "pem_consumes L \<longleftrightarrow> (\<forall>d b r. pem_Decode L d = Some (b, r) \<longrightarrow> length r < length d)"

lemma pem_blocks_ex:
  assumes "pem_consumes L"
  shows "\<exists>bs. pem_blocks L d bs"
proof (induction d rule: length_induct)
  case (1 d)
  show ?case
  proof (cases "pem_Decode L d")
    case (Some br)
    then obtain b r where br: "pem_Decode L d = Some (b, r)" by (cases br) auto
    then have "length r < length d" using assms by (auto simp: pem_consumes_def)
    then obtain bs where "pem_blocks L r bs" using 1 by blast
    with br show ?thesis by (blast intro: pem_blocks.block)
  qed (blast intro: pem_blocks.no_block)
qed

lemma pem_search_ends:
  assumes "pem_consumes L"
  shows "\<exists>k. getPubKeyFromPemData L d = Some k"
proof (induction d rule: length_induct)
  case (1 d)
  show ?case
  proof (cases "pem_Decode L d")
    case None
    then show ?thesis by (subst getPubKeyFromPemData.simps) simp
  next
    case (Some br)
    then obtain b r where br: "pem_Decode L d = Some (b, r)" by (cases br) auto
    then have "length r < length d" using assms by (auto simp: pem_consumes_def)
    then obtain k where "getPubKeyFromPemData L r = Some k" using 1 by blast
    with br show ?thesis
      by (subst getPubKeyFromPemData.simps) (auto split: result.split)
  qed
qed

lemma parse_not_panic:
  assumes "\<And>k. \<not> is_panic (x509_MarshalPKIXPublicKey L k)"
  shows "\<not> is_panic (parseCertificateOrPublicKey L b)"
  using assms
  by (auto simp: parseCertificateOrPublicKey_def split: sum.split option.split)

lemma getPubKey_blocks:
  assumes "pem_blocks L d bs" "\<And>k. \<not> is_panic (x509_MarshalPKIXPublicKey L k)"
  shows "getPubKeyFromPemData L d = Some
    (case find is_ok (map (parseCertificateOrPublicKey L) bs) of
       Some (Ok key) \<Rightarrow> Ok (pem_EncodeToMemory L ''PUBLIC KEY'' key)
     | _ \<Rightarrow> Err (Error_New ''no ECDSA public key in pem file''))"
  using assms(1)
proof (induction rule: pem_blocks.induct)
  case (no_block d)
  then show ?case by (subst getPubKeyFromPemData.simps) simp
next
  case (block d b r bs)
  have "\<not> is_panic (parseCertificateOrPublicKey L b)" using assms(2) by (rule parse_not_panic)
  with block show ?case
    by (subst getPubKeyFromPemData.simps) (cases "parseCertificateOrPublicKey L b"; simp)
qed

lemma parse_Ok_iff:
  "parseCertificateOrPublicKey L b = Ok key \<longleftrightarrow>
     (\<exists>pk. block_key L b = Inr (Some pk) \<and> x509_MarshalPKIXPublicKey L pk = Ok key)"
  by (auto simp: parseCertificateOrPublicKey_def res_simps split: sum.splits option.splits)

text \<open>
  What the search is for, apart from how it goes about it: the ECDSA key of a certificate, or else of a bare
  public key, and among the blocks of a file the first that has one which can be encoded.
\<close>

definition usable_key :: "policy_api \<Rightarrow> bytes \<Rightarrow> public_key \<Rightarrow> bool" where
  "usable_key L b pk \<longleftrightarrow>
     (case x509_ParseCertificate L b of
        Some cert \<Rightarrow> cert_is_ECDSA cert \<and> cert_PublicKey cert = Some pk
      | None \<Rightarrow> x509_ParsePKIXPublicKey L b = Some pk \<and> (\<exists>k. pk = Ecdsa_Key k))"

definition keyless :: "policy_api \<Rightarrow> bytes \<Rightarrow> bool" where
  "keyless L b \<longleftrightarrow> (\<forall>pk. usable_key L b pk \<longrightarrow> \<not> is_ok (x509_MarshalPKIXPublicKey L pk))"

definition key_of_blocks :: "policy_api \<Rightarrow> bytes list \<Rightarrow> bytes result \<Rightarrow> bool" where
  "key_of_blocks L bs r \<longleftrightarrow>
     (\<forall>b \<in> set bs. keyless L b) \<and> r = Err (Error_New ''no ECDSA public key in pem file'')
   \<or> (\<exists>pre b post pk key. bs = pre @ b # post \<and> (\<forall>c \<in> set pre. keyless L c)
        \<and> usable_key L b pk \<and> x509_MarshalPKIXPublicKey L pk = Ok key
        \<and> r = Ok (pem_EncodeToMemory L ''PUBLIC KEY'' key))"

lemma block_key_usable: "block_key L b = Inr (Some pk) \<longleftrightarrow> usable_key L b pk"
  by (auto simp: block_key_def usable_key_def split: option.splits public_key.splits)

lemma keyless_iff: "keyless L b \<longleftrightarrow> \<not> is_ok (parseCertificateOrPublicKey L b)"
  by (auto simp: keyless_def is_ok_iff parse_Ok_iff block_key_usable)

lemma pem_search_key:
  assumes "pem_blocks L d bs" "\<And>k. \<not> is_panic (x509_MarshalPKIXPublicKey L k)"
  shows "\<exists>r. getPubKeyFromPemData L d = Some r \<and> key_of_blocks L bs r"
proof -
  let ?f = "parseCertificateOrPublicKey L"
  note get = getPubKey_blocks [OF assms]
  show ?thesis
  proof (cases "\<exists>b \<in> set bs. is_ok (?f b)")
    case False
    then have "find is_ok (map ?f bs) = None" by (auto simp: find_None_iff)
    then show ?thesis using get False by (simp add: key_of_blocks_def keyless_iff)
  next
    case True
    then obtain pre b post where sp: "bs = pre @ b # post" "is_ok (?f b)" "\<forall>c \<in> set pre. \<not> is_ok (?f c)"
      using split_list_first_prop [of bs "\<lambda>b. is_ok (?f b)"] by blast
    then obtain key where key: "?f b = Ok key" by (auto simp: is_ok_iff)
    have "find is_ok (map ?f pre @ ys) = find is_ok ys" for ys
      using sp(3) by (induction pre) auto
    then have "find is_ok (map ?f bs) = Some (Ok key)" by (simp add: sp(1) key)
    then have "getPubKeyFromPemData L d = Some (Ok (pem_EncodeToMemory L ''PUBLIC KEY'' key))"
      using get by simp
    moreover obtain pk where "usable_key L b pk" "x509_MarshalPKIXPublicKey L pk = Ok key"
      using key parse_Ok_iff block_key_usable by blast
    moreover have "\<forall>c \<in> set pre. keyless L c" using sp(3) by (simp add: keyless_iff)
    ultimately show ?thesis using sp(1) unfolding key_of_blocks_def by blast
  qed
qed

section \<open>Properties\<close>

text \<open>
  C35: the search for a public key ends on every input and returns the PEM encoding of the key of the
  first block that holds a usable one: a certificate whose key is an ECDSA key, or a bare ECDSA public key,
  that can be encoded. If no block does, it returns an error. It never returns the key of a block that
  a usable block precedes, nor a key of another algorithm.
\<close>

theorem pem_key_search:
  assumes "pem_consumes L" "\<And>k. \<not> is_panic (x509_MarshalPKIXPublicKey L k)"
  shows "\<exists>bs. pem_blocks L d bs \<and> (\<exists>r. getPubKeyFromPemData L d = Some r \<and> key_of_blocks L bs r)"
proof -
  obtain bs where "pem_blocks L d bs" using pem_blocks_ex [OF assms(1)] by blast
  then show ?thesis using pem_search_key assms(2) by blast
qed

theorem pem_key_search_witness:
  "pem_consumes sample_policy_api
   \<and> getPubKeyFromPemData sample_policy_api ''xyE'' = Some (Ok ''PUBLIC KEYE'')
   \<and> (\<exists>bs. pem_blocks sample_policy_api ''xyE'' bs \<and> key_of_blocks sample_policy_api bs (Ok ''PUBLIC KEYE''))"
proof -
  have c: "pem_consumes sample_policy_api"
    by (auto simp: pem_consumes_def sample_policy_api_def split: list.splits)
  have n: "\<not> is_panic (x509_MarshalPKIXPublicKey sample_policy_api k)" for k
    by (cases k) (simp_all add: sample_policy_api_def)
  have g: "getPubKeyFromPemData sample_policy_api ''xyE'' = Some (Ok ''PUBLIC KEYE'')"
    by (simp add: getPubKeyFromPemData.simps parseCertificateOrPublicKey_def block_key_def sample_policy_api_def)
  show ?thesis using c g pem_key_search [OF c n, of "''xyE''"] by auto
qed

end
