(* ===== verification/Validation.thy ===== *)
theory Validation
  imports Messages
begin

text \<open>
  \<open>tools/fxconfig/internal/validation\<close>: the three checker interfaces that configuration and
  namespace input are validated against (\<open>validation_context\<close>) and their implementations on the
  operating system and the policy language. The contract that the clients of a path checker rely
  on is the locale \<open>path_checker\<close>; it is interpreted for the file and the directory checker.
\<close>

section \<open>The interfaces\<close>

record validation_context =
  PolicyChecker_Check :: "string \<Rightarrow> unit result"
  FileChecker_Exists :: "string \<Rightarrow> unit result"
  DirectoryChecker_Exists :: "string \<Rightarrow> unit result"

text \<open>
  What \<open>os.Stat\<close> says of a path: present (and whether a directory), absent, or another error. What is not
  a directory need not be a regular file; the code does not ask.
\<close>

datatype stat_result = Stat_Info bool | Stat_NotExist go_error | Stat_Error go_error

type_synonym file_system = "string \<Rightarrow> stat_result"

section \<open>The checkers\<close>

definition PolicyDSLChecker_Check :: "policy_api \<Rightarrow> string \<Rightarrow> unit result" where
  "PolicyDSLChecker_Check L e =
     res_wrap ''invalid policy expression: '' (res_map (\<lambda>_. ()) (dsl_FromString L e))"

definition OSFileChecker_Exists :: "file_system \<Rightarrow> string \<Rightarrow> unit result" where
  "OSFileChecker_Exists os_Stat path =
     (if path = '''' then Err (Error_New ''path must not be empty'')
      else let clean = filepath_Clean path
        in if strings_Contains clean ''..'' then Err (Error_New ''path traversal not allowed'')
           else (case os_Stat clean of
                   Stat_NotExist e \<Rightarrow> Err (Error_New (''file does not exist: '' @ path))
                 | Stat_Error e \<Rightarrow> Err e
                 | Stat_Info isDir \<Rightarrow>
                     if isDir then Err (Error_New (''expected file but got directory: '' @ path))
                     else Ok ()))"

definition OSDirectoryChecker_Exists :: "file_system \<Rightarrow> string \<Rightarrow> unit result" where
  "OSDirectoryChecker_Exists os_Stat path =
     (if path = '''' then Err (Error_New ''path must not be empty'')
      else let clean = filepath_Clean path
        in if strings_Contains clean ''..'' then Err (Error_New ''path traversal not allowed'')
           else (case os_Stat clean of
                   Stat_NotExist e \<Rightarrow> Err (Error_New (''directory does not exist: '' @ path))
                 | Stat_Error e \<Rightarrow> Err e
                 | Stat_Info isDir \<Rightarrow>
                     if \<not> isDir then Err (Error_New (''not a directory: '' @ path)) else Ok ()))"

definition NewValidationContext :: "policy_api \<Rightarrow> file_system \<Rightarrow> validation_context" where
  "NewValidationContext L os_Stat =
     \<lparr>PolicyChecker_Check = PolicyDSLChecker_Check L,
      FileChecker_Exists = OSFileChecker_Exists os_Stat,
      DirectoryChecker_Exists = OSDirectoryChecker_Exists os_Stat\<rparr>"

lemma NewValidationContext_simps [simp]:
  "PolicyChecker_Check (NewValidationContext L fs) = PolicyDSLChecker_Check L"
  "FileChecker_Exists (NewValidationContext L fs) = OSFileChecker_Exists fs"
  "DirectoryChecker_Exists (NewValidationContext L fs) = OSDirectoryChecker_Exists fs"
  by (simp_all add: NewValidationContext_def)

section \<open>The contract of a path checker\<close>

text \<open>
  A path checker accepts only paths that are not empty, whose cleaned form has no \<open>..\<close>, and for
  which the file system reports the kind of object wanted; it returns, never panics.
\<close>

locale path_checker =
  fixes stat :: file_system
    and wanted :: "stat_result \<Rightarrow> bool"
    and exists :: "string \<Rightarrow> unit result"
  assumes accepted_nonempty: "exists p = Ok () \<Longrightarrow> p \<noteq> ''''"
    and accepted_clean: "exists p = Ok () \<Longrightarrow> \<not> strings_Contains (filepath_Clean p) ''..''"
    and accepted_kind: "exists p = Ok () \<Longrightarrow> wanted (stat (filepath_Clean p))"
    and returns: "\<not> is_panic (exists p)"
begin

text \<open>
  The path denotes a place below the root (a rooted path) or below the working directory, and
  the cleaned path that was looked up denotes the same place.
\<close>

lemma accepted_confined:
  assumes "exists p = Ok ()"
  shows "\<exists>names. lex_resolve cwd p = (if path_rooted p then [] else cwd) @ names"
    and "lex_resolve cwd (filepath_Clean p) = lex_resolve cwd p"
  using Clean_below [OF accepted_clean [OF assms]] Clean_resolve by blast+

lemma empty_rejected: "exists '''' \<noteq> Ok ()"
  using accepted_nonempty by blast

text \<open>A list of paths checked one by one, as a configuration's certificate paths are.\<close>

lemma all_accepted:
  assumes "\<forall>p \<in> set ps. exists p = Ok ()" "p \<in> set ps"
  shows "p \<noteq> ''''" "wanted (stat (filepath_Clean p))"
    "\<exists>names. lex_resolve cwd p = (if path_rooted p then [] else cwd) @ names"
  using assms accepted_nonempty accepted_kind accepted_confined(1) by blast+

end

definition is_file :: "stat_result \<Rightarrow> bool" where
  "is_file s = (s = Stat_Info False)"

definition is_directory :: "stat_result \<Rightarrow> bool" where
  "is_directory s = (s = Stat_Info True)"

interpretation os_file: path_checker fs is_file "OSFileChecker_Exists fs" for fs
  by unfold_locales
     (auto simp: OSFileChecker_Exists_def is_file_def Let_def split: if_splits stat_result.splits)

interpretation os_dir: path_checker fs is_directory "OSDirectoryChecker_Exists fs" for fs
  by unfold_locales
     (auto simp: OSDirectoryChecker_Exists_def is_directory_def Let_def split: if_splits stat_result.splits)

section \<open>Properties\<close>

text \<open>
  C34: a path that the file or the directory checker accepts is confined: walking its elements from
  any working directory ends below that directory (below the root for a rooted path), the cleaned
  path that the checker looked up denotes the same place, and the file system reported an object
  of the kind asked for there.
\<close>

theorem accepted_paths_confined:
  "(OSFileChecker_Exists fs p = Ok () \<longrightarrow>
      (\<exists>names. lex_resolve cwd p = (if path_rooted p then [] else cwd) @ names)
      \<and> lex_resolve cwd (filepath_Clean p) = lex_resolve cwd p
      \<and> fs (filepath_Clean p) = Stat_Info False)
   \<and> (OSDirectoryChecker_Exists fs p = Ok () \<longrightarrow>
      (\<exists>names. lex_resolve cwd p = (if path_rooted p then [] else cwd) @ names)
      \<and> lex_resolve cwd (filepath_Clean p) = lex_resolve cwd p
      \<and> fs (filepath_Clean p) = Stat_Info True)"
  using os_file.accepted_confined [of fs p cwd] os_file.accepted_kind [of fs p]
    os_dir.accepted_confined [of fs p cwd] os_dir.accepted_kind [of fs p]
  by (auto simp: is_file_def is_directory_def)

theorem accepted_paths_confined_witness:
  "OSFileChecker_Exists (\<lambda>_. Stat_Info False) ''a/./b/../key.pem'' = Ok ()
   \<and> (\<exists>names. lex_resolve [''home''] ''a/./b/../key.pem'' = [''home''] @ names)"
proof -
  have ok: "OSFileChecker_Exists (\<lambda>_. Stat_Info False) ''a/./b/../key.pem'' = Ok ()"
    by code_simp
  have "\<not> path_rooted ''a/./b/../key.pem''" by (simp add: path_rooted_def)
  then show ?thesis
    using ok accepted_paths_confined [of "\<lambda>_. Stat_Info False" "''a/./b/../key.pem''" "[''home'']"]
    by auto
qed

text \<open>
  The test for path traversal is a test for the text \<open>..\<close> anywhere in the cleaned path, so it
  also refuses a file in the working directory whose name contains two dots in a row: for such a
  name that is a single element other than \<open>..\<close> itself, the file checker reports path traversal on
  every file system, although the path denotes a place directly below the working directory.
\<close>

theorem dotted_names_refused:
  assumes "CHR ''/'' \<notin> set p" "p \<noteq> ''..''" "strings_Contains p ''..''"
  shows "OSFileChecker_Exists fs p = Err (Error_New ''path traversal not allowed'')
    \<and> lex_resolve cwd p = cwd @ [p]"
proof -
  have ne: "p \<noteq> []" "p \<noteq> ''.''" using assms(3) by (auto simp: strings_HasPrefix_def)
  have r: "\<not> path_rooted p" using assms(1) by (auto simp: path_rooted_def split: list.split)
  have "clean_elems p = [p]" using assms(1,2) ne r by (simp add: clean_elems_def)
  then have "filepath_Clean p = p" using ne r by (simp add: filepath_Clean_def)
  then show ?thesis
    using assms ne r by (simp add: OSFileChecker_Exists_def lex_resolve_def)
qed

theorem dotted_names_refused_witness:
  "OSFileChecker_Exists (\<lambda>_. Stat_Info False) ''ca..pem'' = Err (Error_New ''path traversal not allowed'')"
  using dotted_names_refused [of "''ca..pem''" "\<lambda>_. Stat_Info False"]
  by (simp add: strings_HasPrefix_def)

end
