(* ===== verification/App_Policy.thy ===== *)
theory App_Policy
  imports Tx_Policy Validation
begin

text \<open>
  \<open>tools/fxconfig/internal/app/policy.go\<close> and \<open>createPolicy\<close> of \<open>create.go\<close>: the policy of a
  namespace as the user states it, its validation, and the policy that is made of it. A pointer to
  a configuration is an option.
\<close>

record msp_policy_config =
  Expression :: string

record threshold_policy_config =
  VerificationKeyPath :: string

record policy_config =
  pc_Type :: string
  pc_MSP :: "msp_policy_config option"
  pc_Threshold :: "threshold_policy_config option"

definition mspPolicyType :: string where "mspPolicyType = ''msp''"

definition thresholdPolicyType :: string where "thresholdPolicyType = ''threshold''"

definition policy_Set :: "policy_config \<Rightarrow> string \<Rightarrow> policy_config" where
  "policy_Set c policy =
     (let policy = strings_TrimSpace policy
      in case strings_CutPrefix policy ''threshold:'' of
           Some k \<Rightarrow> c\<lparr>pc_Type := thresholdPolicyType,
                        pc_Threshold := Some \<lparr>VerificationKeyPath = strings_TrimSpace k\<rparr>\<rparr>
         | None \<Rightarrow> c\<lparr>pc_Type := mspPolicyType, pc_MSP := Some \<lparr>Expression = policy\<rparr>\<rparr>)"

definition threshold_Validate :: "threshold_policy_config \<Rightarrow> validation_context \<Rightarrow> unit result" where
  "threshold_Validate c vctx =
     (if VerificationKeyPath c = '''' then Err (Error_New ''threshold policy key path must not be empty'')
      else FileChecker_Exists vctx (VerificationKeyPath c))"

definition msp_policy_Validate :: "msp_policy_config \<Rightarrow> validation_context \<Rightarrow> unit result" where
  "msp_policy_Validate c vctx =
     (if Expression c = '''' then Err (Error_New ''msp policy expression must not be empty'')
      else PolicyChecker_Check vctx (Expression c))"

definition policy_Validate :: "policy_config option \<Rightarrow> validation_context \<Rightarrow> unit result" where
  "policy_Validate c vctx =
     (case c of
        None \<Rightarrow> Err (Error_New ''policy is required'')
      | Some c \<Rightarrow>
          if pc_Type c = mspPolicyType then
            (case pc_MSP c of None \<Rightarrow> Err (Error_New ''msp policy config missing'')
             | Some m \<Rightarrow> msp_policy_Validate m vctx)
          else if pc_Type c = thresholdPolicyType then
            (case pc_Threshold c of None \<Rightarrow> Err (Error_New ''threshold policy config missing'')
             | Some t \<Rightarrow> threshold_Validate t vctx)
          else Err (Error_New (''unknown policy type: '' @ pc_Type c)))"

text \<open>\<^term>\<open>None\<close> is the search through a PEM file that never ends.\<close>

definition createPolicy :: "policy_api \<Rightarrow> policy_config \<Rightarrow> namespace_policy result option" where
  "createPolicy L cfg =
     (if pc_Type cfg = mspPolicyType then
        (case pc_MSP cfg of None \<Rightarrow> Some (Panic ''nil pointer dereference'')
         | Some m \<Rightarrow> Some (CreateMspPolicy L (Expression m)))
      else if pc_Type cfg = thresholdPolicyType then
        (case pc_Threshold cfg of None \<Rightarrow> Some (Panic ''nil pointer dereference'')
         | Some t \<Rightarrow> CreateThresholdPolicy L (VerificationKeyPath t))
      else Some (Err (Error_New (''unknown policy type: '' @ pc_Type cfg))))"

lemma policy_types [simp]: "mspPolicyType = ''msp''" "thresholdPolicyType = ''threshold''"
  by (simp_all add: mspPolicyType_def thresholdPolicyType_def)

section \<open>Properties\<close>

text \<open>
  Whatever text the user gives, \<open>Set\<close> leaves a policy whose type has its configuration. It is
  the key file of the trimmed rest when the trimmed text starts with \<open>threshold:\<close>, and otherwise
  the trimmed text as an expression; hence \<open>Validate\<close> never finds a missing part or an unknown
  type, and passes exactly when that path or expression is not empty and passes its checker.
\<close>

theorem policy_set_validates:
  "policy_Validate (Some (policy_Set c s)) vctx = Ok () \<longleftrightarrow>
     (case strings_CutPrefix (strings_TrimSpace s) ''threshold:'' of
        Some k \<Rightarrow> strings_TrimSpace k \<noteq> [] \<and> FileChecker_Exists vctx (strings_TrimSpace k) = Ok ()
      | None \<Rightarrow> strings_TrimSpace s \<noteq> [] \<and> PolicyChecker_Check vctx (strings_TrimSpace s) = Ok ())"
  by (simp add: policy_Validate_def policy_Set_def Let_def threshold_Validate_def
      msp_policy_Validate_def split: option.split)

text \<open>
  C36: a policy that validates can be made. Its creation ends, and never dereferences a missing
  configuration. An MSP policy is made of the expression that was checked, and panics only if the
  parsed expression cannot be marshalled. A threshold policy never panics: the file that was checked is
  read and the first usable key of its blocks taken; a file that cannot be read or has no such key is an
  error.
\<close>

theorem validated_policy_created:
  assumes "policy_Validate (Some cfg) (NewValidationContext L fs) = Ok ()" "pem_consumes L"
    and "\<And>k. \<not> is_panic (x509_MarshalPKIXPublicKey L k)" "\<And>p. \<not> is_panic (os_ReadFile L p)"
  shows "\<exists>r. createPolicy L cfg = Some r \<and>
    (if pc_Type cfg = ''msp''
     then \<exists>m p. pc_MSP cfg = Some m \<and> dsl_FromString L (Expression m) = Ok p
            \<and> (case dsl_Marshal L p of Ok b \<Rightarrow> r = Ok (Msp_Rule b) | _ \<Rightarrow> is_panic r)
     else pc_Type cfg = ''threshold'' \<and> \<not> is_panic r \<and>
          (\<exists>t. pc_Threshold cfg = Some t \<and> fs (filepath_Clean (VerificationKeyPath t)) = Stat_Info False
             \<and> (case os_ReadFile L (VerificationKeyPath t) of
                  Ok d \<Rightarrow> (\<exists>bs k. pem_blocks L d bs \<and> key_of_blocks L bs k \<and> r = res_map (Threshold_Rule ''ECDSA'') k)
                | Err e \<Rightarrow> r = Err e
                | Panic q \<Rightarrow> False)))"
proof (cases "pc_Type cfg = ''msp''")
  case True
  then obtain m where m: "pc_MSP cfg = Some m" "PolicyDSLChecker_Check L (Expression m) = Ok ()"
    using assms(1) by (auto simp: policy_Validate_def msp_policy_Validate_def split: option.splits if_splits)
  then obtain p where "dsl_FromString L (Expression m) = Ok p"
    by (auto simp: PolicyDSLChecker_Check_def res_simps split: if_splits result.splits)
  then show ?thesis using True m
    by (cases "dsl_Marshal L p") (auto simp: createPolicy_def CreateMspPolicy_def)
next
  case False
  then obtain t where t: "pc_Type cfg = ''threshold''" "pc_Threshold cfg = Some t"
    "OSFileChecker_Exists fs (VerificationKeyPath t) = Ok ()"
    using assms(1) by (auto simp: policy_Validate_def threshold_Validate_def split: option.splits if_splits)
  have f: "fs (filepath_Clean (VerificationKeyPath t)) = Stat_Info False"
    using os_file.accepted_kind [OF t(3)] by (simp add: is_file_def)
  show ?thesis
  proof (cases "os_ReadFile L (VerificationKeyPath t)")
    case (Ok d)
    obtain bs k where k: "pem_blocks L d bs" "getPubKeyFromPemData L d = Some k" "key_of_blocks L bs k"
      using pem_blocks_ex [OF assms(2)] pem_search_key assms(3) by blast
    then have "\<not> is_panic (res_map (Threshold_Rule ''ECDSA'') k)" by (auto simp: key_of_blocks_def)
    then show ?thesis using t(1,2) f Ok k by (auto simp: createPolicy_def CreateThresholdPolicy_def)
  next
    case (Panic q)
    then show ?thesis using assms(4) [of "VerificationKeyPath t"] by simp
  qed (use t(1,2) f in \<open>auto simp: createPolicy_def CreateThresholdPolicy_def\<close>)
qed

theorem validated_policy_created_witness:
  "policy_Validate (Some (policy_Set \<lparr>pc_Type = [], pc_MSP = None, pc_Threshold = None\<rparr> '' threshold: E ''))
      (NewValidationContext sample_policy_api (\<lambda>_. Stat_Info False)) = Ok ()
   \<and> (\<exists>r. createPolicy sample_policy_api
        (policy_Set \<lparr>pc_Type = [], pc_MSP = None, pc_Threshold = None\<rparr> '' threshold: E '') = Some r)"
proof -
  let ?c = "policy_Set \<lparr>pc_Type = [], pc_MSP = None, pc_Threshold = None\<rparr> '' threshold: E ''"
  have v: "policy_Validate (Some ?c) (NewValidationContext sample_policy_api (\<lambda>_. Stat_Info False)) = Ok ()"
    by code_simp
  have p: "pem_consumes sample_policy_api"
    by (auto simp: pem_consumes_def sample_policy_api_def split: list.splits)
  have n: "\<not> is_panic (x509_MarshalPKIXPublicKey sample_policy_api k)" for k
    by (cases k) (simp_all add: sample_policy_api_def)
  have rd: "\<not> is_panic (os_ReadFile sample_policy_api f)" for f by (simp add: sample_policy_api_def)
  show ?thesis using v validated_policy_created [OF v p n rd] by blast
qed

end
