(* ===== verification/Config.thy ===== *)
theory Config
  imports Go_Strings
begin

text \<open>
  \<open>tools/fxconfig/internal/config/config.go\<close>: the configuration records and the inheritance of TLS
  settings by the service sections. A \<open>*TLSConfig\<close> and the \<open>*bool\<close> of \<open>Enabled\<close> are options; an
  embedded struct is a record extension; a \<open>time.Duration\<close> is an \<^typ>\<open>int\<close> of nanoseconds.
  \<open>InheritFrom\<close> builds a new struct and \<open>Normalize\<close> only replaces the \<open>Enabled\<close> pointer, so values
  model the pointers faithfully. The merge of TLS sections is a monoid, which gives its laws.
\<close>

record logging_config =
  log_Level :: string
  log_Format :: string

record msp_config =
  LocalMspID :: string
  ConfigPath :: string

record tls_config =
  tls_Enabled :: "bool option"
  ClientKeyPath :: string
  ClientCertPath :: string
  RootCertPaths :: "string list"
  ServerNameOverride :: string

record endpoint_config =
  Address :: string
  ConnectionTimeout :: int
  ep_TLS :: "tls_config option"

type_synonym queries_config = endpoint_config

record orderer_config = endpoint_config +
  Channel :: string

record notifications_config = endpoint_config +
  WaitingTimeout :: int

record config =
  cfg_Logging :: logging_config
  cfg_MSP :: msp_config
  cfg_TLS :: tls_config
  cfg_Orderer :: orderer_config
  cfg_Queries :: queries_config
  cfg_Notifications :: notifications_config

definition empty_tls :: tls_config where
  "empty_tls = \<lparr>tls_Enabled = None, ClientKeyPath = '''', ClientCertPath = '''',
     RootCertPaths = [], ServerNameOverride = ''''\<rparr>"

section \<open>Operations\<close>

definition tls_Normalize :: "tls_config \<Rightarrow> tls_config" where
  "tls_Normalize c =
     (case tls_Enabled c of None \<Rightarrow> c\<lparr>tls_Enabled := Some False\<rparr> | Some _ \<Rightarrow> c)"

text \<open>\<open>cmp.Or\<close> on pointers and on strings: the first argument that is not the zero value.\<close>

definition cmp_Or_ptr :: "'a option \<Rightarrow> 'a option \<Rightarrow> 'a option" where
  "cmp_Or_ptr a b = (case a of None \<Rightarrow> b | Some x \<Rightarrow> Some x)"

definition cmp_Or_string :: "string \<Rightarrow> string \<Rightarrow> string" where
  "cmp_Or_string a b = (if a \<noteq> '''' then a else b)"

definition tls_InheritFrom :: "tls_config option \<Rightarrow> tls_config option \<Rightarrow> tls_config" where
  "tls_InheritFrom c parent =
     (let c = (case c of None \<Rightarrow> empty_tls | Some c \<Rightarrow> c)
      in case parent of
           None \<Rightarrow> c
         | Some parent \<Rightarrow>
             \<lparr>tls_Enabled = cmp_Or_ptr (tls_Enabled c) (tls_Enabled parent),
              ClientKeyPath = cmp_Or_string (ClientKeyPath c) (ClientKeyPath parent),
              ClientCertPath = cmp_Or_string (ClientCertPath c) (ClientCertPath parent),
              RootCertPaths = (if length (RootCertPaths c) > 0 then RootCertPaths c else RootCertPaths parent),
              ServerNameOverride = cmp_Or_string (ServerNameOverride c) (ServerNameOverride parent)\<rparr>)"

definition tls_IsEnabled :: "tls_config option \<Rightarrow> bool" where
  "tls_IsEnabled c = (case c of None \<Rightarrow> False | Some c \<Rightarrow> (case tls_Enabled c of None \<Rightarrow> False | Some b \<Rightarrow> b))"

definition ResolveTLS :: "config \<Rightarrow> config" where
  "ResolveTLS c =
     (let c = c\<lparr>cfg_TLS := tls_Normalize (cfg_TLS c)\<rparr>;
          resolve = (\<lambda>t. Some (tls_Normalize (tls_InheritFrom t (Some (cfg_TLS c)))));
          c = c\<lparr>cfg_Orderer := (cfg_Orderer c)\<lparr>ep_TLS := resolve (ep_TLS (cfg_Orderer c))\<rparr>\<rparr>;
          c = c\<lparr>cfg_Queries := (cfg_Queries c)\<lparr>ep_TLS := resolve (ep_TLS (cfg_Queries c))\<rparr>\<rparr>
      in c\<lparr>cfg_Notifications := (cfg_Notifications c)\<lparr>ep_TLS := resolve (ep_TLS (cfg_Notifications c))\<rparr>\<rparr>)"

section \<open>The merge of TLS sections is a monoid\<close>

definition tls_merge :: "tls_config \<Rightarrow> tls_config \<Rightarrow> tls_config" where
  "tls_merge c parent = tls_InheritFrom (Some c) (Some parent)"

text \<open>
  The contract of settings that inherit: combining is associative, the empty section is neutral on
  both sides, and inheriting twice from the same parent changes nothing.
\<close>

locale inheritance =
  fixes merge :: "'c \<Rightarrow> 'c \<Rightarrow> 'c"
    and empty :: 'c
  assumes merge_assoc: "merge (merge a b) c = merge a (merge b c)"
    and merge_empty_left: "merge empty a = a"
    and merge_empty_right: "merge a empty = a"
    and merge_self: "merge a a = a"
begin

lemma merge_absorb: "merge (merge a b) b = merge a b"
  by (simp add: merge_assoc merge_self)

text \<open>A chain of sections, nearest first, collapses to the same settings however it is grouped.\<close>

lemma chain_append:
  "foldr merge (xs @ ys) empty = merge (foldr merge xs empty) (foldr merge ys empty)"
  by (induction xs) (simp_all add: merge_assoc merge_empty_left)

end

lemma cmp_Or_string_laws:
  "cmp_Or_string (cmp_Or_string a b) c = cmp_Or_string a (cmp_Or_string b c)"
  "cmp_Or_string [] a = a" "cmp_Or_string a [] = a" "cmp_Or_string a a = a"
  by (simp_all add: cmp_Or_string_def)

lemma cmp_Or_ptr_laws:
  "cmp_Or_ptr (cmp_Or_ptr a b) c = cmp_Or_ptr a (cmp_Or_ptr b c)"
  "cmp_Or_ptr None a = a" "cmp_Or_ptr a None = a" "cmp_Or_ptr a a = a"
  by (cases a; simp add: cmp_Or_ptr_def)+

lemma tls_merge_sel:
  "tls_Enabled (tls_merge a b) = cmp_Or_ptr (tls_Enabled a) (tls_Enabled b)"
  "ClientKeyPath (tls_merge a b) = cmp_Or_string (ClientKeyPath a) (ClientKeyPath b)"
  "ClientCertPath (tls_merge a b) = cmp_Or_string (ClientCertPath a) (ClientCertPath b)"
  "RootCertPaths (tls_merge a b) = (if RootCertPaths a \<noteq> [] then RootCertPaths a else RootCertPaths b)"
  "ServerNameOverride (tls_merge a b) = cmp_Or_string (ServerNameOverride a) (ServerNameOverride b)"
  by (simp_all add: tls_merge_def tls_InheritFrom_def)

interpretation tls: inheritance tls_merge empty_tls
proof unfold_locales
  fix a b c :: tls_config
  show "tls_merge (tls_merge a b) c = tls_merge a (tls_merge b c)"
    by (rule tls_config.equality) (simp_all add: tls_merge_sel cmp_Or_string_laws cmp_Or_ptr_laws)
  show "tls_merge empty_tls a = a"
    by (rule tls_config.equality)
       (simp_all add: tls_merge_sel cmp_Or_string_laws cmp_Or_ptr_laws empty_tls_def)
  show "tls_merge a empty_tls = a"
    by (rule tls_config.equality)
       (simp_all add: tls_merge_sel cmp_Or_string_laws cmp_Or_ptr_laws empty_tls_def)
  show "tls_merge a a = a"
    by (rule tls_config.equality) (simp_all add: tls_merge_sel cmp_Or_string_laws cmp_Or_ptr_laws)
qed

lemma tls_InheritFrom_merge:
  "tls_InheritFrom c (Some parent) = tls_merge (case c of None \<Rightarrow> empty_tls | Some c \<Rightarrow> c) parent"
  by (cases c) (simp_all add: tls_merge_def tls_InheritFrom_def)

lemma tls_Normalize_enabled: "tls_Enabled (tls_Normalize c) = Some (tls_IsEnabled (Some c))"
  by (simp add: tls_Normalize_def tls_IsEnabled_def split: option.split)

lemma tls_Normalize_id: "tls_Enabled c \<noteq> None \<Longrightarrow> tls_Normalize c = c"
  by (auto simp: tls_Normalize_def)

text \<open>With a normalised parent, the merged section is normalised already.\<close>

definition resolved_tls :: "tls_config option \<Rightarrow> tls_config \<Rightarrow> tls_config" where
  "resolved_tls c parent = tls_merge (case c of None \<Rightarrow> empty_tls | Some c \<Rightarrow> c) (tls_Normalize parent)"

lemma resolved_tls_normal:
  "tls_Normalize (tls_InheritFrom c (Some (tls_Normalize parent))) = resolved_tls c parent"
proof -
  have "tls_Enabled (resolved_tls c parent) \<noteq> None"
    using tls_Normalize_enabled [of parent]
    by (simp add: resolved_tls_def tls_merge_def tls_InheritFrom_def cmp_Or_ptr_def split: option.split)
  then show ?thesis by (simp add: tls_InheritFrom_merge resolved_tls_def [symmetric] tls_Normalize_id)
qed

lemma ResolveTLS_eq:
  "ResolveTLS c = c\<lparr>cfg_TLS := tls_Normalize (cfg_TLS c),
     cfg_Orderer := (cfg_Orderer c)\<lparr>ep_TLS := Some (resolved_tls (ep_TLS (cfg_Orderer c)) (cfg_TLS c))\<rparr>,
     cfg_Queries := (cfg_Queries c)\<lparr>ep_TLS := Some (resolved_tls (ep_TLS (cfg_Queries c)) (cfg_TLS c))\<rparr>,
     cfg_Notifications := (cfg_Notifications c)
       \<lparr>ep_TLS := Some (resolved_tls (ep_TLS (cfg_Notifications c)) (cfg_TLS c))\<rparr>\<rparr>"
  by (simp add: ResolveTLS_def Let_def resolved_tls_normal)

lemma resolved_again: "resolved_tls (Some (resolved_tls c p)) (tls_Normalize p) = resolved_tls c p"
proof -
  have "tls_Normalize (tls_Normalize p) = tls_Normalize p"
    by (rule tls_Normalize_id) (simp add: tls_Normalize_enabled)
  then show ?thesis by (simp add: resolved_tls_def tls.merge_absorb)
qed

section \<open>Properties\<close>

text \<open>
  What a service's resolved section must be: each setting is the service's own where it gave one
  and the parent's otherwise, and the enabled flag is set, to false if neither gave one.
\<close>

definition inherited :: "tls_config option \<Rightarrow> tls_config \<Rightarrow> tls_config option \<Rightarrow> bool" where
  "inherited own parent res \<longleftrightarrow>
     (let o' = (case own of None \<Rightarrow> empty_tls | Some o' \<Rightarrow> o');
          pick = (\<lambda>f. if f o' \<noteq> [] then f o' else f parent)
      in res = Some
           \<lparr>tls_Enabled = Some (case tls_Enabled o' of Some b \<Rightarrow> b
                | None \<Rightarrow> (case tls_Enabled parent of Some b \<Rightarrow> b | None \<Rightarrow> False)),
            ClientKeyPath = pick ClientKeyPath, ClientCertPath = pick ClientCertPath,
            RootCertPaths = (if RootCertPaths o' \<noteq> [] then RootCertPaths o' else RootCertPaths parent),
            ServerNameOverride = pick ServerNameOverride\<rparr>)"

lemma tls_Normalize_sel [simp]:
  "ClientKeyPath (tls_Normalize c) = ClientKeyPath c"
  "ClientCertPath (tls_Normalize c) = ClientCertPath c"
  "RootCertPaths (tls_Normalize c) = RootCertPaths c"
  "ServerNameOverride (tls_Normalize c) = ServerNameOverride c"
  by (simp_all add: tls_Normalize_def split: option.split)

lemma resolved_tls_inherited: "inherited own parent (Some (resolved_tls own parent))"
  unfolding inherited_def Let_def option.inject resolved_tls_def
  by (rule tls_config.equality)
     (simp_all add: tls_merge_sel cmp_Or_string_def cmp_Or_ptr_def tls_Normalize_enabled
        tls_IsEnabled_def split: option.split)

text \<open>
  C38: after \<open>ResolveTLS\<close> every service has a TLS section with its enabled flag set: to the service's
  own flag where it gave one, else to the parent's, else to false; each other setting is the
  service's where it gave a non-empty one and the parent's otherwise. Nothing but the TLS sections
  changes, and resolving again changes nothing at all.
\<close>

theorem resolve_tls:
  "inherited (ep_TLS (cfg_Orderer c)) (cfg_TLS c) (ep_TLS (cfg_Orderer (ResolveTLS c)))
   \<and> inherited (ep_TLS (cfg_Queries c)) (cfg_TLS c) (ep_TLS (cfg_Queries (ResolveTLS c)))
   \<and> inherited (ep_TLS (cfg_Notifications c)) (cfg_TLS c) (ep_TLS (cfg_Notifications (ResolveTLS c)))
   \<and> cfg_Logging (ResolveTLS c) = cfg_Logging c \<and> cfg_MSP (ResolveTLS c) = cfg_MSP c
   \<and> (cfg_Orderer (ResolveTLS c))\<lparr>ep_TLS := None\<rparr> = (cfg_Orderer c)\<lparr>ep_TLS := None\<rparr>
   \<and> (cfg_Queries (ResolveTLS c))\<lparr>ep_TLS := None\<rparr> = (cfg_Queries c)\<lparr>ep_TLS := None\<rparr>
   \<and> (cfg_Notifications (ResolveTLS c))\<lparr>ep_TLS := None\<rparr> = (cfg_Notifications c)\<lparr>ep_TLS := None\<rparr>
   \<and> ResolveTLS (ResolveTLS c) = ResolveTLS c"
proof -
  have twice: "tls_Normalize (tls_Normalize p) = tls_Normalize p" for p
    by (rule tls_Normalize_id) (simp add: tls_Normalize_enabled)
  show ?thesis
    by (simp add: ResolveTLS_eq resolved_tls_inherited resolved_again twice)
qed

end
