(* ===== verification/Config_Validate.thy ===== *)
theory Config_Validate
  imports Config Validation
begin

text \<open>
  \<open>tools/fxconfig/internal/config/validate.go\<close>: validation of the configuration sections, with
  \<open>net.SplitHostPort\<close> of the standard library written out. \<open>load_pair\<close> is \<open>tls.LoadX509KeyPair\<close>
  with its certificate dropped. The lemmas give the exact grammar of accepted endpoints and what a
  validated TLS section guarantees for any path checker that meets its contract.
\<close>

section \<open>Splitting an endpoint\<close>

text \<open>The index of the first and of the last occurrence of a byte that occurs.\<close>

definition first_index :: "char \<Rightarrow> string \<Rightarrow> nat" where
  "first_index d s = length (takeWhile (\<lambda>c. c \<noteq> d) s)"

definition last_index :: "char \<Rightarrow> string \<Rightarrow> nat" where
  "last_index d s = length s - 1 - length (takeWhile (\<lambda>c. c \<noteq> d) (rev s))"

definition addr_error :: "string \<Rightarrow> string \<Rightarrow> 'a result" where
  "addr_error addr why = Err (Error_New (''address '' @ addr @ '': '' @ why))"

text \<open>The tail of the function: \<open>i\<close> is the last colon, \<open>j\<close> and \<open>k\<close> where stray brackets are sought.\<close>

definition split_tail :: "string \<Rightarrow> string \<Rightarrow> nat \<Rightarrow> nat \<Rightarrow> nat \<Rightarrow> (string \<times> string) result" where
  "split_tail s host i j k =
     (if CHR ''['' \<in> set (drop j s) then addr_error s ''unexpected '[' in address''
      else if CHR '']'' \<in> set (drop k s) then addr_error s ''unexpected ']' in address''
      else Ok (host, drop (i + 1) s))"

definition net_SplitHostPort :: "string \<Rightarrow> (string \<times> string) result" where
  "net_SplitHostPort s =
     (if CHR '':'' \<notin> set s then addr_error s ''missing port in address''
      else let i = last_index (CHR '':'') s
      in if s ! 0 = CHR ''['' then
           (if CHR '']'' \<notin> set s then addr_error s ''missing ']' in address''
            else let e = first_index (CHR '']'') s
            in if e + 1 = length s then addr_error s ''missing port in address''
               else if e + 1 = i then split_tail s (drop 1 (take e s)) i 1 (e + 1)
               else if s ! (e + 1) = CHR '':'' then addr_error s ''too many colons in address''
               else addr_error s ''missing port in address'')
         else let host = take i s
           in if CHR '':'' \<in> set host then addr_error s ''too many colons in address''
              else split_tail s host i 0 0)"

section \<open>Validation\<close>

definition errorIfEmpty :: "string \<Rightarrow> string \<Rightarrow> unit result" where
  "errorIfEmpty s errMsg = (if strings_TrimSpace s = '''' then Err (Error_New errMsg) else Ok ())"

definition errorIfZeroDuration :: "int \<Rightarrow> string \<Rightarrow> unit result" where
  "errorIfZeroDuration d errMsg = (if d = 0 then Err (Error_New errMsg) else Ok ())"

definition validateEndpoint :: "string \<Rightarrow> unit result" where
  "validateEndpoint endpoint =
     (if endpoint = '''' then Err (Error_New ''must not be empty'')
      else res_bind (net_SplitHostPort endpoint) (\<lambda>(host, port).
        if host = '''' then Err (Error_New ''host is empty'')
        else if port = '''' then Err (Error_New ''port is empty'')
        else Ok ()))"

fun check_paths :: "string \<Rightarrow> (string \<Rightarrow> unit result) \<Rightarrow> string list \<Rightarrow> unit result" where
  "check_paths pfx exists [] = Ok ()"
| "check_paths pfx exists (p # ps) =
     res_bind (res_wrap pfx (exists p)) (\<lambda>_. check_paths pfx exists ps)"

type_synonym key_pair_loader = "string \<Rightarrow> string \<Rightarrow> unit result"

definition tls_Validate ::
    "key_pair_loader \<Rightarrow> tls_config option \<Rightarrow> validation_context \<Rightarrow> unit result" where
  "tls_Validate load_pair c vctx =
     (case c of
        None \<Rightarrow> Ok ()
      | Some t \<Rightarrow>
          if \<not> tls_IsEnabled c then Ok ()
          else if length (RootCertPaths t) = 0
          then Err (Error_New ''rootCertPaths must not be empty'')
          else res_bind (check_paths ''invalid rootCertPath: '' (FileChecker_Exists vctx) (RootCertPaths t)) (\<lambda>_.
            if ClientCertPath t = '''' \<and> ClientKeyPath t = '''' then Ok ()
            else res_bind (res_wrap ''invalid clientCertPath: '' (FileChecker_Exists vctx (ClientCertPath t))) (\<lambda>_.
              res_bind (res_wrap ''invalid clientKeyPath: '' (FileChecker_Exists vctx (ClientKeyPath t))) (\<lambda>_.
              res_wrap ''invalid cert/key pair: '' (load_pair (ClientCertPath t) (ClientKeyPath t))))))"

definition endpoint_Validate ::
    "key_pair_loader \<Rightarrow> 'a endpoint_config_scheme \<Rightarrow> validation_context \<Rightarrow> unit result" where
  "endpoint_Validate load_pair c vctx =
     res_bind (res_wrap ''invalid address: '' (validateEndpoint (Address c))) (\<lambda>_.
     res_bind (res_wrap ''invalid connection timeout: ''
        (errorIfZeroDuration (ConnectionTimeout c) ''must be non-zero'')) (\<lambda>_.
     res_wrap ''invalid tls configuration: '' (tls_Validate load_pair (ep_TLS c) vctx)))"

definition msp_Validate :: "msp_config \<Rightarrow> validation_context \<Rightarrow> unit result" where
  "msp_Validate c vctx =
     res_bind (res_wrap ''invalid localMspID: '' (errorIfEmpty (LocalMspID c) ''must not be empty'')) (\<lambda>_.
     res_wrap ''invalid configPath: '' (DirectoryChecker_Exists vctx (ConfigPath c)))"

definition orderer_Validate ::
    "key_pair_loader \<Rightarrow> orderer_config \<Rightarrow> validation_context \<Rightarrow> unit result" where
  "orderer_Validate load_pair c vctx =
     res_bind (res_wrap ''invalid channel: '' (errorIfEmpty (Channel c) ''empty'')) (\<lambda>_.
     endpoint_Validate load_pair c vctx)"

definition queries_Validate ::
    "key_pair_loader \<Rightarrow> queries_config \<Rightarrow> validation_context \<Rightarrow> unit result" where
  "queries_Validate load_pair c vctx =
     res_wrap ''invalid queries configuration (queries.address / FXCONFIG_QUERIES_ADDRESS): ''
       (endpoint_Validate load_pair c vctx)"

text \<open>\<open>NotificationsConfig\<close> has no method of its own: it promotes the embedded one.\<close>

definition notifications_Validate ::
    "key_pair_loader \<Rightarrow> notifications_config \<Rightarrow> validation_context \<Rightarrow> unit result" where
  "notifications_Validate load_pair c vctx = endpoint_Validate load_pair c vctx"

section \<open>The endpoint grammar\<close>

lemma last_index_append: "d \<notin> set p \<Longrightarrow> last_index d (h @ d # p) = length h"
  by (simp add: last_index_def takeWhile_append)

lemma last_index_split:
  assumes "d \<in> set s"
  obtains h p where "s = h @ d # p" "d \<notin> set p" "last_index d s = length h"
  using split_list_last [OF assms] last_index_append by metis

lemma first_index_split:
  assumes "d \<in> set s"
  obtains a b where "s = a @ d # b" "d \<notin> set a" "first_index d s = length a"
proof -
  obtain a b where "s = a @ d # b" "d \<notin> set a" using split_list_first [OF assms] by blast
  then show thesis using that by (auto simp: first_index_def takeWhile_append)
qed

definition no_brackets :: "string \<Rightarrow> bool" where
  "no_brackets s \<longleftrightarrow> CHR ''['' \<notin> set s \<and> CHR '']'' \<notin> set s"

lemma split_tail_Ok:
  "split_tail s host i j k = Ok (h, p) \<longleftrightarrow>
     CHR ''['' \<notin> set (drop j s) \<and> CHR '']'' \<notin> set (drop k s) \<and> h = host \<and> p = drop (i + 1) s"
  by (auto simp: split_tail_def addr_error_def)

lemma addr_error_not_Ok [simp]: "addr_error a w \<noteq> Ok x"
  by (simp add: addr_error_def)

lemma SplitHostPort_plain:
  assumes "CHR '':'' \<notin> set h" "CHR '':'' \<notin> set p" "no_brackets h" "no_brackets p"
  shows "net_SplitHostPort (h @ '':'' @ p) = Ok (h, p)"
proof -
  have i: "last_index (CHR '':'') (h @ '':'' @ p) = length h"
    using last_index_append [OF assms(2), of h] by simp
  have "(h @ '':'' @ p) ! 0 \<noteq> CHR ''[''"
    using assms(3) by (cases h) (auto simp: no_brackets_def)
  then show ?thesis
    using assms i by (simp add: net_SplitHostPort_def split_tail_def no_brackets_def Let_def)
qed

lemma SplitHostPort_bracketed:
  assumes "CHR '':'' \<notin> set p" "no_brackets h" "no_brackets p"
  shows "net_SplitHostPort (''['' @ h @ '']:'' @ p) = Ok (h, p)"
proof -
  let ?s = "''['' @ h @ '']:'' @ p"
  have i: "last_index (CHR '':'') ?s = length h + 2"
    using last_index_append [OF assms(1), of "''['' @ h @ '']''"] by simp
  have e: "first_index (CHR '']'') ?s = length h + 1"
    using assms(2) by (simp add: first_index_def takeWhile_append no_brackets_def)
  show ?thesis
    using assms i e by (auto simp: net_SplitHostPort_def split_tail_def no_brackets_def Let_def)
qed

lemma SplitHostPort_OkD:
  assumes "net_SplitHostPort s = Ok (h, p)"
  shows "CHR '':'' \<notin> set p \<and> no_brackets h \<and> no_brackets p \<and>
    (s = h @ '':'' @ p \<and> CHR '':'' \<notin> set h \<or> s = ''['' @ h @ '']:'' @ p)"
proof -
  have c: "CHR '':'' \<in> set s"
    using assms by (auto simp: net_SplitHostPort_def split: if_splits)
  then obtain a q where s: "s = a @ CHR '':'' # q" "CHR '':'' \<notin> set q"
    and i: "last_index (CHR '':'') s = length a" by (rule last_index_split)
  show ?thesis
  proof (cases "s ! 0 = CHR ''[''")
    case False
    then show ?thesis
      using assms c s i by (auto simp: net_SplitHostPort_def Let_def split_tail_Ok no_brackets_def split: if_splits)
  next
    case True
    then have b: "CHR '']'' \<in> set s"
      using assms c by (auto simp: net_SplitHostPort_def Let_def split: if_splits)
    then obtain u v where u: "s = u @ CHR '']'' # v" "CHR '']'' \<notin> set u"
      and e: "first_index (CHR '']'') s = length u" by (rule first_index_split)
    have ei: "length u + 1 = length a" and t: "split_tail s (drop 1 (take (length u) s)) (length a) 1 (length u + 1) = Ok (h, p)"
      using assms c b i e True by (auto simp: net_SplitHostPort_def Let_def split: if_splits)
    obtain u' where u': "u = CHR ''['' # u'" using True u(1) by (cases u) auto
    have "a = u @ '']''" using s(1) u(1) ei
      by (metis append_eq_append_conv append.assoc append_Cons append_Nil length_append_singleton Suc_eq_plus1)
    then have sh: "s = ''['' @ u' @ '']:'' @ q" using s(1) u' by simp
    have "h = u'" "p = q" "CHR ''['' \<notin> set (u' @ '']:'' @ q)" "CHR '']'' \<notin> set ('':'' @ q)"
      using t sh u' \<open>a = u @ '']''\<close> by (auto simp: split_tail_Ok)
    then show ?thesis using sh s(2) u(2) u' by (auto simp: no_brackets_def)
  qed
qed

section \<open>What a validated TLS section guarantees\<close>

lemma check_paths_Ok: "check_paths pfx exists ps = Ok () \<longleftrightarrow> (\<forall>p \<in> set ps. exists p = Ok ())"
  by (induction ps) (auto simp: res_simps)

lemma tls_Validate_Ok:
  "tls_Validate load_pair c vctx = Ok () \<longleftrightarrow>
     (tls_IsEnabled c \<longrightarrow> (\<exists>t. c = Some t \<and> RootCertPaths t \<noteq> [] \<and>
        (\<forall>p \<in> set (RootCertPaths t). FileChecker_Exists vctx p = Ok ()) \<and>
        (ClientCertPath t = [] \<and> ClientKeyPath t = [] \<or>
         FileChecker_Exists vctx (ClientCertPath t) = Ok () \<and>
         FileChecker_Exists vctx (ClientKeyPath t) = Ok () \<and>
         load_pair (ClientCertPath t) (ClientKeyPath t) = Ok ())))"
  by (cases c) (auto simp: tls_Validate_def tls_IsEnabled_def res_simps check_paths_Ok)

text \<open>All certificate and key paths of a TLS section.\<close>

definition tls_paths :: "tls_config \<Rightarrow> string list" where
  "tls_paths t = RootCertPaths t @ filter (\<lambda>p. p \<noteq> []) [ClientCertPath t, ClientKeyPath t]"

text \<open>
  Proved once for any path checker behind the \<open>FileChecker\<close> interface: an enabled section that
  validates has root certificates, has both client files or neither, and all its paths are
  accepted paths.
\<close>

context path_checker
begin

lemma validated_tls:
  assumes "tls_Validate load_pair (Some t) vctx = Ok ()" "tls_IsEnabled (Some t)"
    and "FileChecker_Exists vctx = exists"
  shows "RootCertPaths t \<noteq> []"
    and "ClientCertPath t = [] \<longleftrightarrow> ClientKeyPath t = []"
    and "\<forall>p \<in> set (tls_paths t). exists p = Ok ()"
    and "ClientCertPath t \<noteq> [] \<Longrightarrow> load_pair (ClientCertPath t) (ClientKeyPath t) = Ok ()"
  using assms accepted_nonempty by (auto simp: tls_Validate_Ok tls_paths_def)

end

section \<open>Properties\<close>

text \<open>
  C40: the endpoints that validation accepts are exactly \<open>host:port\<close>, with no colon in the host,
  and \<open>[host]:port\<close>, where host and port are not empty, neither contains a square bracket, and
  the port contains no colon. Validation never panics.
\<close>

theorem endpoint_grammar:
  "(validateEndpoint e = Ok () \<longleftrightarrow>
     (\<exists>h p. h \<noteq> [] \<and> p \<noteq> [] \<and> no_brackets h \<and> no_brackets p \<and> CHR '':'' \<notin> set p
       \<and> (e = h @ '':'' @ p \<and> CHR '':'' \<notin> set h \<or> e = ''['' @ h @ '']:'' @ p)))
   \<and> \<not> is_panic (validateEndpoint e)"
proof -
  have "validateEndpoint e = Ok () \<longleftrightarrow> (\<exists>h p. net_SplitHostPort e = Ok (h, p) \<and> h \<noteq> [] \<and> p \<noteq> [])"
    by (auto simp: validateEndpoint_def res_simps net_SplitHostPort_def split: if_splits)
  moreover have "(\<exists>h p. net_SplitHostPort e = Ok (h, p) \<and> h \<noteq> [] \<and> p \<noteq> []) \<longleftrightarrow>
     (\<exists>h p. h \<noteq> [] \<and> p \<noteq> [] \<and> no_brackets h \<and> no_brackets p \<and> CHR '':'' \<notin> set p
       \<and> (e = h @ '':'' @ p \<and> CHR '':'' \<notin> set h \<or> e = ''['' @ h @ '']:'' @ p))"
    using SplitHostPort_OkD SplitHostPort_plain SplitHostPort_bracketed by blast
  moreover have "\<not> is_panic (validateEndpoint e)"
    by (auto simp: validateEndpoint_def net_SplitHostPort_def split_tail_def addr_error_def Let_def
        split: if_splits prod.splits)
  ultimately show ?thesis by blast
qed

text \<open>
  C33: an orderer, query or notification section that validates against the operating system's
  checkers has a well-formed address, a non-zero connection timeout and, when TLS is enabled, at
  least one root certificate, a client certificate exactly when it has a client key, which load as a
  pair then, and only paths that stay below the root or the working directory and at which there is
  something that is not a directory (a device or a pipe passes as well as a regular file).
\<close>

theorem validated_endpoint:
  assumes "endpoint_Validate load_pair c (NewValidationContext L fs) = Ok ()"
  shows "validateEndpoint (Address c) = Ok () \<and> ConnectionTimeout c \<noteq> 0
    \<and> (case ep_TLS c of None \<Rightarrow> True | Some t \<Rightarrow>
         \<not> tls_IsEnabled (Some t) \<or>
           RootCertPaths t \<noteq> [] \<and> (ClientCertPath t = [] \<longleftrightarrow> ClientKeyPath t = [])
           \<and> (ClientCertPath t \<noteq> [] \<longrightarrow> load_pair (ClientCertPath t) (ClientKeyPath t) = Ok ())
           \<and> (\<forall>p \<in> set (tls_paths t). fs (filepath_Clean p) = Stat_Info False
               \<and> (\<exists>names. lex_resolve cwd p = (if path_rooted p then [] else cwd) @ names)))"
proof -
  from assms have ep: "validateEndpoint (Address c) = Ok ()" "ConnectionTimeout c \<noteq> 0"
    and tls: "tls_Validate load_pair (ep_TLS c) (NewValidationContext L fs) = Ok ()"
    by (auto simp: endpoint_Validate_def errorIfZeroDuration_def res_simps split: if_splits)
  show ?thesis
  proof (cases "ep_TLS c")
    case (Some t)
    show ?thesis
    proof (cases "tls_IsEnabled (Some t)")
      case True
      have tls': "tls_Validate load_pair (Some t) (NewValidationContext L fs) = Ok ()"
        using tls Some by simp
      note v = os_file.validated_tls [OF tls' True NewValidationContext_simps(2)]
      show ?thesis
        using ep v Some os_file.all_accepted(2,3) [OF v(3)] by (simp add: is_file_def)
    qed (use ep Some in simp)
  qed (use ep in simp)
qed

theorem validated_endpoint_witness:
  "endpoint_Validate (\<lambda>_ _. Ok ())
      \<lparr>Address = ''h:1'', ConnectionTimeout = 1,
       ep_TLS = Some (empty_tls\<lparr>tls_Enabled := Some True, RootCertPaths := [''ca.pem'']\<rparr>)\<rparr>
      (NewValidationContext sample_policy_api (\<lambda>_. Stat_Info False)) = Ok ()
   \<and> validateEndpoint ''h:1'' = Ok ()"
proof -
  let ?c = "\<lparr>Address = ''h:1'', ConnectionTimeout = 1,
       ep_TLS = Some (empty_tls\<lparr>tls_Enabled := Some True, RootCertPaths := [''ca.pem'']\<rparr>)\<rparr> :: endpoint_config"
  have p: "OSFileChecker_Exists (\<lambda>_. Stat_Info False) ''ca.pem'' = Ok ()" by code_simp
  have a: "validateEndpoint ''h:1'' = Ok ()" by code_simp
  have v: "endpoint_Validate (\<lambda>_ _. Ok ()) ?c
      (NewValidationContext sample_policy_api (\<lambda>_. Stat_Info False)) = Ok ()"
    using p a by (simp add: endpoint_Validate_def errorIfZeroDuration_def tls_Validate_def tls_IsEnabled_def empty_tls_def)
  show ?thesis using v validated_endpoint [OF v] by simp
qed

end
