(* ===== verification/Adapters.thy ===== *)
theory Adapters
  imports Config_Validate
begin

text \<open>
  The world of the running tool and the interfaces of \<open>tools/fxconfig/internal/adapters/api.go\<close>.
  Everything outside the process (dialling, gRPC calls, signing devices, random bytes) is an
  environment that answers each call as a function of the calls made before it; the world is the
  list of calls made so far. The answer functions are arbitrary, so a statement about all
  environments covers every behaviour of the services, and the trace records who was called, with
  what, and in which order. An interface value is a record of the operations of its methods.
\<close>

section \<open>Calls and answers\<close>

type_synonym conn = nat
type_synonym stream = nat
type_synonym channel = nat

record secure_options =
  sec_UseTLS :: bool
  sec_ServerNameOverride :: string
  sec_ServerRootCAs :: "bytes list"
  sec_RequireClientCert :: bool
  sec_Key :: bytes
  sec_Certificate :: bytes

record envelope =
  env_Payload :: bytes
  env_Signature :: bytes

record policy_item =
  pi_Namespace :: string
  pi_Version :: "64 word"
  pi_Policy :: bytes

datatype event =
    Ev_Dial string secure_options int
  | Ev_ConnClose conn
  | Ev_GetNamespacePolicies conn int
  | Ev_GetConfigTransaction conn int
  | Ev_OpenBroadcast conn
  | Ev_Send stream envelope
  | Ev_Recv stream
  | Ev_Listen conn
  | Ev_Subscribe conn string int
  | Ev_WaitForEvent conn channel int
  | Ev_Sign bytes
  | Ev_ReadRandom nat
  | Ev_Timestamp
  | Ev_Warn string

type_synonym trace = "event list"

text \<open>A call of the environment: its answer depends on the calls before it, and it is recorded.\<close>

definition ext_call :: "event \<Rightarrow> (trace \<Rightarrow> 'a result) \<Rightarrow> ('a, trace) io" where
  "ext_call ev answer = (\<lambda>tr. (answer tr, tr @ [ev]))"

lemma ext_call_apply [simp]: "ext_call ev answer tr = (answer tr, tr @ [ev])"
  by (simp add: ext_call_def)

text \<open>
  An operation only makes calls that satisfy a predicate, and never takes a call back. Operations
  built from calls with the combinators inherit this.
\<close>

definition emitted :: "(event \<Rightarrow> bool) \<Rightarrow> trace \<Rightarrow> trace \<Rightarrow> bool" where
  "emitted ok tr tr' \<longleftrightarrow> (\<exists>evs. tr' = tr @ evs \<and> list_all ok evs)"

interpretation emitting: effect "emitted ok" for ok
proof
  show "emitted ok w w" for w by (simp add: emitted_def)
  show "emitted ok u w" if uv: "emitted ok u v" and vw: "emitted ok v w" for u v w
  proof -
    obtain evs evs' where "v = u @ evs" "w = v @ evs'" "list_all ok (evs @ evs')"
      using uv vw unfolding emitted_def by auto
    then have "w = u @ (evs @ evs') \<and> list_all ok (evs @ evs')" by simp
    then show ?thesis unfolding emitted_def by blast
  qed
qed

abbreviation emits :: "(event \<Rightarrow> bool) \<Rightarrow> ('a, trace) io \<Rightarrow> bool" where
  "emits ok \<equiv> preserves (emitted ok)"

lemma emits_call: "ok ev \<Longrightarrow> emits ok (ext_call ev answer)"
  by (auto simp: preserves_def emitted_def)

lemmas emits_intros = emits_call emitting.preserves_intros

lemma emitsD:
  "emits ok m \<Longrightarrow> m tr = (r, tr') \<Longrightarrow> \<exists>evs. tr' = tr @ evs \<and> list_all ok evs"
  using preservesD [of "emitted ok" m tr r tr'] by (simp add: emitted_def)

lemma emits_mono: "emits ok m \<Longrightarrow> (\<And>e. ok e \<Longrightarrow> ok' e) \<Longrightarrow> emits ok' m"
  unfolding preserves_def emitted_def by (meson list.pred_mono_strong)

section \<open>The interfaces\<close>

record 'w orderer_client =
  oc_Broadcast :: "'w signing_identity option \<Rightarrow> string \<Rightarrow> tx option \<Rightarrow> (unit, 'w) io"
  oc_Close :: "(unit, 'w) io"

record 'w query_client =
  qc_GetNamespacePolicies :: "(policy_item list, 'w) io"
  qc_GetConfigVersion :: "(64 word, 'w) io"
  qc_Close :: "(unit, 'w) io"

record 'w notification_client =
  nc_Subscribe :: "string \<Rightarrow> (channel, 'w) io"
  nc_WaitForEvent :: "channel \<Rightarrow> (int, 'w) io"
  nc_Close :: "(unit, 'w) io"

end
