(* ===== verification/Provider.thy ===== *)
theory Provider
  imports Validation
begin

text \<open>
  \<open>tools/fxconfig/internal/provider/provider.go\<close>: a service instance that is validated and built on
  the first \<open>Get\<close> only. \<open>sync.Once\<close> is the flag \<open>pv_once\<close>: it is set even when the function it runs
  panics, after which \<open>Get\<close> returns the zero instance with a nil error. A nil instance is \<open>None\<close>.
\<close>

record ('t, 'k, 'w) provider =
  pv_once :: bool
  pv_factory :: "'k \<Rightarrow> ('t, 'w) io"
  pv_instance :: "'t option"
  pv_err :: "go_error option"
  pv_cfg :: 'k
  pv_cfg_Validate :: "'k \<Rightarrow> validation_context \<Rightarrow> unit result"
  pv_validationContext :: validation_context

definition provider_New ::
    "('k \<Rightarrow> ('t, 'w) io) \<Rightarrow> 'k \<Rightarrow> ('k \<Rightarrow> validation_context \<Rightarrow> unit result) \<Rightarrow> validation_context
      \<Rightarrow> ('t, 'k, 'w) provider" where
  "provider_New factory cfg validate vctx =
     \<lparr>pv_once = False, pv_factory = factory, pv_instance = None, pv_err = None, pv_cfg = cfg,
      pv_cfg_Validate = validate, pv_validationContext = vctx\<rparr>"

definition provider_Validate :: "('t, 'k, 'w) provider \<Rightarrow> unit result" where
  "provider_Validate p = pv_cfg_Validate p (pv_cfg p) (pv_validationContext p)"

text \<open>What \<open>return p.instance, p.err\<close> yields.\<close>

definition provider_cached :: "('t, 'k, 'w) provider \<Rightarrow> 't option result" where
  "provider_cached p = (case pv_err p of Some e \<Rightarrow> Err e | None \<Rightarrow> Ok (pv_instance p))"

definition provider_Get ::
    "('t, 'k, 'w) provider \<Rightarrow> 'w \<Rightarrow> 't option result \<times> ('t, 'k, 'w) provider \<times> 'w" where
  "provider_Get p w =
     (if pv_once p then (provider_cached p, p, w)
      else
        (let p = p\<lparr>pv_once := True\<rparr>
         in case provider_Validate p of
              Err e \<Rightarrow> (let p = p\<lparr>pv_err := Some e\<rparr> in (provider_cached p, p, w))
            | Panic q \<Rightarrow> (Panic q, p, w)
            | Ok _ \<Rightarrow>
                (case pv_factory p (pv_cfg p) w of
                   (Ok t, w') \<Rightarrow>
                     (let p = p\<lparr>pv_instance := Some t, pv_err := None\<rparr> in (provider_cached p, p, w'))
                 | (Err e, w') \<Rightarrow>
                     (let p = p\<lparr>pv_instance := None, pv_err := Some e\<rparr> in (provider_cached p, p, w'))
                 | (Panic q, w') \<Rightarrow> (Panic q, p, w'))))"

section \<open>The contract of a lazily initialised value\<close>

text \<open>The results of \<open>n\<close> calls of a \<open>Get\<close>, with what they leave behind.\<close>

primrec get_again ::
    "('p \<Rightarrow> 'w \<Rightarrow> 'a result \<times> 'p \<times> 'w) \<Rightarrow> nat \<Rightarrow> 'p \<Rightarrow> 'w \<Rightarrow> 'a result list \<times> 'p \<times> 'w" where
  "get_again get 0 p w = ([], p, w)"
| "get_again get (Suc n) p w =
     (case get p w of (r, p', w') \<Rightarrow>
        case get_again get n p' w' of (rs, q, v) \<Rightarrow> (r # rs, q, v))"

text \<open>
  After the first \<open>get\<close> the value is ready; getting a ready value returns what is cached and has no
  effect; a first get that does not panic caches what it returns.
\<close>

locale lazy_value =
  fixes get :: "'p \<Rightarrow> 'w \<Rightarrow> 'a result \<times> 'p \<times> 'w"
    and ready :: "'p \<Rightarrow> bool"
    and cached :: "'p \<Rightarrow> 'a result"
  assumes get_ready: "ready p \<Longrightarrow> get p w = (cached p, p, w)"
    and ready_after: "get p w = (r, p', w') \<Longrightarrow> ready p'"
    and cached_after: "get p w = (r, p', w') \<Longrightarrow> \<not> is_panic r \<Longrightarrow> cached p' = r"
begin

lemma get_again_ready: "ready p \<Longrightarrow> get_again get n p w = (replicate n (cached p), p, w)"
  by (induction n) (simp_all add: get_ready)

lemma get_again_stable:
  assumes "get p w = (r, p', w')" "\<not> is_panic r"
  shows "get_again get n p' w' = (replicate n r, p', w')"
  using get_again_ready [OF ready_after [OF assms(1)]] cached_after [OF assms] by simp

end

interpretation provider: lazy_value provider_Get pv_once provider_cached
  by unfold_locales
     (auto simp: provider_Get_def Let_def provider_cached_def split: if_splits result.splits prod.splits)

lemma provider_Get_cfg:
  "provider_Get p w = (r, p', w') \<Longrightarrow>
     pv_cfg p' = pv_cfg p \<and> pv_factory p' = pv_factory p \<and>
     pv_cfg_Validate p' = pv_cfg_Validate p \<and> pv_validationContext p' = pv_validationContext p"
  by (auto simp: provider_Get_def Let_def split: if_splits result.splits prod.splits)

section \<open>Properties\<close>

text \<open>
  C37: a fresh provider runs its factory at most once. The first \<open>Get\<close> runs it, on the provider's
  configuration, exactly when the configuration validates, and returns the validation error with
  no effect otherwise; every later \<open>Get\<close>, however many, returns the same instance or the same
  error and has no effect, unless the first one panicked, after which they return the nil instance
  without an error.
\<close>

theorem provider_single_initialisation:
  assumes "provider_Get (provider_New factory cfg validate vctx) w = (r, p', w')"
  shows "(case validate cfg vctx of
        Ok _ \<Rightarrow> (\<exists>fr. factory cfg w = (fr, w') \<and> r = res_map Some fr)
      | Err e \<Rightarrow> r = Err e \<and> w' = w
      | Panic q \<Rightarrow> r = Panic q \<and> w' = w)
    \<and> get_again provider_Get n p' w' = (replicate n (if is_panic r then Ok None else r), p', w')"
proof -
  have first: "case validate cfg vctx of
        Ok _ \<Rightarrow> (\<exists>fr. factory cfg w = (fr, w') \<and> r = res_map Some fr)
      | Err e \<Rightarrow> r = Err e \<and> w' = w
      | Panic q \<Rightarrow> r = Panic q \<and> w' = w"
    using assms by (auto simp: provider_Get_def provider_New_def provider_Validate_def
        provider_cached_def Let_def split: result.splits prod.splits)
  have "provider_cached p' = Ok None" if "is_panic r"
    using that assms by (auto simp: provider_Get_def provider_New_def provider_Validate_def
        provider_cached_def Let_def split: result.splits prod.splits)
  with first show ?thesis
    using provider.get_again_ready [OF provider.ready_after [OF assms]]
      provider.get_again_stable [OF assms] by simp
qed

text \<open>
  A factory that counts its runs: one run for four calls; and a factory that panics leaves a nil
  instance without an error behind.
\<close>

definition sample_vctx :: validation_context where
  "sample_vctx = \<lparr>PolicyChecker_Check = (\<lambda>p. Ok ()), FileChecker_Exists = (\<lambda>p. Ok ()),
      DirectoryChecker_Exists = (\<lambda>p. Ok ())\<rparr>"

theorem provider_single_initialisation_witness:
  "get_again provider_Get 4
     (provider_New (\<lambda>k n. (Ok k, Suc n)) ''cfg'' (\<lambda>k c. Ok ()) sample_vctx) (0 :: nat)
     = (replicate 4 (Ok (Some ''cfg'')),
        (provider_New (\<lambda>k n. (Ok k, Suc n)) ''cfg'' (\<lambda>k c. Ok ()) sample_vctx)
          \<lparr>pv_once := True, pv_instance := Some ''cfg''\<rparr>, 1)"
proof -
  let ?p = "provider_New (\<lambda>k n. (Ok k, Suc n)) ''cfg'' (\<lambda>k c. Ok ()) sample_vctx"
  have "provider_Get ?p (0 :: nat) = (Ok (Some ''cfg''), ?p\<lparr>pv_once := True, pv_instance := Some ''cfg''\<rparr>, 1)"
    by (simp add: provider_Get_def provider_New_def provider_Validate_def provider_cached_def)
  from this provider_single_initialisation [OF this, of 3] show ?thesis
    by (simp add: numeral_eq_Suc)
qed

end
