(* ===== verification/Tx_Create.thy ===== *)
theory Tx_Create
  imports Messages
begin

text \<open>
  \<open>tools/fxconfig/internal/transaction/version.go\<close> and \<open>namespace.go\<close>, and the transaction
  identifiers of \<open>endorse.go\<close>: the version check, the transaction that writes a namespace policy
  into the meta-namespace, and the random nonce that a transaction identifier hashes. Go's \<open>int\<close> is
  an \<^typ>\<open>int\<close> (its 64-bit range is a hypothesis where it matters), \<open>uint64\<close> a \<^typ>\<open>64 word\<close>.
\<close>

definition ValidateVersion :: "int \<Rightarrow> unit result" where
  "ValidateVersion v =
     (if v < -1 then Err (Error_New ''invalid version: must be -1 (create) or >= 0 (update)'')
      else Ok ())"

text \<open>
  \<open>meta\<close> is \<open>committerpb.MetaNamespaceID\<close>. \<open>MarshalOrPanic\<close> of the policy is the one call that
  may panic.
\<close>

definition CreateNamespacesTx ::
    "proto_api \<Rightarrow> string \<Rightarrow> namespace_policy \<Rightarrow> string \<Rightarrow> int \<Rightarrow> 64 word \<Rightarrow> tx result" where
  "CreateNamespacesTx P meta nsPolicy nsID nsVersion metaNsVersion =
     res_bind (or_panic (policy_Marshal P nsPolicy)) (\<lambda>policyBytes.
       let rw = \<lparr>rw_key = nsID, rw_value = policyBytes, rw_version = None\<rparr>;
           rw' = (if nsVersion \<ge> 0 then rw\<lparr>rw_version := Some (word_of_int nsVersion)\<rparr> else rw)
       in Ok \<lparr>namespaces =
                [\<lparr>ns_id = meta, ns_version = metaNsVersion, read_writes = [rw'], ns_rest = []\<rparr>],
              endorsements = []\<rparr>)"

text \<open>
  A source of random bytes (\<open>io.Reader\<close>): asked for a number of bytes it returns how many it read,
  an error or nil, and the buffer.
\<close>

type_synonym 'w reader = "nat \<Rightarrow> 'w \<Rightarrow> (nat \<times> go_error option \<times> bytes) \<times> 'w"

definition nonce_size :: nat where
  "nonce_size = 24"

definition readNonce :: "'w reader \<Rightarrow> (bytes, 'w) io" where
  "readNonce src = (\<lambda>w. case src nonce_size w of
     ((n, err, buf), w') \<Rightarrow>
       (case err of
          Some e \<Rightarrow> (Panic ''error while creating nonce'', w')
        | None \<Rightarrow> if n \<noteq> nonce_size then (Panic ''cannot read enough bytes for nonce'', w')
                  else (Ok buf, w')))"

definition GenerateTxID :: "(bytes \<Rightarrow> bytes) \<Rightarrow> 'w reader \<Rightarrow> (string, 'w) io" where
  "GenerateTxID sha256 src =
     io_bind (readNonce src) (\<lambda>nonce. io_return (hex_encode (sha256 nonce)))"

text \<open>
  C29: a namespace transaction writes one key, the namespace's name, in the meta-namespace, at the
  channel config version it was given; the value is the serialised policy. The write carries a
  version exactly for an update, and then the version given, unchanged by the conversion to an
  unsigned 64-bit integer; a create carries none. The versions that pass \<open>ValidateVersion\<close> are exactly
  those of creates and updates, -1 and the numbers that are not negative; any other is an error.
\<close>

theorem create_namespaces_tx:
  assumes "CreateNamespacesTx P meta pol nsID v metaVersion = Ok t" "v < 2 ^ 63"
  shows "(ValidateVersion v = Ok () \<longleftrightarrow> v = -1 \<or> 0 \<le> v) \<and> \<not> is_panic (ValidateVersion v)
    \<and> (\<exists>rw. namespaces t = [\<lparr>ns_id = meta, ns_version = metaVersion, read_writes = [rw], ns_rest = []\<rparr>]
        \<and> endorsements t = [] \<and> rw_key rw = nsID \<and> policy_Marshal P pol = Ok (rw_value rw)
        \<and> (case rw_version rw of None \<Rightarrow> v < 0 | Some u \<Rightarrow> 0 \<le> v \<and> uint u = v))"
proof -
  have "uint (word_of_int v :: 64 word) = v" if "0 \<le> v"
    using that assms(2) by (simp add: uint_word_of_int)
  then show ?thesis
    using assms by (auto simp: CreateNamespacesTx_def ValidateVersion_def Let_def res_simps split: if_splits)
qed

theorem create_namespaces_tx_witness:
  "\<exists>t. CreateNamespacesTx sample_proto ''_meta'' (Msp_Rule ''p'') ''ns'' 7 3 = Ok t \<and> ValidateVersion 7 = Ok ()
     \<and> (\<exists>rw. namespaces t = [\<lparr>ns_id = ''_meta'', ns_version = 3, read_writes = [rw], ns_rest = []\<rparr>])"
proof -
  obtain t where t: "CreateNamespacesTx sample_proto ''_meta'' (Msp_Rule ''p'') ''ns'' 7 3 = Ok t"
    by (simp add: CreateNamespacesTx_def sample_proto_def Let_def)
  then show ?thesis using create_namespaces_tx [OF t] by auto
qed

text \<open>
  A generated transaction identifier is the hexadecimal text of the hash of the nonce: 64
  lower-case hexadecimal digits for a 32-byte hash, from which the hash can be read back; it is
  produced from exactly 24 bytes of the random source, and a source that fails or reads short
  makes the call panic, never return an identifier.
\<close>

theorem generate_tx_id:
  assumes "\<And>b. length (sha256 b) = 32"
  shows "GenerateTxID sha256 src w = (r, w') \<Longrightarrow>
    (case r of
       Ok txID \<Rightarrow> (\<exists>nonce. src 24 w = ((24, None, nonce), w') \<and> hex_decode txID = sha256 nonce)
         \<and> length txID = 64 \<and> (\<forall>c \<in> set txID. \<exists>n < 16. c = hex_digit n)
     | Err e \<Rightarrow> False
     | Panic p \<Rightarrow> (\<exists>n e buf. src 24 w = ((n, e, buf), w') \<and> (e \<noteq> None \<or> n \<noteq> 24)))"
  using assms
  by (auto simp: GenerateTxID_def readNonce_def nonce_size_def io_bind_def io_return_def
      split: prod.splits option.splits if_splits) (metis hex_encode_digits)

theorem generate_tx_id_witness:
  "GenerateTxID (\<lambda>b. replicate 32 (hd b)) (\<lambda>n w. ((n, None, replicate n (CHR ''a'')), w)) (0::nat)
     = (Ok (hex_encode (replicate 32 (CHR ''a''))), 0)
   \<and> length (hex_encode (replicate 32 (CHR ''a''))) = 64"
proof -
  have g: "GenerateTxID (\<lambda>b. replicate 32 (hd b)) (\<lambda>n w. ((n, None, replicate n (CHR ''a'')), w)) (0::nat)
     = (Ok (hex_encode (replicate 32 (CHR ''a''))), 0)"
    by (simp add: GenerateTxID_def readNonce_def nonce_size_def io_bind_def)
  have "length (replicate 32 (hd b)) = 32" for b :: bytes by simp
  then show ?thesis using generate_tx_id [OF _ g] g by simp
qed

end
