(* ===== verification/Tx_Merge.thy ===== *)
theory Tx_Merge
  imports Messages
begin

text \<open>
  \<open>tools/fxconfig/internal/transaction/merge.go\<close>: combining the endorsements that several
  organisations put on copies of one transaction. The definitions follow the file: validation of
  the inputs, the collection loop with one set of seen MSP identifiers per namespace, the sort,
  and \<open>Merge\<close> itself. The lemmas give the functional result (the sorted list of the first
  endorsement of every MSP), the error and panic conditions, and independence of the input order.
\<close>

section \<open>Validation\<close>

text \<open>
  The inner loop over the base transaction's namespaces; \<open>i\<close> is the transaction's index, \<open>k\<close> the
  namespace's. The last equation is the out-of-range read of \<open>txs[i].GetNamespaces()[nsIdx]\<close>.
\<close>

fun check_namespaces ::
    "proto_api \<Rightarrow> nat \<Rightarrow> nat \<Rightarrow> tx_namespace list \<Rightarrow> tx_namespace list \<Rightarrow> unit result" where
  "check_namespaces P i k [] ns = Ok ()"
| "check_namespaces P i k (b # bs) (n # ns) =
     (if \<not> proto_Equal P b n
      then Err (Error_New (''transaction '' @ dec_of_nat i @ '': namespace '' @ dec_of_nat k
                 @ '' content mismatch''))
      else check_namespaces P i (Suc k) bs ns)"
| "check_namespaces P i k (b # bs) [] = Panic ''index out of range''"

fun check_endorsed :: "nat \<Rightarrow> nat \<Rightarrow> endorsement_list option list \<Rightarrow> unit result" where
  "check_endorsed i k [] = Ok ()"
| "check_endorsed i k (ns # nss) =
     (if length (GetEndorsementsWithIdentity ns) = 0
      then Err (Error_New (''transaction '' @ dec_of_nat i @ '': namespace '' @ dec_of_nat k
                 @ '' requires at least one endorsement''))
      else check_endorsed i (Suc k) nss)"

fun validate_from :: "proto_api \<Rightarrow> tx option \<Rightarrow> nat \<Rightarrow> tx option list \<Rightarrow> unit result" where
  "validate_from P base i [] = Ok ()"
| "validate_from P base i (t # ts) =
     (if length (tx_GetNamespaces t) \<noteq> length (tx_GetNamespaces base)
      then Err (Error_New (''transaction '' @ dec_of_nat i @ '': namespace count mismatch''))
      else res_bind (check_namespaces P i 0 (tx_GetNamespaces base) (tx_GetNamespaces t))
        (\<lambda>_. res_bind (check_endorsed i 0 (tx_GetEndorsements t))
        (\<lambda>_. validate_from P base (Suc i) ts)))"

definition validateTransactionsForMerge :: "proto_api \<Rightarrow> tx option list \<Rightarrow> unit result" where
  "validateTransactionsForMerge P txs =
     (case txs of [] \<Rightarrow> Panic ''index out of range'' | base # _ \<Rightarrow> validate_from P base 0 txs)"

section \<open>Collecting the endorsements\<close>

text \<open>The loop state: the lists under construction and the MSP identifiers seen, per namespace.\<close>

type_synonym merge_state = "endorsement_list list \<times> string set list"

fun merge_ewis :: "nat \<Rightarrow> endorsement_list \<Rightarrow> merge_state \<Rightarrow> merge_state result" where
  "merge_ewis k [] st = Ok st"
| "merge_ewis k (e # es) (merged, seen) =
     (if k \<ge> length seen then Panic ''index out of range''
      else if ewi_GetMspId e \<in> seen ! k then merge_ewis k es (merged, seen)
      else merge_ewis k es
             (merged[k := merged ! k @ [e]], seen[k := insert (ewi_GetMspId e) (seen ! k)]))"

fun merge_namespaces :: "nat \<Rightarrow> endorsement_list option list \<Rightarrow> merge_state \<Rightarrow> merge_state result" where
  "merge_namespaces k [] st = Ok st"
| "merge_namespaces k (ns # nss) st =
     res_bind (merge_ewis k (GetEndorsementsWithIdentity ns) st) (merge_namespaces (Suc k) nss)"

fun merge_transactions :: "tx option list \<Rightarrow> merge_state \<Rightarrow> merge_state result" where
  "merge_transactions [] st = Ok st"
| "merge_transactions (t # ts) st =
     res_bind (merge_namespaces 0 (tx_GetEndorsements t) st) (merge_transactions ts)"

definition mergeEndorsements :: "tx option list \<Rightarrow> endorsement_list list result" where
  "mergeEndorsements txs =
     (case txs of
        [] \<Rightarrow> Panic ''index out of range''
      | base # _ \<Rightarrow>
          (let n = length (tx_GetNamespaces base)
           in res_map fst (merge_transactions txs (replicate n [], replicate n {}))))"

section \<open>Sorting and merging\<close>

text \<open>
  \<open>sort.Slice\<close> with a comparison that dereferences \<open>Identity\<close>: with two or more elements every
  element is compared, so an absent identity panics. Equal keys do not occur (the lists come from
  the collection loop), so the stable sort stands for any sort: lemma \<open>any_sort_agrees\<close>.
\<close>

definition sort_by_MspID :: "endorsement_list \<Rightarrow> endorsement_list result" where
  "sort_by_MspID es =
     (if 2 \<le> length es \<and> (\<exists>e \<in> set es. ewi_identity e = None)
      then Panic ''nil pointer dereference''
      else Ok (sort_key ewi_GetMspId es))"

definition sortEndorsementsByMspID :: "tx \<Rightarrow> tx result" where
  "sortEndorsementsByMspID merged =
     res_map (\<lambda>es. merged\<lparr>endorsements := map Some es\<rparr>)
       (res_mapM (\<lambda>e. sort_by_MspID (GetEndorsementsWithIdentity e)) (endorsements merged))"

definition Merge :: "proto_api \<Rightarrow> tx option list \<Rightarrow> tx result" where
  "Merge P txs =
     (if length txs < 2
      then Err (Error_New ''at least two transactions required for merge'')
      else res_bind (validateTransactionsForMerge P txs) (\<lambda>_.
        case proto_CloneOf P (hd txs) of
          None \<Rightarrow> Err (Error_New ''failed to clone base transaction'')
        | Some merged \<Rightarrow>
            res_bind (mergeEndorsements txs) (\<lambda>es.
              sortEndorsementsByMspID (merged\<lparr>endorsements := map Some es\<rparr>))))"

section \<open>What the inputs of a merge must satisfy\<close>

text \<open>All endorsements the inputs carry for namespace \<open>k\<close>, in the order the loop reads them.\<close>

definition endorsement_column :: "nat \<Rightarrow> tx option list \<Rightarrow> endorsement_list" where
  "endorsement_column k txs =
     concat (map (\<lambda>t. if k < length (tx_GetEndorsements t)
                      then GetEndorsementsWithIdentity (tx_GetEndorsements t ! k) else []) txs)"

definition every_entry_endorsed :: "tx option \<Rightarrow> bool" where
  "every_entry_endorsed t \<longleftrightarrow>
     (\<forall>e \<in> set (tx_GetEndorsements t). GetEndorsementsWithIdentity e \<noteq> [])"

lemma check_namespaces_eq:
  assumes "proto_laws P" "length bs = length ns"
  shows "check_namespaces P i k bs ns = Ok () \<longleftrightarrow> bs = ns"
    and "\<not> is_panic (check_namespaces P i k bs ns)"
  using assms by (induction P i k bs ns rule: check_namespaces.induct) (auto simp: equal_iff)

lemma check_endorsed_eq:
  "check_endorsed i k es = Ok () \<longleftrightarrow> (\<forall>e \<in> set es. GetEndorsementsWithIdentity e \<noteq> [])"
  "\<not> is_panic (check_endorsed i k es)"
  by (induction i k es rule: check_endorsed.induct) auto

lemma validate_from_eq:
  assumes "proto_laws P"
  shows "validate_from P base i ts = Ok () \<longleftrightarrow>
    (\<forall>t \<in> set ts. tx_GetNamespaces t = tx_GetNamespaces base \<and> every_entry_endorsed t)"
proof (induction ts arbitrary: i)
  case (Cons t ts)
  show ?case
  proof (cases "length (tx_GetNamespaces t) = length (tx_GetNamespaces base)")
    case True
    note check = check_namespaces_eq(1) [OF assms True [symmetric]]
    show ?thesis using True
      by (simp add: res_bind_Ok_iff check check_endorsed_eq Cons.IH every_entry_endorsed_def) metis
  qed auto
qed simp

lemma validate_from_no_panic:
  assumes "proto_laws P"
  shows "\<not> is_panic (validate_from P base i ts)"
proof (induction ts arbitrary: i)
  case (Cons t ts)
  then show ?case
    using check_namespaces_eq(2) [OF assms] check_endorsed_eq(2)
    by (auto simp: is_panic_iff res_bind_Panic_iff)
qed simp

lemma validate_eq:
  assumes "proto_laws P" "txs \<noteq> []"
  shows "validateTransactionsForMerge P txs = Ok () \<longleftrightarrow>
    (\<forall>t \<in> set txs. tx_GetNamespaces t = tx_GetNamespaces (hd txs) \<and> every_entry_endorsed t)"
  using assms validate_from_eq [OF assms(1)]
  by (cases txs) (auto simp: validateTransactionsForMerge_def simp del: validate_from.simps)

section \<open>The collection loop\<close>

text \<open>
  The loop state that corresponds to having read the columns \<open>c\<close>: per namespace, the first
  endorsement of every MSP, and the MSP identifiers read.
\<close>

definition state_of :: "nat \<Rightarrow> (nat \<Rightarrow> endorsement_list) \<Rightarrow> merge_state" where
  "state_of n c =
     (map (\<lambda>k. dedup_by ewi_GetMspId {} (c k)) [0..<n], map (\<lambda>k. ewi_GetMspId ` set (c k)) [0..<n])"

lemma state_of_cong: "(\<And>k. k < n \<Longrightarrow> c k = d k) \<Longrightarrow> state_of n c = state_of n d"
  by (auto simp: state_of_def)

lemma map_upt_update:
  "k < n \<Longrightarrow> (map f [0..<n])[k := v] = map (f(k := v)) [0..<n]"
  by (rule nth_equalityI) (auto simp: nth_list_update)

lemma dedup_snoc:
  "dedup_by key {} (xs @ [e]) =
     (if key e \<in> key ` set xs then dedup_by key {} xs else dedup_by key {} xs @ [e])"
  by (simp add: dedup_by_append)

lemma state_of_snoc:
  assumes "k < n"
  shows "state_of n (c(k := c k @ [e])) =
    (if ewi_GetMspId e \<in> ewi_GetMspId ` set (c k) then state_of n c
     else ((fst (state_of n c))[k := fst (state_of n c) ! k @ [e]],
           (snd (state_of n c))[k := insert (ewi_GetMspId e) (snd (state_of n c) ! k)]))"
  using assms
  by (auto simp: state_of_def map_upt_update dedup_snoc intro!: map_cong)

lemma merge_ewis_eq:
  "merge_ewis k es (state_of n c) =
     (if k < n \<or> es = [] then Ok (state_of n (c(k := c k @ es))) else Panic ''index out of range'')"
proof (induction es arbitrary: c)
  case (Cons e es)
  show ?case
  proof (cases "k < n")
    case True
    have len: "length (snd (state_of n c)) = n" "snd (state_of n c) ! k = ewi_GetMspId ` set (c k)"
      using True by (simp_all add: state_of_def)
    have "merge_ewis k (e # es) (state_of n c) = merge_ewis k es (state_of n (c(k := c k @ [e])))"
      using True len by (cases "state_of n c") (simp add: state_of_snoc)
    then show ?thesis using True Cons [of "c(k := c k @ [e])"] by simp
  qed (simp add: state_of_def)
qed simp

definition add_entries ::
    "nat \<Rightarrow> endorsement_list option list \<Rightarrow> (nat \<Rightarrow> endorsement_list) \<Rightarrow> nat \<Rightarrow> endorsement_list" where
  "add_entries k nss c =
     (\<lambda>j. c j @ (if k \<le> j \<and> j - k < length nss then GetEndorsementsWithIdentity (nss ! (j - k)) else []))"

lemma merge_namespaces_eq:
  "merge_namespaces k nss (state_of n c) =
     (if \<forall>j < length nss. n \<le> k + j \<longrightarrow> GetEndorsementsWithIdentity (nss ! j) = []
      then Ok (state_of n (add_entries k nss c)) else Panic ''index out of range'')"
proof (induction nss arbitrary: k c)
  case Nil
  then show ?case by (simp add: add_entries_def)
next
  case (Cons ns nss)
  let ?es = "GetEndorsementsWithIdentity ns"
  have all: "(\<forall>j < length (ns # nss). n \<le> k + j \<longrightarrow> GetEndorsementsWithIdentity ((ns # nss) ! j) = [])
      \<longleftrightarrow> (k < n \<or> ?es = []) \<and>
        (\<forall>j < length nss. n \<le> Suc k + j \<longrightarrow> GetEndorsementsWithIdentity (nss ! j) = [])"
    by (auto simp: All_less_Suc2)
  have add: "add_entries (Suc k) nss (c(k := c k @ ?es)) = add_entries k (ns # nss) c"
    by (rule ext) (auto simp: add_entries_def nth_Cons')
  show ?case
    by (simp only: all merge_namespaces.simps merge_ewis_eq)
       (simp add: Cons.IH add split: if_split)
qed

definition fits :: "nat \<Rightarrow> tx option \<Rightarrow> bool" where
  "fits n t \<longleftrightarrow> (\<forall>j < length (tx_GetEndorsements t).
     n \<le> j \<longrightarrow> GetEndorsementsWithIdentity (tx_GetEndorsements t ! j) = [])"

lemma merge_transactions_eq:
  "merge_transactions ts (state_of n c) =
     (if \<forall>t \<in> set ts. fits n t
      then Ok (state_of n (\<lambda>k. c k @ endorsement_column k ts)) else Panic ''index out of range'')"
proof (induction ts arbitrary: c)
  case Nil
  then show ?case by (simp add: endorsement_column_def)
next
  case (Cons t ts)
  show ?case
  proof (cases "fits n t")
    case True
    then have "merge_namespaces 0 (tx_GetEndorsements t) (state_of n c)
        = Ok (state_of n (add_entries 0 (tx_GetEndorsements t) c))"
      by (simp add: merge_namespaces_eq fits_def)
    moreover have "(\<lambda>k. add_entries 0 (tx_GetEndorsements t) c k @ endorsement_column k ts)
        = (\<lambda>k. c k @ endorsement_column k (t # ts))"
      by (rule ext) (simp add: add_entries_def endorsement_column_def)
    ultimately show ?thesis using True by (simp add: Cons.IH)
  next
    case False
    then have "merge_namespaces 0 (tx_GetEndorsements t) (state_of n c) = Panic ''index out of range''"
      by (auto simp: merge_namespaces_eq fits_def)
    then show ?thesis using False by simp
  qed
qed

lemma mergeEndorsements_eq:
  assumes "txs \<noteq> []" "n = length (tx_GetNamespaces (hd txs))"
  shows "mergeEndorsements txs =
    (if \<forall>t \<in> set txs. fits n t
     then Ok (map (\<lambda>k. dedup_by ewi_GetMspId {} (endorsement_column k txs)) [0..<n])
     else Panic ''index out of range'')"
proof -
  have init: "(replicate n [], replicate n {}) = state_of n (\<lambda>_. [])"
    by (auto simp: state_of_def map_replicate_const)
  obtain t ts where txs: "txs = t # ts" using assms(1) by (cases txs) auto
  have "mergeEndorsements txs = res_map fst (merge_transactions txs (state_of n (\<lambda>_. [])))"
    using assms(2) init
    by (simp add: mergeEndorsements_def txs Let_def del: merge_transactions.simps)
  then show ?thesis unfolding merge_transactions_eq by (simp add: state_of_def)
qed

section \<open>The result of a merge\<close>

definition merged_column :: "nat \<Rightarrow> tx option list \<Rightarrow> endorsement_list" where
  "merged_column k txs =
     sort_key ewi_GetMspId (dedup_by ewi_GetMspId {} (endorsement_column k txs))"

definition sort_panics :: "endorsement_list \<Rightarrow> bool" where
  "sort_panics es \<longleftrightarrow> 2 \<le> length es \<and> (\<exists>e \<in> set es. ewi_identity e = None)"

lemma sort_all_eq:
  "res_mapM (\<lambda>e. sort_by_MspID (GetEndorsementsWithIdentity e)) (map Some xs) =
     (if \<exists>x \<in> set xs. sort_panics x then Panic ''nil pointer dereference''
      else Ok (map (sort_key ewi_GetMspId) xs))"
  by (induction xs) (simp_all add: sort_by_MspID_def sort_panics_def)

text \<open>The inputs that pass validation, and the two ways in which valid inputs make the code panic.\<close>

definition merge_inputs_valid :: "tx option list \<Rightarrow> bool" where
  "merge_inputs_valid txs \<longleftrightarrow>
     2 \<le> length txs \<and> hd txs \<noteq> None \<and>
     (\<forall>t \<in> set txs. tx_GetNamespaces t = tx_GetNamespaces (hd txs) \<and> every_entry_endorsed t)"

definition merge_overflows :: "tx option list \<Rightarrow> bool" where
  "merge_overflows txs \<longleftrightarrow>
     (\<exists>t \<in> set txs. length (tx_GetNamespaces t) < length (tx_GetEndorsements t))"

definition merge_misses_identity :: "tx option list \<Rightarrow> bool" where
  "merge_misses_identity txs \<longleftrightarrow>
     (\<exists>k < length (tx_GetNamespaces (hd txs)).
        sort_panics (dedup_by ewi_GetMspId {} (endorsement_column k txs)))"

lemma fits_iff:
  assumes "every_entry_endorsed t"
  shows "fits n t \<longleftrightarrow> length (tx_GetEndorsements t) \<le> n"
proof
  assume "fits n t"
  then show "length (tx_GetEndorsements t) \<le> n"
    using assms unfolding fits_def every_entry_endorsed_def by (meson le_refl not_le nth_mem)
qed (simp add: fits_def)

lemma Merge_valid:
  assumes "proto_laws P" "merge_inputs_valid txs" "hd txs = Some t0"
  shows "Merge P txs =
    (if merge_overflows txs then Panic ''index out of range''
     else if merge_misses_identity txs then Panic ''nil pointer dereference''
     else Ok (t0\<lparr>endorsements :=
            map (\<lambda>k. Some (merged_column k txs)) [0..<length (namespaces t0)]\<rparr>))"
proof -
  let ?n = "length (namespaces t0)"
  let ?cols = "map (\<lambda>k. dedup_by ewi_GetMspId {} (endorsement_column k txs)) [0..<?n]"
  have ne: "txs \<noteq> []" "\<not> length txs < 2" using assms(2) by (auto simp: merge_inputs_valid_def)
  obtain t0' where cl: "proto_CloneOf P (hd txs) = Some t0'" "namespaces t0' = namespaces t0"
    using clone_not_None [OF assms(1)] clone_namespaces [OF assms(1)] assms(3) by fastforce
  have valid: "validateTransactionsForMerge P txs = Ok ()"
    using validate_eq [OF assms(1) ne(1)] assms(2) by (simp add: merge_inputs_valid_def)
  have fit: "(\<forall>t \<in> set txs. fits ?n t) \<longleftrightarrow> \<not> merge_overflows txs"
    using assms(2,3) by (auto simp: merge_inputs_valid_def merge_overflows_def fits_iff not_less)
  have coll: "mergeEndorsements txs = (if merge_overflows txs then Panic ''index out of range'' else Ok ?cols)"
    using mergeEndorsements_eq [OF ne(1), of ?n] assms(3) fit by auto
  have bad: "(\<exists>x \<in> set ?cols. sort_panics x) \<longleftrightarrow> merge_misses_identity txs"
    using assms(3) by (auto simp: merge_misses_identity_def)
  have sorts: "map (sort_key ewi_GetMspId) ?cols = map (\<lambda>k. merged_column k txs) [0..<?n]"
    by (simp add: merged_column_def)
  show ?thesis
    using ne(2) valid cl coll
    by (simp add: Merge_def sortEndorsementsByMspID_def sort_all_eq bad sorts comp_def
        del: map_map set_map) (cases t0; cases t0'; simp add: comp_def)
qed

lemma Merge_invalid:
  assumes "proto_laws P" "\<not> merge_inputs_valid txs"
  shows "\<exists>e. Merge P txs = Err e"
proof (cases "length txs < 2")
  case False
  then have ne: "txs \<noteq> []" by auto
  have np: "\<not> is_panic (validateTransactionsForMerge P txs)"
    using validate_from_no_panic [OF assms(1)] ne
    by (cases txs) (auto simp: validateTransactionsForMerge_def simp del: validate_from.simps)
  show ?thesis
  proof (cases "validateTransactionsForMerge P txs")
    case (Ok u)
    then have "hd txs = None"
      using validate_eq [OF assms(1) ne] assms(2) False by (auto simp: merge_inputs_valid_def)
    then show ?thesis using Ok False assms(1) by (simp add: Merge_def clone_None)
  qed (use False np in \<open>auto simp: Merge_def\<close>)
qed (simp add: Merge_def)

text \<open>With distinct keys every sorting permutation of a column is the one the model computes.\<close>

lemma any_sort_agrees:
  assumes "mset ys = mset (dedup_by ewi_GetMspId {} (endorsement_column k txs))"
    and "sorted (map ewi_GetMspId ys)"
  shows "ys = merged_column k txs"
proof -
  have "distinct (map ewi_GetMspId (merged_column k txs))"
    by (metis distinct_dedup_by merged_column_def distinct_map distinct_sort set_sort)
  then show ?thesis
    using assms by (metis merged_column_def mset_sort sorted_key_unique sorted_sort_key)
qed

lemma merged_column_facts:
  "sorted (map ewi_GetMspId (merged_column k txs))"
  "distinct (map ewi_GetMspId (merged_column k txs))"
  "find (\<lambda>e. ewi_GetMspId e = c) (merged_column k txs)
     = find (\<lambda>e. ewi_GetMspId e = c) (endorsement_column k txs)"
proof -
  show "sorted (map ewi_GetMspId (merged_column k txs))" by (simp add: merged_column_def)
  show "distinct (map ewi_GetMspId (merged_column k txs))"
    by (metis distinct_dedup_by merged_column_def distinct_map distinct_sort set_sort)
  show "find (\<lambda>e. ewi_GetMspId e = c) (merged_column k txs)
     = find (\<lambda>e. ewi_GetMspId e = c) (endorsement_column k txs)"
    by (simp add: merged_column_def find_sort_key distinct_dedup_by find_dedup_by)
qed

lemma Merge_OkD:
  assumes "proto_laws P" "Merge P txs = Ok m"
  obtains t0 where "hd txs = Some t0" "merge_inputs_valid txs" "\<not> merge_overflows txs"
    "\<not> merge_misses_identity txs"
    "m = t0\<lparr>endorsements := map (\<lambda>k. Some (merged_column k txs)) [0..<length (namespaces t0)]\<rparr>"
proof -
  have v: "merge_inputs_valid txs"
    using Merge_invalid [OF assms(1), of txs] assms(2) by fastforce
  then obtain t0 where t0: "hd txs = Some t0" by (auto simp: merge_inputs_valid_def)
  show thesis
    using that [OF t0 v] Merge_valid [OF assms(1) v t0] assms(2) by (auto split: if_splits)
qed

section \<open>Concrete inputs\<close>

definition sample_ewi :: "string \<Rightarrow> endorsement_with_identity" where
  "sample_ewi org =
     \<lparr>ewi_endorsement = ''sig-'' @ org, ewi_identity = Some \<lparr>msp_id = org, id_rest = []\<rparr>\<rparr>"

definition sample_ns :: "string \<Rightarrow> tx_namespace" where
  "sample_ns name = \<lparr>ns_id = name, ns_version = 0, read_writes = [], ns_rest = []\<rparr>"

definition sample_tx :: "string list \<Rightarrow> string list list \<Rightarrow> tx" where
  "sample_tx names orgs =
     \<lparr>namespaces = map sample_ns names, endorsements = map (\<lambda>os. Some (map sample_ewi os)) orgs\<rparr>"

lemmas sample_defs = sample_tx_def sample_ns_def sample_ewi_def sample_proto_def

lemmas merge_eval = Merge_def validateTransactionsForMerge_def mergeEndorsements_def
  sortEndorsementsByMspID_def sort_by_MspID_def ewi_GetMspId_def Let_def sort_key_def sample_defs

section \<open>Properties\<close>

text \<open>
  C3: a merge that succeeds returns the base transaction's namespaces, which every input has, with
  one endorsement list per namespace; each list is sorted by MSP identifier, holds no MSP twice,
  and holds for every MSP the first endorsement of that MSP among the inputs, in input order (and
  none for an MSP that endorsed nowhere).
\<close>

theorem merge_combines:
  assumes "proto_laws P" "Merge P txs = Ok m"
  shows "(\<forall>t \<in> set txs. tx_GetNamespaces t = namespaces m)
    \<and> length (endorsements m) = length (namespaces m)
    \<and> (\<forall>k < length (namespaces m). \<exists>es. endorsements m ! k = Some es
        \<and> sorted (map ewi_GetMspId es) \<and> distinct (map ewi_GetMspId es)
        \<and> (\<forall>c. find (\<lambda>e. ewi_GetMspId e = c) es
               = find (\<lambda>e. ewi_GetMspId e = c) (endorsement_column k txs)))"
  using assms
proof (rule Merge_OkD)
  fix t0
  assume "hd txs = Some t0" "merge_inputs_valid txs"
    "m = t0\<lparr>endorsements := map (\<lambda>k. Some (merged_column k txs)) [0..<length (namespaces t0)]\<rparr>"
  then show ?thesis by (simp add: merge_inputs_valid_def merged_column_facts)
qed

theorem merge_combines_witness:
  "Merge sample_proto [Some (sample_tx [''ns''] [[''B'', ''A'']]), Some (sample_tx [''ns''] [[''C'', ''A'']])]
     = Ok (sample_tx [''ns''] [[''A'', ''B'', ''C'']])
   \<and> length (endorsements (sample_tx [''ns''] [[''A'', ''B'', ''C'']]))
     = length (namespaces (sample_tx [''ns''] [[''A'', ''B'', ''C'']]))"
proof -
  have m: "Merge sample_proto
      [Some (sample_tx [''ns''] [[''B'', ''A'']]), Some (sample_tx [''ns''] [[''C'', ''A'']])]
     = Ok (sample_tx [''ns''] [[''A'', ''B'', ''C'']])"
    by (simp add: merge_eval)
  show ?thesis using m merge_combines [OF sample_proto_laws m] by blast
qed

text \<open>
  C20: the outcome of a merge on every input. It panics exactly when the inputs are valid but some
  transaction carries more endorsement entries than namespaces, or some namespace collects two or
  more endorsements one of which has no identity; it succeeds exactly on the other valid inputs; on
  invalid inputs it returns an error.
\<close>

theorem merge_outcome:
  assumes "proto_laws P"
  shows "(is_panic (Merge P txs) \<longleftrightarrow>
      merge_inputs_valid txs \<and> (merge_overflows txs \<or> merge_misses_identity txs))
    \<and> (is_ok (Merge P txs) \<longleftrightarrow>
      merge_inputs_valid txs \<and> \<not> merge_overflows txs \<and> \<not> merge_misses_identity txs)"
proof (cases "merge_inputs_valid txs")
  case True
  then obtain t0 where "hd txs = Some t0" by (auto simp: merge_inputs_valid_def)
  with True show ?thesis by (simp add: Merge_valid [OF assms True])
next
  case False
  then show ?thesis using Merge_invalid [OF assms False] by auto
qed

theorem merge_outcome_witness:
  "is_panic (Merge sample_proto
      [Some (sample_tx [''ns''] [[''A''], [''A'']]), Some (sample_tx [''ns''] [[''B'']])])"
  using merge_outcome [OF sample_proto_laws,
      of "[Some (sample_tx [''ns''] [[''A''], [''A'']]), Some (sample_tx [''ns''] [[''B'']])]"]
  by (simp add: merge_inputs_valid_def merge_overflows_def every_entry_endorsed_def sample_tx_def)

text \<open>
  C27: when no MSP endorsed a namespace twice, the result of a merge does not depend on the order
  in which the transactions are given: every reordering of non-nil inputs that merge successfully
  gives the same endorsements, and the same namespaces.
\<close>

theorem merge_order_independent:
  assumes "proto_laws P" "Merge P txs = Ok m" "mset txs' = mset txs" "None \<notin> set txs"
    and "\<And>k. distinct (map ewi_GetMspId (endorsement_column k txs))"
  shows "Merge P txs' = Ok m"
proof -
  obtain t0 where t0: "hd txs = Some t0" and v: "merge_inputs_valid txs"
    and nf: "\<not> merge_overflows txs" "\<not> merge_misses_identity txs"
    and m: "m = t0\<lparr>endorsements := map (\<lambda>k. Some (merged_column k txs)) [0..<length (namespaces t0)]\<rparr>"
    using assms(1,2) by (rule Merge_OkD)
  have set': "set txs' = set txs" and len: "length txs' = length txs"
    using assms(3) by (metis set_mset_mset, metis size_mset)
  have ne: "txs' \<noteq> []" using v len by (auto simp: merge_inputs_valid_def)
  have "hd txs' \<in> set txs" using ne set' by (metis list.set_sel(1))
  moreover from this have "hd txs' \<noteq> None" using assms(4) by metis
  ultimately obtain t1 where t1: "hd txs' = Some t1" "Some t1 \<in> set txs" by auto
  then have ns: "namespaces t1 = namespaces t0"
    using v t0 unfolding merge_inputs_valid_def by (metis getters_simps(2))
  have col: "mset (endorsement_column k txs') = mset (endorsement_column k txs)" for k
    unfolding endorsement_column_def using assms(3)
    by (simp only: mset_concat_map)
  have d': "distinct (map ewi_GetMspId (endorsement_column k txs'))" for k
    using assms(5) [of k] col [of k] mset_eq_imp_distinct_iff
    by (metis (no_types) mset_map)
  have id: "dedup_by ewi_GetMspId {} (endorsement_column k txs) = endorsement_column k txs"
    "dedup_by ewi_GetMspId {} (endorsement_column k txs') = endorsement_column k txs'" for k
    using assms(5) [of k] d' [of k] by (simp_all add: dedup_by_id)
  have cols: "merged_column k txs' = merged_column k txs" for k
    by (rule any_sort_agrees) (simp_all add: id col merged_column_def)
  have v': "merge_inputs_valid txs'"
    using v t0 t1 ns len set' by (simp add: merge_inputs_valid_def)
  have nf': "\<not> merge_overflows txs'" "\<not> merge_misses_identity txs'"
    using nf t0 t1 ns set' id
      mset_eq_setD [OF col] mset_eq_length [OF col]
    by (simp_all add: merge_overflows_def merge_misses_identity_def sort_panics_def)
  show ?thesis
    using Merge_valid [OF assms(1) v' t1(1)] nf' ns by (cases t0; cases t1) (simp add: m cols)
qed

theorem merge_order_independent_witness:
  "Merge sample_proto [Some (sample_tx [''ns''] [[''A'']]), Some (sample_tx [''ns''] [[''B'']])]
     = Ok (sample_tx [''ns''] [[''A'', ''B'']])
   \<and> Merge sample_proto [Some (sample_tx [''ns''] [[''B'']]), Some (sample_tx [''ns''] [[''A'']])]
     = Ok (sample_tx [''ns''] [[''A'', ''B'']])"
proof -
  let ?a = "Some (sample_tx [''ns''] [[''A'']])" and ?b = "Some (sample_tx [''ns''] [[''B'']])"
  have m: "Merge sample_proto [?a, ?b] = Ok (sample_tx [''ns''] [[''A'', ''B'']])"
    by (simp add: merge_eval)
  have d: "distinct (map ewi_GetMspId (endorsement_column k [?a, ?b]))" for k
    by (cases k) (simp_all add: endorsement_column_def sample_defs ewi_GetMspId_def)
  have "mset [?b, ?a] = mset [?a, ?b]" and n: "None \<notin> set [?a, ?b]" by simp_all
  then show ?thesis using merge_order_independent [OF sample_proto_laws m _ n d] m by blast
qed

text \<open>
  Merging is absorbing. Merging the result of a merge again with any of its inputs gives the
  same transaction: no endorsement is added, lost or replaced by one of a later input.
\<close>

theorem merge_absorbs_inputs:
  assumes "proto_laws P" "Merge P txs = Ok m" "t \<in> set txs"
    and "\<And>k. k < length (namespaces m) \<Longrightarrow> endorsement_column k txs \<noteq> []"
    and "\<And>k e. e \<in> set (endorsement_column k txs) \<Longrightarrow> ewi_identity e \<noteq> None"
  shows "Merge P [Some m, t] = Ok m"
proof -
  obtain t0 where t0: "hd txs = Some t0" and v: "merge_inputs_valid txs"
    and nf: "\<not> merge_overflows txs"
    and m: "m = t0\<lparr>endorsements := map (\<lambda>k. Some (merged_column k txs)) [0..<length (namespaces t0)]\<rparr>"
    using assms(1,2) by (rule Merge_OkD)
  have keys: "ewi_GetMspId ` set (merged_column k txs) = ewi_GetMspId ` set (endorsement_column k txs)" for k
    by (simp add: merged_column_def dedup_by_keys)
  have sub: "set (merged_column k txs) \<subseteq> set (endorsement_column k txs)" for k
    by (simp add: merged_column_def set_dedup_by)
  have tcol: "endorsement_column k [t] \<noteq> [] \<Longrightarrow>
      set (endorsement_column k [t]) \<subseteq> set (endorsement_column k txs)" for k
    using assms(3) by (auto simp: endorsement_column_def)
  have dd: "dedup_by ewi_GetMspId {} (endorsement_column k [Some m, t]) = merged_column k txs"
    if "k < length (namespaces t0)" for k
  proof -
    have "endorsement_column k [Some m, t] = merged_column k txs @ endorsement_column k [t]"
      using that by (simp add: endorsement_column_def m)
    moreover have "dedup_by ewi_GetMspId (ewi_GetMspId ` set (merged_column k txs)) (endorsement_column k [t]) = []"
      using keys [of k] tcol [of k] dedup_by_keys [of ewi_GetMspId _ "endorsement_column k [t]"]
      by (metis Diff_eq_empty_iff dedup_by.simps(1) image_is_empty image_mono set_empty)
    ultimately show ?thesis
      by (simp add: dedup_by_append dedup_by_id merged_column_facts(2))
  qed
  have mc: "merged_column k [Some m, t] = merged_column k txs" if "k < length (namespaces t0)" for k
    using any_sort_agrees [OF _ merged_column_facts(1) [of k txs]] dd [OF that] by metis
  have "merged_column k txs \<noteq> []" if "k < length (namespaces t0)" for k
    using assms(4) [of k] keys [of k] that m by auto
  then have v2: "merge_inputs_valid [Some m, t]"
    using v t0 assms(3) by (auto simp: merge_inputs_valid_def every_entry_endorsed_def m)
  have "\<not> merge_overflows [Some m, t]"
    using nf assms(3) by (auto simp: merge_overflows_def m)
  moreover have "\<not> merge_misses_identity [Some m, t]"
    using dd sub assms(5) by (auto simp: merge_misses_identity_def sort_panics_def m) blast
  ultimately show ?thesis
    using Merge_valid [OF assms(1) v2, of m] mc by (simp add: m)
qed

theorem merge_absorbs_inputs_witness:
  "Merge sample_proto [Some (sample_tx [''ns''] [[''A'', ''B'']]), Some (sample_tx [''ns''] [[''B'']])]
     = Ok (sample_tx [''ns''] [[''A'', ''B'']])"
proof -
  let ?a = "Some (sample_tx [''ns''] [[''A'']])" and ?b = "Some (sample_tx [''ns''] [[''B'']])"
  have m: "Merge sample_proto [?a, ?b] = Ok (sample_tx [''ns''] [[''A'', ''B'']])"
    by (simp add: merge_eval)
  have "?b \<in> set [?a, ?b]" by simp
  then show ?thesis
    by (rule merge_absorbs_inputs [OF sample_proto_laws m])
       (auto simp: endorsement_column_def sample_defs nth_Cons split: nat.splits if_splits)
qed

end
