(* ===== verification/Tx_Endorse.thy ===== *)
theory Tx_Endorse
  imports Tx_Merge
begin

text \<open>
  \<open>Endorse\<close> and \<open>identity\<close> of \<open>tools/fxconfig/internal/transaction/endorse.go\<close>: signing every
  namespace of a clone of the transaction and appending the signature, with the signer's identity,
  to the namespace's endorsements. Signing is an operation on the world (a signature may be
  randomised), so two calls of the signer need not give the same signature.
\<close>

definition signer_identity :: "proto_api \<Rightarrow> 'w signing_identity \<Rightarrow> identity result" where
  "signer_identity P signer = res_bind (si_Serialize signer) (identity_Unmarshal P)"

text \<open>
  The loop over the namespaces from index \<open>k\<close>. \<open>es\<close> is \<open>tx.Endorsements\<close>; it is read at \<open>k\<close> only
  after the signature is made, and that read panics when the slice is too short. A nil entry
  becomes an empty set before the append.
\<close>

fun endorse_from ::
    "proto_api \<Rightarrow> 'w signing_identity \<Rightarrow> string \<Rightarrow> identity \<Rightarrow> nat \<Rightarrow> tx_namespace list
      \<Rightarrow> endorsement_list option list \<Rightarrow> (endorsement_list option list, 'w) io" where
  "endorse_from P signer txID sid k [] es = io_return es"
| "endorse_from P signer txID sid k (ns # nss) es =
     io_bind (io_wrap ''failed asn1 marshal tx: '' (io_lift (ns_ASN1Marshal P ns txID))) (\<lambda>msg.
     io_bind (io_wrap ''failed signing tx: '' (si_Sign signer msg)) (\<lambda>sig.
       let eid = \<lparr>ewi_endorsement = sig, ewi_identity = Some sid\<rparr>
       in if k \<ge> length es then io_lift (Panic ''index out of range'')
          else endorse_from P signer txID sid (Suc k) nss
                 (es[k := Some (GetEndorsementsWithIdentity (es ! k) @ [eid])])))"

definition Endorse ::
    "proto_api \<Rightarrow> 'w signing_identity \<Rightarrow> string \<Rightarrow> tx option \<Rightarrow> (tx, 'w) io" where
  "Endorse P signer txID t =
     (case t of
        None \<Rightarrow> io_fail (Error_New ''nil transaction'')
      | Some _ \<Rightarrow>
          (case proto_CloneOf P t of
             None \<Rightarrow> io_lift (Panic ''nil pointer dereference'')
           | Some c \<Rightarrow>
               (let es = (if endorsements c = [] then replicate (length (namespaces c)) None
                          else endorsements c)
                in io_bind (io_lift (signer_identity P signer)) (\<lambda>sid.
                   io_bind (endorse_from P signer txID sid 0 (namespaces c) es) (\<lambda>es'.
                     io_return (c\<lparr>endorsements := es'\<rparr>))))))"

section \<open>What the loop does\<close>

text \<open>\<open>sig\<close> is a signature the signer gave, in some world, over the namespace and the identifier.\<close>

definition signature_on :: "proto_api \<Rightarrow> 'w signing_identity \<Rightarrow> string \<Rightarrow> tx_namespace \<Rightarrow> bytes \<Rightarrow> bool" where
  "signature_on P signer txID ns sig \<longleftrightarrow>
     (\<exists>msg w1 w2. ns_ASN1Marshal P ns txID = Ok msg \<and> si_Sign signer msg w1 = (Ok sig, w2))"

definition endorsed_with ::
    "proto_api \<Rightarrow> 'w signing_identity \<Rightarrow> string \<Rightarrow> identity \<Rightarrow> tx_namespace
      \<Rightarrow> endorsement_list option \<Rightarrow> endorsement_list option \<Rightarrow> bool" where
  "endorsed_with P signer txID sid ns old new \<longleftrightarrow>
     (\<exists>sig. signature_on P signer txID ns sig \<and>
        new = Some (GetEndorsementsWithIdentity old @ [\<lparr>ewi_endorsement = sig, ewi_identity = Some sid\<rparr>]))"

lemma endorse_from_Ok:
  assumes "endorse_from P signer txID sid k nss es w = (Ok es', w')"
  shows "length es' = length es \<and> (nss \<noteq> [] \<longrightarrow> k + length nss \<le> length es)
    \<and> (\<forall>j < length nss. endorsed_with P signer txID sid (nss ! j) (es ! (k + j)) (es' ! (k + j)))
    \<and> (\<forall>j < length es. j < k \<or> k + length nss \<le> j \<longrightarrow> es' ! j = es ! j)"
  using assms
proof (induction nss arbitrary: k es w)
  case (Cons ns nss)
  from Cons.prems obtain msg sig w1 where
    msg: "ns_ASN1Marshal P ns txID = Ok msg" "si_Sign signer msg w = (Ok sig, w1)" and k: "k < length es"
    and rest: "endorse_from P signer txID sid (Suc k) nss
      (es[k := Some (GetEndorsementsWithIdentity (es ! k) @ [\<lparr>ewi_endorsement = sig, ewi_identity = Some sid\<rparr>])]) w1
      = (Ok es', w')"
    by (auto simp: io_defs Let_def res_simps split: prod.splits result.splits if_splits)
  have s: "signature_on P signer txID ns sig" using msg by (auto simp: signature_on_def)
  show ?case
    using Cons.IH [OF rest] k s
    by (cases "nss = []") (auto simp: All_less_Suc2 nth_list_update endorsed_with_def)
qed simp

text \<open>A signer that is always able to sign, and namespaces that marshal.\<close>

definition signer_ready :: "proto_api \<Rightarrow> 'w signing_identity \<Rightarrow> string \<Rightarrow> tx_namespace list \<Rightarrow> bool" where
  "signer_ready P signer txID nss \<longleftrightarrow>
     is_ok (signer_identity P signer) \<and>
     (\<forall>ns \<in> set nss. \<exists>msg. ns_ASN1Marshal P ns txID = Ok msg) \<and>
     (\<forall>msg w. \<exists>sig w'. si_Sign signer msg w = (Ok sig, w'))"

lemma endorse_from_outcome:
  assumes "\<forall>ns \<in> set nss. \<exists>msg. ns_ASN1Marshal P ns txID = Ok msg"
    and "\<forall>msg w. \<exists>sig w'. si_Sign signer msg w = (Ok sig, w')"
  shows "\<exists>r w'. endorse_from P signer txID sid k nss es w = (r, w') \<and>
    (if nss = [] \<or> k + length nss \<le> length es then is_ok r else r = Panic ''index out of range'')"
  using assms(1)
proof (induction nss arbitrary: k es w)
  case (Cons ns nss)
  obtain msg where m: "ns_ASN1Marshal P ns txID = Ok msg" using Cons.prems by auto
  obtain sig w1 where s: "si_Sign signer msg w = (Ok sig, w1)" using assms(2) by blast
  let ?es = "es[k := Some (GetEndorsementsWithIdentity (es ! k) @ [\<lparr>ewi_endorsement = sig, ewi_identity = Some sid\<rparr>])]"
  show ?case
    using Cons.IH [of "Suc k" ?es w1] Cons.prems m s
    by (cases "k < length es") (auto simp: io_defs Let_def split: if_splits)
qed simp

definition endorsement_slots :: "tx \<Rightarrow> endorsement_list option list" where
  "endorsement_slots t =
     (if endorsements t = [] then replicate (length (namespaces t)) None else endorsements t)"

lemma Endorse_unfold:
  assumes "proto_laws P" "None \<notin> set (endorsements t)"
  shows "Endorse P signer txID (Some t) =
    io_bind (io_lift (signer_identity P signer)) (\<lambda>sid.
      io_bind (endorse_from P signer txID sid 0 (namespaces t) (endorsement_slots t)) (\<lambda>es.
        io_return (t\<lparr>endorsements := es\<rparr>)))"
  by (simp add: Endorse_def clone_Some [OF assms] endorsement_slots_def Let_def)

section \<open>Properties\<close>

text \<open>
  C7: endorsing keeps the namespaces and appends, to the endorsements of every namespace, exactly
  one endorsement: the signer's identity with a signature the signer gave over that namespace and
  the transaction identifier. Endorsements that were there stay, in order, and so do entries
  beyond the namespaces.
\<close>

theorem endorse_appends_signature:
  assumes "proto_laws P" "None \<notin> set (endorsements t)"
    and "Endorse P signer txID (Some t) w = (Ok t', w')"
  shows "\<exists>sid. signer_identity P signer = Ok sid
    \<and> namespaces t' = namespaces t
    \<and> length (endorsements t') = length (endorsement_slots t)
    \<and> (\<forall>k < length (namespaces t).
        endorsed_with P signer txID sid (namespaces t ! k) (endorsement_slots t ! k) (endorsements t' ! k))
    \<and> (\<forall>k < length (endorsements t'). length (namespaces t) \<le> k \<longrightarrow>
        endorsements t' ! k = endorsement_slots t ! k)"
proof -
  from assms(3) obtain sid es where sid: "signer_identity P signer = Ok sid"
    and es: "endorse_from P signer txID sid 0 (namespaces t) (endorsement_slots t) w = (Ok es, w')"
    and t': "t' = t\<lparr>endorsements := es\<rparr>"
    unfolding Endorse_unfold [OF assms(1,2)]
    by (auto simp: io_defs split: prod.splits result.splits)
  show ?thesis using sid t' endorse_from_Ok [OF es] by auto
qed

definition sample_signer :: "string \<Rightarrow> nat signing_identity" where
  "sample_signer org =
     \<lparr>si_Serialize = Ok org, si_Sign = (\<lambda>msg w. (Ok (''sig-'' @ org), Suc w))\<rparr>"

lemma sample_signer_ready: "signer_ready sample_proto (sample_signer org) txID nss"
  by (simp add: signer_ready_def signer_identity_def sample_proto_def sample_signer_def)

theorem endorse_appends_signature_witness:
  "Endorse sample_proto (sample_signer ''A'') ''id'' (Some (sample_tx [''n1'', ''n2''] [])) 0
     = (Ok (sample_tx [''n1'', ''n2''] [[''A''], [''A'']]), 2)
   \<and> length (endorsements (sample_tx [''n1'', ''n2''] [[''A''], [''A'']])) = 2"
proof -
  have e: "Endorse sample_proto (sample_signer ''A'') ''id'' (Some (sample_tx [''n1'', ''n2''] [])) 0
     = (Ok (sample_tx [''n1'', ''n2''] [[''A''], [''A'']]), 2)"
    by (simp add: Endorse_def io_defs Let_def sample_defs sample_signer_def signer_identity_def)
  have "None \<notin> set (endorsements (sample_tx [''n1'', ''n2''] []))" by (simp add: sample_tx_def)
  then show ?thesis
    using endorse_appends_signature [OF sample_proto_laws _ e] e
    by (auto simp: endorsement_slots_def sample_tx_def)
qed

text \<open>
  C26: with a working signer the outcome depends on the shape of the transaction only. Endorsing
  succeeds when the transaction carries no endorsements or at least one entry per namespace, and
  panics with an index out of range when it carries some entries but fewer than namespaces; it
  never returns an error.
\<close>

theorem endorse_outcome:
  assumes "proto_laws P" "None \<notin> set (endorsements t)" "signer_ready P signer txID (namespaces t)"
  shows "(if endorsements t = [] \<or> length (namespaces t) \<le> length (endorsements t)
     then is_ok (fst (Endorse P signer txID (Some t) w))
     else fst (Endorse P signer txID (Some t) w) = Panic ''index out of range'')"
proof -
  from assms(3) obtain sid where sid: "signer_identity P signer = Ok sid"
    by (auto simp: signer_ready_def is_ok_iff)
  obtain r w' where r: "endorse_from P signer txID sid 0 (namespaces t) (endorsement_slots t) w = (r, w')"
    and out: "if namespaces t = [] \<or> length (namespaces t) \<le> length (endorsement_slots t)
       then is_ok r else r = Panic ''index out of range''"
    using endorse_from_outcome [of "namespaces t" P txID signer sid 0 "endorsement_slots t" w] assms(3)
    by (auto simp: signer_ready_def)
  show ?thesis
    unfolding Endorse_unfold [OF assms(1,2)] using sid r out
    by (cases r) (auto simp: endorsement_slots_def io_defs split: if_splits)
qed

theorem endorse_outcome_witness:
  "fst (Endorse sample_proto (sample_signer ''A'') ''id'' (Some (sample_tx [''n1'', ''n2''] [[''B'']])) 0)
     = Panic ''index out of range''"
  using endorse_outcome [OF sample_proto_laws _ sample_signer_ready, of "sample_tx [''n1'', ''n2''] [[''B'']]"]
  by (simp add: sample_tx_def)

end
