(* ===== verification/App.thy ===== *)
theory App
  imports App_Policy Adapters Provider Tx_Create Tx_Endorse
begin

text \<open>
  \<open>tools/fxconfig/internal/app\<close> (\<open>app.go\<close>, \<open>create.go\<close>, \<open>deploy.go\<close>, \<open>endorse.go\<close>, \<open>list.go\<close>,
  \<open>merge.go\<close>, \<open>submit.go\<close>): the operations of the administration tool. The state of \<open>AdminApp\<close> is
  its four providers; together with the trace of the world it is the state the operations thread.
  The clients the providers build are interface values whose operations are arbitrary, except where
  a property says otherwise. A deferred \<open>Close\<close> is \<^const>\<open>io_defer\<close>.
\<close>

section \<open>The application\<close>

record app_env =
  ae_Validators :: validation_context
  ae_proto :: proto_api
  ae_policy :: policy_api
  ae_ValidateNamespaceID :: "string \<Rightarrow> unit result"
  ae_MetaNamespaceID :: string
  ae_sha256 :: "bytes \<Rightarrow> bytes"
  ae_random :: "trace reader"

type_synonym msp_provider = "(trace signing_identity, msp_config, trace) provider"
type_synonym query_provider = "(trace query_client, queries_config, trace) provider"
type_synonym orderer_provider = "(trace orderer_client, orderer_config, trace) provider"
type_synonym notification_provider = "(trace notification_client, notifications_config, trace) provider"

record app =
  MspProvider :: msp_provider
  QueryProvider :: query_provider
  OrdererProvider :: orderer_provider
  NotificationProvider :: notification_provider
  app_trace :: trace

text \<open>An operation on the world, and the \<open>Get\<close> of each provider, as operations of the application.\<close>

definition on_trace :: "('a, trace) io \<Rightarrow> ('a, app) io" where
  "on_trace m = (\<lambda>s. case m (app_trace s) of (r, tr) \<Rightarrow> (r, s\<lparr>app_trace := tr\<rparr>))"

definition MspProvider_Get :: "(trace signing_identity option, app) io" where
  "MspProvider_Get = (\<lambda>s. case provider_Get (MspProvider s) (app_trace s) of
     (r, p, tr) \<Rightarrow> (r, s\<lparr>MspProvider := p, app_trace := tr\<rparr>))"

definition QueryProvider_Get :: "(trace query_client option, app) io" where
  "QueryProvider_Get = (\<lambda>s. case provider_Get (QueryProvider s) (app_trace s) of
     (r, p, tr) \<Rightarrow> (r, s\<lparr>QueryProvider := p, app_trace := tr\<rparr>))"

definition OrdererProvider_Get :: "(trace orderer_client option, app) io" where
  "OrdererProvider_Get = (\<lambda>s. case provider_Get (OrdererProvider s) (app_trace s) of
     (r, p, tr) \<Rightarrow> (r, s\<lparr>OrdererProvider := p, app_trace := tr\<rparr>))"

definition NotificationProvider_Get :: "(trace notification_client option, app) io" where
  "NotificationProvider_Get = (\<lambda>s. case provider_Get (NotificationProvider s) (app_trace s) of
     (r, p, tr) \<Rightarrow> (r, s\<lparr>NotificationProvider := p, app_trace := tr\<rparr>))"

text \<open>A nil interface value: every method panics.\<close>

definition nil_call :: "('a, 'w) io" where
  "nil_call = io_lift (Panic ''nil pointer dereference'')"

definition the_signer :: "trace signing_identity option \<Rightarrow> trace signing_identity" where
  "the_signer x = (case x of Some s \<Rightarrow> s
     | None \<Rightarrow> \<lparr>si_Serialize = Panic ''nil pointer dereference'', si_Sign = (\<lambda>_. nil_call)\<rparr>)"

definition the_query :: "trace query_client option \<Rightarrow> trace query_client" where
  "the_query x = (case x of Some c \<Rightarrow> c
     | None \<Rightarrow> \<lparr>qc_GetNamespacePolicies = nil_call, qc_GetConfigVersion = nil_call, qc_Close = nil_call\<rparr>)"

definition the_orderer :: "trace orderer_client option \<Rightarrow> trace orderer_client" where
  "the_orderer x = (case x of Some c \<Rightarrow> c
     | None \<Rightarrow> \<lparr>oc_Broadcast = (\<lambda>_ _ _. nil_call), oc_Close = nil_call\<rparr>)"

definition the_notification :: "trace notification_client option \<Rightarrow> trace notification_client" where
  "the_notification x = (case x of Some c \<Rightarrow> c
     | None \<Rightarrow> \<lparr>nc_Subscribe = (\<lambda>_. nil_call), nc_WaitForEvent = (\<lambda>_. nil_call), nc_Close = nil_call\<rparr>)"

section \<open>Creating a namespace transaction\<close>

record deploy_input =
  in_NsID :: string
  in_Version :: int
  in_Policy :: policy_config
  in_Endorse :: bool
  in_Submit :: bool
  in_Wait :: bool

record deploy_output =
  out_TxID :: string
  out_Tx :: "tx option"

definition UnknownStatus :: int where
  "UnknownStatus = 0"

definition input_Validate :: "app_env \<Rightarrow> deploy_input \<Rightarrow> validation_context \<Rightarrow> unit result" where
  "input_Validate A c vctx =
     res_bind (res_wrap ''invalid namespaceID: '' (ae_ValidateNamespaceID A (in_NsID c))) (\<lambda>_.
     res_bind (res_wrap ''invalid version: '' (ValidateVersion (in_Version c))) (\<lambda>_.
     res_wrap ''invalid policy: '' (policy_Validate (Some (in_Policy c)) vctx)))"

definition configVersion :: "(64 word, app) io" where
  "configVersion =
     io_bind QueryProvider_Get (\<lambda>qc.
       io_defer (on_trace (qc_Close (the_query qc))) (on_trace (qc_GetConfigVersion (the_query qc))))"

text \<open>The random source and the clock belong to the world; the transaction is made after the id.\<close>

definition create_with :: "app_env \<Rightarrow> deploy_input \<Rightarrow> namespace_policy \<Rightarrow> (deploy_output, app) io" where
  "create_with A input nsPolicy =
     io_bind (io_wrap ''cannot get channel config version from query service: '' configVersion)
     (\<lambda>version.
       io_bind (on_trace (GenerateTxID (ae_sha256 A) (ae_random A))) (\<lambda>txID.
       io_bind (io_lift (CreateNamespacesTx (ae_proto A) (ae_MetaNamespaceID A) nsPolicy
                  (in_NsID input) (in_Version input) version)) (\<lambda>t.
         io_return \<lparr>out_TxID = txID, out_Tx = Some t\<rparr>)))"

definition CreateNamespace :: "app_env \<Rightarrow> deploy_input \<Rightarrow> (deploy_output, app) io option" where
  "CreateNamespace A input =
     map_option (\<lambda>p. io_bind (io_lift p) (create_with A input)) (createPolicy (ae_policy A) (in_Policy input))"

section \<open>Endorsing, submitting, listing, merging\<close>

definition EndorseTransaction :: "app_env \<Rightarrow> string \<Rightarrow> tx option \<Rightarrow> (tx, app) io" where
  "EndorseTransaction A txID t =
     io_bind MspProvider_Get (\<lambda>sid. on_trace (Endorse (ae_proto A) (the_signer sid) txID t))"

definition prepareSubmission ::
    "(trace signing_identity option \<times> trace orderer_client option, app) io" where
  "prepareSubmission =
     io_bind (io_wrap ''failed to get signing identity: '' MspProvider_Get) (\<lambda>sid.
     io_bind (io_wrap ''failed to get orderer client: '' OrdererProvider_Get) (\<lambda>oc.
       io_return (sid, oc)))"

definition SubmitTransaction :: "string \<Rightarrow> tx option \<Rightarrow> (unit, app) io" where
  "SubmitTransaction txID t =
     io_bind (io_wrap ''failed to prepare submission: '' prepareSubmission) (\<lambda>(sid, oc).
       io_defer (on_trace (oc_Close (the_orderer oc)))
         (io_wrap ''failed to broadcast transaction: ''
            (on_trace (oc_Broadcast (the_orderer oc) sid txID t))))"

definition submit_and_wait ::
    "trace signing_identity option \<Rightarrow> trace orderer_client \<Rightarrow> trace notification_client \<Rightarrow> string
      \<Rightarrow> tx option \<Rightarrow> (int, app) io" where
  "submit_and_wait sid oc nc txID t =
     io_bind (io_wrap ''failed to subscribe to transaction events: '' (on_trace (nc_Subscribe nc txID)))
     (\<lambda>subscription.
       io_bind (io_wrap ''failed to broadcast transaction: '' (on_trace (oc_Broadcast oc sid txID t)))
       (\<lambda>_. io_wrap ''failed to wait for transaction status event: ''
              (on_trace (nc_WaitForEvent nc subscription))))"

definition SubmitTransactionWithWait :: "string \<Rightarrow> tx option \<Rightarrow> (int, app) io" where
  "SubmitTransactionWithWait txID t =
     io_bind (io_wrap ''failed to prepare submission: '' prepareSubmission) (\<lambda>(sid, oc).
       io_defer (on_trace (oc_Close (the_orderer oc)))
         (io_bind (io_wrap ''failed to get notification client: '' NotificationProvider_Get) (\<lambda>nc.
            io_defer (on_trace (nc_Close (the_notification nc)))
              (submit_and_wait sid (the_orderer oc) (the_notification nc) txID t))))"

record namespace_query_result =
  nq_NsID :: string
  nq_Version :: int
  nq_Policy :: bytes

definition ListNamespaces :: "(namespace_query_result list, app) io" where
  "ListNamespaces =
     io_bind QueryProvider_Get (\<lambda>qc.
       io_defer (on_trace (qc_Close (the_query qc)))
         (io_bind (io_wrap ''cannot query existing namespaces: ''
                     (on_trace (qc_GetNamespacePolicies (the_query qc)))) (\<lambda>policies.
            io_return (map (\<lambda>p. \<lparr>nq_NsID = pi_Namespace p, nq_Version = sint (pi_Version p),
              nq_Policy = pi_Policy p\<rparr>) policies))))"

definition MergeTransactions :: "app_env \<Rightarrow> tx option list \<Rightarrow> (tx, app) io" where
  "MergeTransactions A txs = io_lift (Merge (ae_proto A) txs)"

section \<open>Deploying\<close>

text \<open>\<open>DeployNamespace\<close> after the transaction is made.\<close>

definition deploy_rest ::
    "app_env \<Rightarrow> deploy_input \<Rightarrow> deploy_output \<Rightarrow> (deploy_output option \<times> int, app) io" where
  "deploy_rest A input out =
     (if \<not> in_Endorse input then io_return (Some out, UnknownStatus)
      else io_bind (EndorseTransaction A (out_TxID out) (out_Tx out)) (\<lambda>t.
        let out = out\<lparr>out_Tx := Some t\<rparr>
        in if \<not> in_Submit input \<and> \<not> in_Wait input then io_return (Some out, UnknownStatus)
           else if in_Wait input then
             io_bind (SubmitTransactionWithWait (out_TxID out) (out_Tx out)) (\<lambda>status.
               io_return (None, status))
           else io_bind (SubmitTransaction (out_TxID out) (out_Tx out)) (\<lambda>_.
               io_return (None, UnknownStatus))))"

definition DeployNamespace ::
    "app_env \<Rightarrow> deploy_input \<Rightarrow> (deploy_output option \<times> int, app) io option" where
  "DeployNamespace A input =
     (case input_Validate A input (ae_Validators A) of
        Err e \<Rightarrow> Some (io_fail e)
      | Panic q \<Rightarrow> Some (io_lift (Panic q))
      | Ok _ \<Rightarrow> map_option (\<lambda>m. io_bind m (deploy_rest A input)) (CreateNamespace A input))"

end
