(* ===== verification/App_Props.thy ===== *)
theory App_Props
  imports App
begin

text \<open>
  What the operations of the application guarantee: which providers a deployment touches, what it
  submits, in which order a submission with wait makes its calls and closes its clients, and what a
  listing reports.
\<close>

section \<open>Parts of the state that an operation leaves alone\<close>

interpretation keeping: effect "\<lambda>s s'. f s' = f s" for f :: "'s \<Rightarrow> 'f"
  by unfold_locales auto

abbreviation keeps :: "('s \<Rightarrow> 'f) \<Rightarrow> ('a, 's) io \<Rightarrow> bool" where
  "keeps f \<equiv> preserves (\<lambda>s s'. f s' = f s)"

lemma keeps_on_trace:
  "(\<And>s tr. f (s\<lparr>app_trace := tr\<rparr>) = f s) \<Longrightarrow> keeps f (on_trace m)"
  by (simp add: preserves_def on_trace_def split: prod.split)

lemma keeps_Get [simp]:
  "keeps QueryProvider MspProvider_Get" "keeps OrdererProvider MspProvider_Get"
  "keeps NotificationProvider MspProvider_Get"
  "keeps MspProvider QueryProvider_Get" "keeps OrdererProvider QueryProvider_Get"
  "keeps NotificationProvider QueryProvider_Get"
  "keeps MspProvider OrdererProvider_Get" "keeps QueryProvider OrdererProvider_Get"
  "keeps NotificationProvider OrdererProvider_Get"
  by (simp_all add: preserves_def MspProvider_Get_def QueryProvider_Get_def OrdererProvider_Get_def
      split: prod.split)

lemmas keeps_intros = keeping.preserves_intros keeps_on_trace keeps_Get

lemma create_keeps:
  "keeps MspProvider (create_with A input p)" "keeps OrdererProvider (create_with A input p)"
  "keeps NotificationProvider (create_with A input p)"
  unfolding create_with_def configVersion_def by (intro keeps_intros; simp)+

lemma endorse_keeps:
  "keeps OrdererProvider (EndorseTransaction A txID t)"
  "keeps NotificationProvider (EndorseTransaction A txID t)"
  unfolding EndorseTransaction_def by (intro keeps_intros; simp)+

lemma submit_keeps: "keeps NotificationProvider (SubmitTransaction txID t)"
  unfolding SubmitTransaction_def prepareSubmission_def split_beta by (intro keeps_intros; simp)+

section \<open>Deployment\<close>

lemma DeployNamespace_cases:
  assumes "DeployNamespace A input = Some m"
  obtains (invalid) e where "m = io_fail e"
  | (broken) q where "m = io_lift (Panic q)"
  | (valid) p where "input_Validate A input (ae_Validators A) = Ok ()"
      "createPolicy (ae_policy A) (in_Policy input) = Some p"
      "m = io_bind (io_bind (io_lift p) (create_with A input)) (deploy_rest A input)"
  using assms
  by (auto simp: DeployNamespace_def CreateNamespace_def split: result.splits)

lemma deploy_keeps:
  assumes "DeployNamespace A input = Some m"
    and "\<And>p. keeps f (create_with A input p)" "\<And>out. keeps f (deploy_rest A input out)"
  shows "keeps f m"
  using assms(1)
proof (cases rule: DeployNamespace_cases)
  case (valid p)
  show ?thesis unfolding valid(3) by (intro keeping.preserves_intros assms(2,3))
qed (simp_all add: keeping.preserves_intros)

lemma deploy_rest_Ok:
  assumes "deploy_rest A input out s = (Ok (o', st), s')"
  shows "(o' = None \<longleftrightarrow> in_Endorse input \<and> (in_Submit input \<or> in_Wait input))
    \<and> (in_Endorse input \<and> in_Wait input \<or> st = UnknownStatus)"
  using assms
  by (auto simp: deploy_rest_def io_bind_def Let_def split: if_splits prod.splits result.splits)

lemma deploy_Ok_None:
  assumes "DeployNamespace A input = Some m" "m s = (Ok (out, st), s')"
  shows "out = None \<longleftrightarrow> in_Endorse input \<and> (in_Submit input \<or> in_Wait input)"
  using assms(1)
proof (cases rule: DeployNamespace_cases)
  case (valid p)
  then obtain x v where "deploy_rest A input x v = (Ok (out, st), s')"
    using assms(2) by (auto simp: io_bind_def split: prod.splits result.splits)
  from deploy_rest_Ok [OF this] show ?thesis by blast
qed (use assms(2) in simp_all)

text \<open>What a successful run of each operation has done, step by step.\<close>

lemma on_trace_Ok:
  "on_trace m s = (r, s') \<longleftrightarrow> m (app_trace s) = (r, app_trace s') \<and> s' = s\<lparr>app_trace := app_trace s'\<rparr>"
  by (auto simp: on_trace_def split: prod.splits)

lemma io_bind_Ok_iff: "io_bind m f w = (Ok y, w') \<longleftrightarrow> (\<exists>x v. m w = (Ok x, v) \<and> f x v = (Ok y, w'))"
  by (auto simp: io_bind_def split: prod.splits result.splits)

lemma io_wrap_Ok_iff: "io_wrap p m w = (Ok y, w') \<longleftrightarrow> m w = (Ok y, w')"
  by (auto simp: io_wrap_def res_simps split: prod.splits)

lemma io_defer_Ok:
  "io_defer c m w = (Ok y, w') \<Longrightarrow> \<exists>v q. m w = (Ok y, v) \<and> c v = (q, w')"
  by (auto simp: io_defer_def split: prod.splits result.splits)

lemma endorse_Ok:
  assumes "EndorseTransaction A txID t s = (Ok t', s')"
  shows "\<exists>sid s1. MspProvider_Get s = (Ok sid, s1) \<and>
    Endorse (ae_proto A) (the_signer sid) txID t (app_trace s1) = (Ok t', app_trace s')
    \<and> s' = s1\<lparr>app_trace := app_trace s'\<rparr>"
  using assms by (auto simp: EndorseTransaction_def io_bind_Ok_iff on_trace_Ok)

lemma prepare_Ok:
  assumes "prepareSubmission s = (Ok (sid, oc), s')"
  shows "\<exists>s1. MspProvider_Get s = (Ok sid, s1) \<and> OrdererProvider_Get s1 = (Ok oc, s')"
  using assms by (auto simp: prepareSubmission_def io_bind_Ok_iff io_wrap_Ok_iff)

lemma submit_Ok:
  assumes "SubmitTransaction txID t s = (Ok u, s')"
  shows "\<exists>sid oc s1 tr q. prepareSubmission s = (Ok (sid, oc), s1)
    \<and> oc_Broadcast (the_orderer oc) sid txID t (app_trace s1) = (Ok (), tr)
    \<and> oc_Close (the_orderer oc) tr = (q, app_trace s')"
  using assms
  by (fastforce simp: SubmitTransaction_def io_bind_Ok_iff io_wrap_Ok_iff on_trace_Ok
      dest!: io_defer_Ok split: prod.splits)

lemma submit_wait_Ok:
  assumes "SubmitTransactionWithWait txID t s = (Ok st, s')"
  shows "\<exists>sid oc nc sub s1 s2 tr1 tr2 tr3 tr4 q1 q2. prepareSubmission s = (Ok (sid, oc), s1)
    \<and> NotificationProvider_Get s1 = (Ok nc, s2)
    \<and> nc_Subscribe (the_notification nc) txID (app_trace s2) = (Ok sub, tr1)
    \<and> oc_Broadcast (the_orderer oc) sid txID t tr1 = (Ok (), tr2)
    \<and> nc_WaitForEvent (the_notification nc) sub tr2 = (Ok st, tr3)
    \<and> nc_Close (the_notification nc) tr3 = (q1, tr4)
    \<and> oc_Close (the_orderer oc) tr4 = (q2, app_trace s')"
  using assms
  by (fastforce simp: SubmitTransactionWithWait_def submit_and_wait_def io_bind_Ok_iff io_wrap_Ok_iff
      on_trace_Ok dest!: io_defer_Ok split: prod.splits)

lemma Get_signer_stable:
  assumes "MspProvider_Get s = (Ok sid, s1)" "MspProvider s2 = MspProvider s1"
  shows "MspProvider_Get s2 = (Ok sid, s2)"
proof -
  obtain r p tr where g: "provider_Get (MspProvider s) (app_trace s) = (r, p, tr)"
    by (cases "provider_Get (MspProvider s) (app_trace s)") auto
  have "r = Ok sid" "MspProvider s1 = p" using assms(1) g by (auto simp: MspProvider_Get_def)
  then have "provider_Get p (app_trace s2) = (Ok sid, p, app_trace s2)"
    using provider.get_ready [OF provider.ready_after [OF g]] provider.cached_after [OF g] by simp
  then show ?thesis using assms(2) \<open>MspProvider s1 = p\<close> by (simp add: MspProvider_Get_def)
qed

text \<open>A deferred close that does not panic runs after the body and leaves its result alone.\<close>

lemma io_defer_trace:
  "m w = (q, v) \<Longrightarrow> \<not> is_panic (fst (c (app_trace v))) \<Longrightarrow>
    io_defer (on_trace c) m w = (q, v\<lparr>app_trace := snd (c (app_trace v))\<rparr>)"
  by (cases "c (app_trace v)") (auto simp: io_defer_def on_trace_def split: result.splits)

section \<open>A sample application\<close>

text \<open>Clients that answer every call and record it.\<close>

definition sample_app_env :: app_env where
  "sample_app_env = \<lparr>ae_Validators = sample_vctx, ae_proto = sample_proto, ae_policy = sample_policy_api,
     ae_ValidateNamespaceID = (\<lambda>_. Ok ()), ae_MetaNamespaceID = ''meta'', ae_sha256 = (\<lambda>b. take 2 b),
     ae_random = (\<lambda>n tr. ((n, None, replicate n (CHR ''r'')), tr @ [Ev_ReadRandom n]))\<rparr>"

definition sample_msp :: "trace signing_identity" where
  "sample_msp = \<lparr>si_Serialize = Ok ''org'', si_Sign = (\<lambda>b. ext_call (Ev_Sign b) (\<lambda>_. Ok ''sig''))\<rparr>"

definition sample_query :: "trace query_client" where
  "sample_query = \<lparr>
     qc_GetNamespacePolicies = ext_call (Ev_GetNamespacePolicies 0 1)
       (\<lambda>_. Ok [\<lparr>pi_Namespace = ''n'', pi_Version = - 1, pi_Policy = ''p''\<rparr>]),
     qc_GetConfigVersion = ext_call (Ev_GetConfigTransaction 0 1) (\<lambda>_. Ok 3),
     qc_Close = ext_call (Ev_ConnClose 0) (\<lambda>_. Ok ())\<rparr>"

definition sample_orderer_client :: "trace orderer_client" where
  "sample_orderer_client = \<lparr>
     oc_Broadcast = (\<lambda>_ txID _. ext_call (Ev_Send 1 \<lparr>env_Payload = txID, env_Signature = []\<rparr>) (\<lambda>_. Ok ())),
     oc_Close = ext_call (Ev_ConnClose 1) (\<lambda>_. Ok ())\<rparr>"

definition sample_notification_client :: "trace notification_client" where
  "sample_notification_client = \<lparr>
     nc_Subscribe = (\<lambda>txID. ext_call (Ev_Subscribe 2 txID 1) (\<lambda>_. Ok 0)),
     nc_WaitForEvent = (\<lambda>ch. ext_call (Ev_WaitForEvent 2 ch 1) (\<lambda>_. Ok 7)),
     nc_Close = ext_call (Ev_ConnClose 2) (\<lambda>_. Ok ())\<rparr>"

definition sample_provider :: "'t \<Rightarrow> 'k \<Rightarrow> ('t, 'k, trace) provider" where
  "sample_provider x k = provider_New (\<lambda>_. io_return x) k (\<lambda>_ _. Ok ()) sample_vctx"

definition sample_app :: app where
  "sample_app = \<lparr>
     MspProvider = sample_provider sample_msp \<lparr>LocalMspID = ''org'', ConfigPath = ''d''\<rparr>,
     QueryProvider = sample_provider sample_query \<lparr>Address = ''h:1'', ConnectionTimeout = 1, ep_TLS = None\<rparr>,
     OrdererProvider = sample_provider sample_orderer_client
       \<lparr>Address = ''h:2'', ConnectionTimeout = 1, ep_TLS = None, Channel = ''c''\<rparr>,
     NotificationProvider = sample_provider sample_notification_client
       \<lparr>Address = ''h:3'', ConnectionTimeout = 1, ep_TLS = None, WaitingTimeout = 1\<rparr>,
     app_trace = []\<rparr>"

definition sample_input :: "bool \<Rightarrow> bool \<Rightarrow> bool \<Rightarrow> deploy_input" where
  "sample_input e sb w = \<lparr>in_NsID = ''n'', in_Version = -1,
     in_Policy = \<lparr>pc_Type = ''msp'', pc_MSP = Some \<lparr>Expression = ''x''\<rparr>, pc_Threshold = None\<rparr>,
     in_Endorse = e, in_Submit = sb, in_Wait = w\<rparr>"

definition sample_deploy :: "bool \<Rightarrow> bool \<Rightarrow> bool \<Rightarrow> (deploy_output option \<times> int) result \<times> trace" where
  "sample_deploy e sb w =
     (case DeployNamespace sample_app_env (sample_input e sb w) of
        None \<Rightarrow> (Err (Error_New ''diverges''), [])
      | Some m \<Rightarrow> (case m sample_app of (r, s) \<Rightarrow> (r, app_trace s)))"

lemma sample_deploy_wait:
  "sample_deploy True False True = (Ok (None, 7),
     [Ev_GetConfigTransaction 0 1, Ev_ConnClose 0, Ev_ReadRandom 24, Ev_Sign ''7272meta'',
      Ev_Subscribe 2 ''7272'' 1, Ev_Send 1 \<lparr>env_Payload = ''7272'', env_Signature = []\<rparr>,
      Ev_WaitForEvent 2 0 1, Ev_ConnClose 2, Ev_ConnClose 1])"
  by code_simp

lemma sample_deploy_unendorsed:
  "case sample_deploy False True True of (Ok (Some _, st), tr) \<Rightarrow> st = 0 \<and>
     tr = [Ev_GetConfigTransaction 0 1, Ev_ConnClose 0, Ev_ReadRandom 24] | _ \<Rightarrow> False"
  by code_simp

section \<open>Properties\<close>

text \<open>
  C25: a deployment, whatever its result, asks for the orderer only if it is to endorse and to
  submit or wait, for the notification service only if it is to endorse and wait, and for the
  signing identity only if it is to endorse; otherwise these providers stay as they are and no
  such client is ever built. A valid deployment that is not to endorse is its creation, whether it is
  to submit, to wait or neither: it ends without an error whenever the creation does, and
  returns the transaction that was created, without having submitted anything.
\<close>

theorem deploy_flags:
  assumes "DeployNamespace A input = Some m" "m s = (r, s')"
  shows "(in_Endorse input \<and> (in_Submit input \<or> in_Wait input) \<or> OrdererProvider s' = OrdererProvider s)
    \<and> (in_Endorse input \<and> in_Wait input \<or> NotificationProvider s' = NotificationProvider s)
    \<and> (in_Endorse input \<or> MspProvider s' = MspProvider s)
    \<and> (\<forall>out st. r = Ok (out, st) \<longrightarrow>
         (out = None \<longleftrightarrow> in_Endorse input \<and> (in_Submit input \<or> in_Wait input)))
    \<and> (\<not> in_Endorse input \<longrightarrow> input_Validate A input (ae_Validators A) = Ok () \<longrightarrow>
         (\<forall>c. CreateNamespace A input = Some c \<longrightarrow>
            (r, s') = io_bind c (\<lambda>out. io_return (Some out, UnknownStatus)) s))"
proof -
  have ord: "OrdererProvider s' = OrdererProvider s"
    if "\<not> (in_Endorse input \<and> (in_Submit input \<or> in_Wait input))"
  proof -
    have "keeps OrdererProvider (deploy_rest A input out)" for out
      using that unfolding deploy_rest_def Let_def
      by (auto intro!: keeps_intros endorse_keeps simp del: io_return_apply)
    from preservesD [OF deploy_keeps [OF assms(1) create_keeps(2) this] assms(2)] show ?thesis .
  qed
  have notif: "NotificationProvider s' = NotificationProvider s" if "\<not> (in_Endorse input \<and> in_Wait input)"
  proof -
    have "keeps NotificationProvider (deploy_rest A input out)" for out
      using that unfolding deploy_rest_def Let_def
      by (auto intro!: keeps_intros endorse_keeps submit_keeps simp del: io_return_apply)
    from preservesD [OF deploy_keeps [OF assms(1) create_keeps(3) this] assms(2)] show ?thesis .
  qed
  have msp: "MspProvider s' = MspProvider s" if "\<not> in_Endorse input"
  proof -
    have "keeps MspProvider (deploy_rest A input out)" for out
      using that unfolding deploy_rest_def by (auto intro!: keeps_intros simp del: io_return_apply)
    from preservesD [OF deploy_keeps [OF assms(1) create_keeps(1) this] assms(2)] show ?thesis .
  qed
  have "out = None \<longleftrightarrow> in_Endorse input \<and> (in_Submit input \<or> in_Wait input)" if "r = Ok (out, st)" for out st
    using deploy_Ok_None [OF assms(1)] assms(2) that by simp
  moreover have "(r, s') = io_bind c (\<lambda>out. io_return (Some out, UnknownStatus)) s"
    if "\<not> in_Endorse input" "input_Validate A input (ae_Validators A) = Ok ()" "CreateNamespace A input = Some c" for c
  proof -
    have "deploy_rest A input = (\<lambda>out. io_return (Some out, UnknownStatus))"
      using that(1) by (simp add: deploy_rest_def fun_eq_iff)
    then show ?thesis using assms that(2,3) by (auto simp: DeployNamespace_def)
  qed
  ultimately show ?thesis using ord notif msp by blast
qed

theorem deploy_flags_witness:
  "\<exists>m out s'. DeployNamespace sample_app_env (sample_input False True True) = Some m
     \<and> m sample_app = (Ok (Some out, 0), s') \<and> OrdererProvider s' = OrdererProvider sample_app
     \<and> NotificationProvider s' = NotificationProvider sample_app"
proof -
  obtain m s' out where m: "DeployNamespace sample_app_env (sample_input False True True) = Some m"
    "m sample_app = (Ok (Some out, 0), s')"
    using sample_deploy_unendorsed
    by (auto simp: sample_deploy_def split: option.splits prod.splits result.splits)
  show ?thesis using deploy_flags [OF m] m by (auto simp: sample_input_def)
qed

text \<open>
  C4: when a deployment reports a submission, these calls were made, each on the world that the one before
  left, and no others: the config version was read from the query service and the query client closed; an
  identifier was generated and the namespace transaction of the input made at that version; the
  tool's signing identity endorsed it for this identifier; the endorsed transaction was broadcast
  under the same identifier, signed by the same identity, and accepted by the orderer client; and the
  clients were closed. With \<open>Wait\<close> the identifier was subscribed to just before the broadcast, and the
  status that is reported is the one the notification client gave for this subscription.
\<close>

theorem deploy_submits_endorsed:
  assumes "DeployNamespace A input = Some m" "m s = (Ok (None, st), s')"
  shows "\<exists>pol version s1 txID tr2 t sid s3 t' tr4 oc s5.
      createPolicy (ae_policy A) (in_Policy input) = Some (Ok pol)
    \<and> configVersion s = (Ok version, s1)
    \<and> GenerateTxID (ae_sha256 A) (ae_random A) (app_trace s1) = (Ok txID, tr2)
    \<and> CreateNamespacesTx (ae_proto A) (ae_MetaNamespaceID A) pol (in_NsID input) (in_Version input) version = Ok t
    \<and> MspProvider_Get (s1\<lparr>app_trace := tr2\<rparr>) = (Ok sid, s3)
    \<and> Endorse (ae_proto A) (the_signer sid) txID (Some t) (app_trace s3) = (Ok t', tr4)
    \<and> OrdererProvider_Get (s3\<lparr>app_trace := tr4\<rparr>) = (Ok oc, s5)
    \<and> (if in_Wait input
       then \<exists>nc s6 sub tr7 tr8 tr9. NotificationProvider_Get s5 = (Ok nc, s6)
         \<and> nc_Subscribe (the_notification nc) txID (app_trace s6) = (Ok sub, tr7)
         \<and> oc_Broadcast (the_orderer oc) sid txID (Some t') tr7 = (Ok (), tr8)
         \<and> nc_WaitForEvent (the_notification nc) sub tr8 = (Ok st, tr9)
         \<and> app_trace s' = snd (oc_Close (the_orderer oc) (snd (nc_Close (the_notification nc) tr9)))
       else \<exists>tr8. oc_Broadcast (the_orderer oc) sid txID (Some t') (app_trace s5) = (Ok (), tr8)
         \<and> app_trace s' = snd (oc_Close (the_orderer oc) tr8) \<and> st = UnknownStatus)"
  using assms(1)
proof (cases rule: DeployNamespace_cases)
  case (valid p)
  then obtain pol out s0 where p: "p = Ok pol" and c: "create_with A input pol s = (Ok out, s0)"
    and rest: "deploy_rest A input out s0 = (Ok (None, st), s')"
    using assms(2) by (auto simp: io_bind_Ok_iff)
  obtain version s1 tr2 t where v: "configVersion s = (Ok version, s1)"
    and id: "GenerateTxID (ae_sha256 A) (ae_random A) (app_trace s1) = (Ok (out_TxID out), tr2)" "s0 = s1\<lparr>app_trace := tr2\<rparr>"
    and t: "out_Tx out = Some t"
      "CreateNamespacesTx (ae_proto A) (ae_MetaNamespaceID A) pol (in_NsID input) (in_Version input) version = Ok t"
    using c by (auto simp: create_with_def io_bind_Ok_iff io_wrap_Ok_iff on_trace_Ok)
  have flags: "in_Endorse input" "in_Submit input \<or> in_Wait input" using deploy_rest_Ok [OF rest] by auto
  obtain t' s4 where e: "EndorseTransaction A (out_TxID out) (Some t) s0 = (Ok t', s4)"
    and sub: "if in_Wait input then SubmitTransactionWithWait (out_TxID out) (Some t') s4 = (Ok st, s')
       else SubmitTransaction (out_TxID out) (Some t') s4 = (Ok (), s') \<and> st = UnknownStatus"
    using rest flags t(1)
    by (auto simp: deploy_rest_def io_bind_Ok_iff Let_def split: if_splits)
  obtain sid s3 where sid: "MspProvider_Get s0 = (Ok sid, s3)"
    and endo: "Endorse (ae_proto A) (the_signer sid) (out_TxID out) (Some t) (app_trace s3) = (Ok t', app_trace s4)"
    and s4: "s4 = s3\<lparr>app_trace := app_trace s4\<rparr>"
    using endorse_Ok [OF e] by blast
  have prep: "prepareSubmission s4 = (Ok (sid', oc), s5) \<Longrightarrow> sid' = sid \<and> OrdererProvider_Get s4 = (Ok oc, s5)"
    for sid' oc s5
  proof -
    have "MspProvider s4 = MspProvider s3" by (subst s4) simp
    then have "MspProvider_Get s4 = (Ok sid, s4)" by (rule Get_signer_stable [OF sid])
    then show "prepareSubmission s4 = (Ok (sid', oc), s5) \<Longrightarrow> ?thesis"
      using prepare_Ok [of s4 sid' oc s5] by auto
  qed
  show ?thesis
  proof (cases "in_Wait input")
    case True
    obtain sid' oc nc ch s5 s6 tr7 tr8 tr9 tr10 q1 q2 where
      w: "prepareSubmission s4 = (Ok (sid', oc), s5)" "NotificationProvider_Get s5 = (Ok nc, s6)"
        "nc_Subscribe (the_notification nc) (out_TxID out) (app_trace s6) = (Ok ch, tr7)"
        "oc_Broadcast (the_orderer oc) sid' (out_TxID out) (Some t') tr7 = (Ok (), tr8)"
        "nc_WaitForEvent (the_notification nc) ch tr8 = (Ok st, tr9)"
        "nc_Close (the_notification nc) tr9 = (q1, tr10)" "oc_Close (the_orderer oc) tr10 = (q2, app_trace s')"
      using sub True submit_wait_Ok [of "out_TxID out" "Some t'" s4 st s'] by auto
    have closed: "app_trace s' = snd (oc_Close (the_orderer oc) (snd (nc_Close (the_notification nc) tr9)))"
      using w(6,7) by simp
    show ?thesis
      using p valid(2) v id t(2) sid endo s4 prep [OF w(1)] w(2-5) closed True
      by (intro exI [of _ pol] exI [of _ version] exI [of _ s1] exI [of _ "out_TxID out"] exI [of _ tr2] exI [of _ t]
          exI [of _ sid] exI [of _ s3] exI [of _ t'] exI [of _ "app_trace s4"] exI [of _ oc] exI [of _ s5]) auto
  next
    case False
    obtain sid' oc s5 tr8 q where
      w: "prepareSubmission s4 = (Ok (sid', oc), s5)"
        "oc_Broadcast (the_orderer oc) sid' (out_TxID out) (Some t') (app_trace s5) = (Ok (), tr8)"
        "oc_Close (the_orderer oc) tr8 = (q, app_trace s')"
      using sub False submit_Ok [of "out_TxID out" "Some t'" s4 "()" s'] by auto
    have closed: "app_trace s' = snd (oc_Close (the_orderer oc) tr8)" using w(3) by simp
    show ?thesis
      using p valid(2) v id t(2) sid endo s4 prep [OF w(1)] w(2) closed False sub
      by (intro exI [of _ pol] exI [of _ version] exI [of _ s1] exI [of _ "out_TxID out"] exI [of _ tr2] exI [of _ t]
          exI [of _ sid] exI [of _ s3] exI [of _ t'] exI [of _ "app_trace s4"] exI [of _ oc] exI [of _ s5]) auto
  qed
qed (use assms(2) in simp_all)

theorem deploy_submits_endorsed_witness:
  "\<exists>m s'. DeployNamespace sample_app_env (sample_input True False True) = Some m
     \<and> m sample_app = (Ok (None, 7), s')
     \<and> (\<exists>txID sid oc t t' tr3 tr4 tr7 tr8. Endorse sample_proto (the_signer sid) txID (Some t) tr3 = (Ok t', tr4)
          \<and> oc_Broadcast (the_orderer oc) sid txID (Some t') tr7 = (Ok (), tr8))"
proof -
  obtain m s' where m: "DeployNamespace sample_app_env (sample_input True False True) = Some m"
    "m sample_app = (Ok (None, 7), s')"
    using sample_deploy_wait by (auto simp: sample_deploy_def split: option.splits prod.splits)
  have env: "ae_proto sample_app_env = sample_proto" "in_Wait (sample_input True False True) = True"
    by (simp_all add: sample_app_env_def sample_input_def)
  show ?thesis using deploy_submits_endorsed [OF m] m unfolding env if_True by blast
qed

text \<open>
  C8: a submission with wait, once it has its signer and both clients, subscribes first, broadcasts
  only if the subscription was made, and waits only if the broadcast was accepted; the status it
  returns is the one of the wait. On every path, errors included, the notification client is closed
  and then the orderer client, each once and last.
\<close>

theorem submit_with_wait_order:
  assumes "prepareSubmission s = (Ok (sid, oc), s1)" "NotificationProvider_Get s1 = (Ok nc, s2)"
    and "SubmitTransactionWithWait txID t s = (r, s')"
    and "\<And>tr. \<not> is_panic (fst (nc_Close (the_notification nc) tr))"
    and "\<And>tr. \<not> is_panic (fst (oc_Close (the_orderer oc) tr))"
  shows "\<exists>tr. app_trace s' = snd (oc_Close (the_orderer oc) (snd (nc_Close (the_notification nc) tr)))
    \<and> (case nc_Subscribe (the_notification nc) txID (app_trace s2) of
        (Ok sub, tr1) \<Rightarrow>
          (case oc_Broadcast (the_orderer oc) sid txID t tr1 of
             (Ok _, tr2) \<Rightarrow>
               (case nc_WaitForEvent (the_notification nc) sub tr2 of
                  (q, tr3) \<Rightarrow> tr = tr3 \<and> r = res_wrap ''failed to wait for transaction status event: '' q)
           | (Err e, tr2) \<Rightarrow> tr = tr2 \<and> r = Err (Error_Wrap ''failed to broadcast transaction: '' e)
           | (Panic p, tr2) \<Rightarrow> tr = tr2 \<and> r = Panic p)
      | (Err e, tr1) \<Rightarrow> tr = tr1 \<and> r = Err (Error_Wrap ''failed to subscribe to transaction events: '' e)
      | (Panic p, tr1) \<Rightarrow> tr = tr1 \<and> r = Panic p)"
proof -
  let ?nc = "the_notification nc" and ?oc = "the_orderer oc"
  obtain q u where body: "submit_and_wait sid ?oc ?nc txID t s2 = (q, u)"
    by (cases "submit_and_wait sid ?oc ?nc txID t s2")
  have inner: "io_defer (on_trace (nc_Close ?nc)) (submit_and_wait sid ?oc ?nc txID t) s2
      = (q, u\<lparr>app_trace := snd (nc_Close ?nc (app_trace u))\<rparr>)"
    by (rule io_defer_trace [where c = "nc_Close ?nc", OF _ assms(4)]) (rule body)
  have "SubmitTransactionWithWait txID t s =
      (q, u\<lparr>app_trace := snd (oc_Close ?oc (snd (nc_Close ?nc (app_trace u))))\<rparr>)"
    unfolding SubmitTransactionWithWait_def
    using assms(1,2) inner
    by (simp add: io_bind_def io_wrap_def io_defer_trace [where c = "oc_Close ?oc" and w = s1, OF _ assms(5)])
  then have out: "r = q" "app_trace s' = snd (oc_Close ?oc (snd (nc_Close ?nc (app_trace u))))"
    using assms(3) by auto
  then show ?thesis
    using body
    by (intro exI [of _ "app_trace u"])
      (auto simp: submit_and_wait_def io_bind_def io_wrap_def on_trace_def
        split: prod.splits result.splits)
qed

theorem submit_with_wait_order_witness:
  "case SubmitTransactionWithWait ''t'' None sample_app of (r, s') \<Rightarrow> r = Ok 7 \<and>
     app_trace s' = [Ev_Subscribe 2 ''t'' 1, Ev_Send 1 \<lparr>env_Payload = ''t'', env_Signature = []\<rparr>,
       Ev_WaitForEvent 2 0 1, Ev_ConnClose 2, Ev_ConnClose 1]"
proof -
  obtain s1 where p: "prepareSubmission sample_app = (Ok (Some sample_msp, Some sample_orderer_client), s1)"
    and s1: "app_trace s1 = []" "NotificationProvider s1 = NotificationProvider sample_app"
    by (simp add: prepareSubmission_def io_bind_def io_wrap_def MspProvider_Get_def
        OrdererProvider_Get_def sample_app_def sample_provider_def provider_Get_def provider_New_def
        provider_Validate_def provider_cached_def Let_def)
  obtain s2 where n: "NotificationProvider_Get s1 = (Ok (Some sample_notification_client), s2)"
    and s2: "app_trace s2 = []"
    using s1 by (simp add: NotificationProvider_Get_def sample_app_def sample_provider_def provider_Get_def
        provider_New_def provider_Validate_def provider_cached_def Let_def)
  obtain r s' where r: "SubmitTransactionWithWait ''t'' None sample_app = (r, s')" by fastforce
  show ?thesis
    using submit_with_wait_order [OF p n r] r s2
    by (simp add: the_orderer_def the_notification_def sample_notification_client_def
        sample_orderer_client_def)
qed

text \<open>
  C39: a listing reports the policies of the query service in their order, with name and bytes
  unchanged. The version is reported as it is below \<open>2\<^sup>6\<^sup>3\<close> and wraps to a negative number from
  there on. The client is closed last, whatever the answer, and an error of the service is an error.
\<close>

theorem list_namespaces:
  assumes "QueryProvider_Get s = (Ok qc, s1)" "ListNamespaces s = (r, s')"
    and "\<And>tr. \<not> is_panic (fst (qc_Close (the_query qc) tr))"
  shows "case qc_GetNamespacePolicies (the_query qc) (app_trace s1) of (q, tr) \<Rightarrow>
      app_trace s' = snd (qc_Close (the_query qc) tr)
    \<and> (case q of
        Ok ps \<Rightarrow> \<exists>l. r = Ok l \<and> map nq_NsID l = map pi_Namespace ps \<and> map nq_Policy l = map pi_Policy ps
          \<and> list_all2 (\<lambda>x p. nq_Version x = (if uint (pi_Version p) < 2 ^ 63 then uint (pi_Version p)
                                     else uint (pi_Version p) - 2 ^ 64)) l ps
      | Err e \<Rightarrow> r = Err (Error_Wrap ''cannot query existing namespaces: '' e)
      | Panic p \<Rightarrow> r = Panic p)"
proof -
  obtain q tr where q: "qc_GetNamespacePolicies (the_query qc) (app_trace s1) = (q, tr)" by fastforce
  obtain c tr' where c: "qc_Close (the_query qc) tr = (c, tr')" by fastforce
  have np: "\<not> is_panic c" using assms(3) [of tr] c by simp
  have sint: "sint v = (if uint v < 2 ^ 63 then uint v else uint v - 2 ^ 64)" for v :: "64 word"
    by (rule sint_64)
  let ?f = "\<lambda>p. \<lparr>nq_NsID = pi_Namespace p, nq_Version = sint (pi_Version p), nq_Policy = pi_Policy p\<rparr>"
  have "app_trace s' = tr' \<and> r = (case q of Ok ps \<Rightarrow> Ok (map ?f ps)
      | Err e \<Rightarrow> Err (Error_Wrap ''cannot query existing namespaces: '' e) | Panic p \<Rightarrow> Panic p)"
    using assms(1,2) q c np
    by (auto simp: ListNamespaces_def io_bind_def io_wrap_def io_defer_def on_trace_def
        split: prod.splits result.splits)
  then show ?thesis
    using q c by (auto split: result.split simp: comp_def list_all2_conv_all_nth sint)
qed

theorem list_namespaces_witness:
  "\<exists>x s'. ListNamespaces sample_app = (Ok [x], s') \<and> nq_NsID x = ''n'' \<and> nq_Version x = -1"
proof -
  obtain s1 where q: "QueryProvider_Get sample_app = (Ok (Some sample_query), s1)" and s1: "app_trace s1 = []"
    by (simp add: QueryProvider_Get_def sample_app_def sample_provider_def provider_Get_def
        provider_New_def provider_Validate_def provider_cached_def Let_def)
  obtain r s' where r: "ListNamespaces sample_app = (r, s')" by fastforce
  have c: "\<not> is_panic (fst (qc_Close (the_query (Some sample_query)) tr))" for tr
    by (simp add: the_query_def sample_query_def)
  obtain l where l: "r = Ok l" "map nq_NsID l = [''n'']" "length l = 1" "nq_Version (hd l) = -1"
    using list_namespaces [OF q r c] s1
    by (auto simp: the_query_def sample_query_def list_all2_Cons2 unsigned_minus_1_eq_mask mask_eq_exp_minus_1)
  then show ?thesis using r by (cases l) auto
qed

end
