(* ===== verification/Cli_IO.thy ===== *)
theory Cli_IO
  imports Messages Validation
begin

text \<open>
  \<open>tools/fxconfig/internal/cli/v1/cliio\<close>: reading input with a size limit, writing output, the
  printer, and the codec of transactions. The world of a command is its standard streams and the
  files it has written; the files it can read and the mode of standard input are the
  environment.
\<close>

section \<open>Input\<close>

text \<open>
  An \<open>io.Reader\<close>: the bytes it yields and how it ends, with an error or at the end of the file.
\<close>

record byte_reader =
  rd_data :: bytes
  rd_err :: "go_error option"

record io_env =
  ioe_StdinMode :: "32 word result"
  ioe_Open :: "string \<Rightarrow> byte_reader result"
  ioe_Size :: "string \<Rightarrow> int option"
  ioe_WriteFile :: "string \<Rightarrow> go_error option"

record streams =
  st_stdin :: byte_reader
  st_stdout :: bytes
  st_stderr :: bytes
  st_files :: "string \<rightharpoonup> bytes"

definition defaultMaxInputSize :: int where
  "defaultMaxInputSize = 20 * 1024 * 1024"

text \<open>
  \<open>io.ReadAll(io.LimitReader(r, n))\<close>: at most \<open>n\<close> bytes; an error of the reader is seen only if the
  limit does not end the reading first.
\<close>

definition read_limited :: "byte_reader \<Rightarrow> int \<Rightarrow> bytes result" where
  "read_limited r n =
     (if int (length (rd_data r)) < n
      then (case rd_err r of None \<Rightarrow> Ok (rd_data r) | Some e \<Rightarrow> Err e)
      else Ok (take (nat n) (rd_data r)))"

text \<open>\<open>io.ReadAll\<close> of a file; reading from a nil file is an error.\<close>

definition ReadAll :: "byte_reader option \<Rightarrow> bytes result" where
  "ReadAll f = (case f of
     None \<Rightarrow> Err (Error_Ext ''invalid argument'')
   | Some r \<Rightarrow> (case rd_err r of None \<Rightarrow> Ok (rd_data r) | Some e \<Rightarrow> Err e))"

abbreviation file_of :: "bytes \<Rightarrow> byte_reader option" where
  "file_of b \<equiv> Some \<lparr>rd_data = b, rd_err = None\<rparr>"

lemma ReadAll_file [simp]: "ReadAll (file_of b) = Ok b"
  by (simp add: ReadAll_def)

definition limit_error :: "string \<Rightarrow> int \<Rightarrow> go_error" where
  "limit_error what n =
     Error_New (what @ '' exceeds maximum allowed size of '' @ dec_of_int n @ '' bytes'')"

definition ReadWithLimit :: "byte_reader \<Rightarrow> int \<Rightarrow> bytes result" where
  "ReadWithLimit r maxBytes =
     res_bind (read_limited r (wrap_int64 (maxBytes + 1))) (\<lambda>data.
       if int (length data) > maxBytes then Err (limit_error ''input'' maxBytes) else Ok data)"

unbundle bit_operations_syntax

text \<open>Standard input is a pipe unless its mode, if it has one, says that it is a character device.\<close>

definition ModeCharDevice :: "32 word" where
  "ModeCharDevice = push_bit 21 1"

definition isInputFromPipe :: "io_env \<Rightarrow> bool" where
  "isInputFromPipe E = (case ioe_StdinMode E of Ok mode \<Rightarrow> mode AND ModeCharDevice = 0 | _ \<Rightarrow> False)"

lemma isInputFromPipe_terminal [simp]: "ioe_StdinMode E = Ok 0x200000 \<Longrightarrow> \<not> isInputFromPipe E"
  by (simp add: isInputFromPipe_def ModeCharDevice_def)

definition ResolveInput :: "io_env \<Rightarrow> string \<Rightarrow> (bytes, streams) io" where
  "ResolveInput E inputFile =
     (if inputFile \<noteq> [] \<and> isInputFromPipe E then
        io_fail (Error_New ''cannot use --input and stdin together'')
      else if inputFile \<noteq> [] then
        let inputFile = filepath_Clean inputFile in
        if strings_Contains inputFile ''..'' then io_fail (Error_New ''path traversal not allowed'')
        else io_bind (io_lift (ioe_Open E inputFile)) (\<lambda>file.
          if (case ioe_Size E inputFile of None \<Rightarrow> False | Some n \<Rightarrow> n > defaultMaxInputSize)
          then io_fail (limit_error ''input file'' defaultMaxInputSize)
          else io_lift (ReadWithLimit file defaultMaxInputSize))
      else if isInputFromPipe E then
        (\<lambda>s. (ReadWithLimit (st_stdin s) defaultMaxInputSize,
               s\<lparr>st_stdin := (st_stdin s)\<lparr>rd_data := drop (nat (defaultMaxInputSize + 1)) (rd_data (st_stdin s))\<rparr>\<rparr>))
      else io_fail (Error_New ''no input provided (use --input or pipe data via stdin)''))"

section \<open>Output\<close>

definition WriteOutput :: "io_env \<Rightarrow> string \<Rightarrow> bytes \<Rightarrow> (unit, streams) io" where
  "WriteOutput E outputFile data =
     (if outputFile \<noteq> [] then
        (\<lambda>s. case ioe_WriteFile E outputFile of
           Some e \<Rightarrow> (Err e, s)
         | None \<Rightarrow> (Ok (), s\<lparr>st_files := (st_files s)(outputFile \<mapsto> data)\<rparr>))
      else (\<lambda>s. (Ok (), s\<lparr>st_stdout := st_stdout s @ data\<rparr>)))"

text \<open>
  \<open>FormatTable\<close>, the only format the commands use, prints a string as it is; the encoders of the
  other two formats are parameters.
\<close>

datatype print_format = FormatTable | FormatJSON | FormatYAML

record print_api =
  json_Encode :: "string \<Rightarrow> bytes result"
  json_EncodeError :: "go_error \<Rightarrow> bytes"
  yaml_Marshal :: "string \<Rightarrow> bytes result"
  error_Text :: "go_error \<Rightarrow> string"

record cli_printer =
  pr_libs :: print_api
  pr_format :: print_format

definition NewCLIPrinter :: "print_api \<Rightarrow> print_format \<Rightarrow> cli_printer" where
  "NewCLIPrinter libs format = \<lparr>pr_libs = libs, pr_format = format\<rparr>"

definition print_value :: "cli_printer \<Rightarrow> string \<Rightarrow> bytes result" where
  "print_value p v =
     (case pr_format p of FormatJSON \<Rightarrow> json_Encode (pr_libs p) v | FormatYAML \<Rightarrow> yaml_Marshal (pr_libs p) v | FormatTable \<Rightarrow> Ok v)"

definition PrintError :: "cli_printer \<Rightarrow> go_error \<Rightarrow> streams \<Rightarrow> streams" where
  "PrintError p e s =
     (if pr_format p \<noteq> FormatJSON
      then s\<lparr>st_stderr := st_stderr s @ ''Error: '' @ error_Text (pr_libs p) e @ [CHR 0x0A]\<rparr>
      else s\<lparr>st_stderr := st_stderr s @ json_EncodeError (pr_libs p) e\<rparr>)"

definition Print :: "cli_printer \<Rightarrow> string \<Rightarrow> (unit, streams) io" where
  "Print p v = (\<lambda>s. case print_value p v of
     Ok out \<Rightarrow> (Ok (), s\<lparr>st_stdout := st_stdout s @ out\<rparr>)
   | Err e \<Rightarrow> (Ok (), PrintError p e s)
   | Panic q \<Rightarrow> (Panic q, s))"

section \<open>The codec\<close>

text \<open>
  \<open>encoding/json\<close> and \<open>protojson\<close> are libraries: \<open>'j\<close> is a parsed JSON value. \<open>json_Carrier\<close> splits
  an object into the string \<open>txID\<close> and the raw text of \<open>tx\<close>.
\<close>

record 'j json_api =
  pj_Marshal :: "tx \<Rightarrow> bytes result"
  pj_Unmarshal :: "bytes \<Rightarrow> tx result"
  json_Parse :: "bytes \<Rightarrow> 'j result"
  json_MarshalIndent :: "string \<Rightarrow> 'j \<Rightarrow> bytes result"
  json_Carrier :: "bytes \<Rightarrow> (string \<times> bytes) result"

definition JSONCodec_Encode :: "'j json_api \<Rightarrow> string \<Rightarrow> tx option \<Rightarrow> bytes result" where
  "JSONCodec_Encode J txID t =
     (case t of None \<Rightarrow> Err (Error_New ''tx is nil'')
      | Some t \<Rightarrow>
          res_bind (pj_Marshal J t) (\<lambda>b.
          res_bind (json_Parse J b) (\<lambda>txJSON. json_MarshalIndent J txID txJSON)))"

definition JSONCodec_Decode :: "'j json_api \<Rightarrow> bytes \<Rightarrow> (string \<times> tx) result" where
  "JSONCodec_Decode J data =
     res_bind (json_Carrier J data) (\<lambda>(txID, raw).
       res_bind (pj_Unmarshal J raw) (\<lambda>t. Ok (txID, t)))"

definition ascii :: "string \<Rightarrow> bool" where
  "ascii s \<longleftrightarrow> list_all (\<lambda>c. of_char c < (128 :: nat)) s"

text \<open>
  JSON texts up to what the libraries agree on: the tree of a text, with the escapes of strings resolved
  and numbers as written. A value is plain if no object in it names a key twice, it has no numbers, of
  which \<open>encoding/json\<close> would keep a 64-bit approximation only, and it can be nested once more within the
  10000 levels that \<open>encoding/json\<close> takes. A protobuf message without 32-bit or floating point fields is
  written as a plain value. Two values are the same if they differ in the order of the members of objects
  only.
\<close>

datatype json_value =
    J_Null
  | J_Bool bool
  | J_Number string
  | J_String string
  | J_Array "json_value list"
  | J_Object "(string \<times> json_value) list"

fun plain_within :: "nat \<Rightarrow> json_value \<Rightarrow> bool" where
  "plain_within k (J_Number n) = False"
| "plain_within k (J_Array vs) = (0 < k \<and> (\<forall>v \<in> set vs. plain_within (k - 1) v))"
| "plain_within k (J_Object ms) =
     (0 < k \<and> distinct (map fst ms) \<and> (\<forall>m \<in> set ms. plain_within (k - 1) (snd m)))"
| "plain_within k v = True"

definition plain_json :: "json_value \<Rightarrow> bool" where
  "plain_json v \<longleftrightarrow> plain_within 9999 v"

inductive same_json :: "json_value \<Rightarrow> json_value \<Rightarrow> bool" where
  Same: "same_json v v"
| Array: "list_all2 same_json vs ws \<Longrightarrow> same_json (J_Array vs) (J_Array ws)"
| Object: "mset ms = mset ms' \<Longrightarrow> list_all2 (\<lambda>m n. fst m = fst n \<and> same_json (snd m) (snd n)) ms' ns \<Longrightarrow>
    same_json (J_Object ms) (J_Object ns)"
monos list_all2_mono

text \<open>
  The documented behaviour of the libraries; \<open>tree\<close> gives the value of a text. \<open>protojson\<close> reads back a
  message it wrote, and from any text of the same plain value the same message. What \<open>encoding/json\<close> read
  from a plain text is written by \<open>MarshalIndent\<close> as the same value. An object with the two members of the
  carrier is split into the string and the text of the other member. (A string that is not valid UTF-8
  would not survive; the law is stated for identifiers in ASCII.)
\<close>

definition json_laws :: "'j json_api \<Rightarrow> (bytes \<Rightarrow> json_value option) \<Rightarrow> bool" where
  "json_laws J tree \<longleftrightarrow>
     (\<forall>t b. None \<notin> set (endorsements t) \<longrightarrow> pj_Marshal J t = Ok b \<longrightarrow>
        pj_Unmarshal J b = Ok t \<and> (\<exists>ms. tree b = Some (J_Object ms) \<and> plain_json (J_Object ms)))
   \<and> (\<forall>b v raw v' t. tree b = Some v \<longrightarrow> plain_json v \<longrightarrow> tree raw = Some v' \<longrightarrow> same_json v v' \<longrightarrow>
        pj_Unmarshal J b = Ok t \<longrightarrow> pj_Unmarshal J raw = Ok t)
   \<and> (\<forall>b v j txID out. tree b = Some v \<longrightarrow> plain_json v \<longrightarrow> json_Parse J b = Ok j \<longrightarrow> ascii txID \<longrightarrow>
        json_MarshalIndent J txID j = Ok out \<longrightarrow>
        (\<exists>v'. same_json v v' \<and> (\<exists>ms. tree out = Some (J_Object ms)
           \<and> mset ms = {#(''txID'', J_String txID), (''tx'', v')#})))
   \<and> (\<forall>out ms txID v. tree out = Some (J_Object ms) \<longrightarrow> mset ms = {#(''txID'', J_String txID), (''tx'', v)#} \<longrightarrow>
        (\<exists>raw. json_Carrier J out = Ok (txID, raw) \<and> tree raw = Some v))"

text \<open>
  The contract of a transaction codec: what was encoded is decoded to itself. The commands only
  use a codec through this interface.
\<close>

locale tx_codec =
  fixes enc :: "string \<Rightarrow> tx option \<Rightarrow> bytes result"
    and dec :: "bytes \<Rightarrow> (string \<times> tx) result"
    and codable :: "string \<Rightarrow> tx \<Rightarrow> bool"
  assumes dec_enc: "codable txID t \<Longrightarrow> enc txID (Some t) = Ok data \<Longrightarrow> dec data = Ok (txID, t)"
    and enc_nil: "\<not> is_ok (enc txID None)"
begin

lemma enc_inj:
  "codable a t \<Longrightarrow> codable b u \<Longrightarrow> enc a (Some t) = Ok d \<Longrightarrow> enc b (Some u) = Ok d \<Longrightarrow> a = b \<and> t = u"
  using dec_enc [of a t d] dec_enc [of b u d] by simp

lemma decode_files:
  assumes "list_all2 (\<lambda>t d. codable txID t \<and> enc txID (Some t) = Ok d) ts ds"
  shows "res_mapM dec ds = Ok (map (\<lambda>t. (txID, t)) ts)"
  using assms by (induction rule: list_all2_induct) (auto dest!: dec_enc)

end

interpretation json: tx_codec "JSONCodec_Encode J" "JSONCodec_Decode J"
    "\<lambda>txID t. json_laws J tree \<and> ascii txID \<and> None \<notin> set (endorsements t)"
  for J :: "'j json_api" and tree :: "bytes \<Rightarrow> json_value option"
proof
  fix txID t data
  assume c: "json_laws J tree \<and> ascii txID \<and> None \<notin> set (endorsements t)"
    and e: "JSONCodec_Encode J txID (Some t) = Ok data"
  obtain b j where b: "pj_Marshal J t = Ok b" "json_Parse J b = Ok j" "json_MarshalIndent J txID j = Ok data"
    using e by (auto simp: JSONCodec_Encode_def res_simps)
  have law: "json_laws J tree" and txID: "ascii txID" and t: "None \<notin> set (endorsements t)" using c by auto
  note laws = law [unfolded json_laws_def]
  obtain v where v: "pj_Unmarshal J b = Ok t" "tree b = Some v" "plain_json v"
    using laws [THEN conjunct1] t b(1) by blast
  obtain v' ms where v': "same_json v v'" "tree data = Some (J_Object ms)"
    "mset ms = {#(''txID'', J_String txID), (''tx'', v')#}"
    using laws [THEN conjunct2, THEN conjunct2, THEN conjunct1] v(2,3) b(2,3) txID by metis
  obtain raw where raw: "json_Carrier J data = Ok (txID, raw)" "tree raw = Some v'"
    using laws [THEN conjunct2, THEN conjunct2, THEN conjunct2] v'(2,3) by metis
  have "pj_Unmarshal J raw = Ok t"
    using laws [THEN conjunct2, THEN conjunct1] v raw(2) v'(1) by metis
  with raw(1) show "JSONCodec_Decode J data = Ok (txID, t)" by (simp add: JSONCodec_Decode_def)
qed (simp add: JSONCodec_Encode_def)

section \<open>Properties\<close>

lemma ReadWithLimit_eq:
  assumes "0 \<le> maxBytes" "maxBytes < 2 ^ 63 - 1"
  shows "ReadWithLimit r maxBytes =
    (if int (length (rd_data r)) > maxBytes then Err (limit_error ''input'' maxBytes)
     else case rd_err r of Some e \<Rightarrow> Err e | None \<Rightarrow> Ok (rd_data r))"
proof -
  have "wrap_int64 (maxBytes + 1) = maxBytes + 1" using assms by (intro wrap_int64_id) auto
  then show ?thesis using assms(1)
    by (auto simp: ReadWithLimit_def read_limited_def split: option.split)
qed

text \<open>
  Reading with a limit is all or nothing: it returns exactly what the reader yields when that
  fits and the reader ends without an error, and never a truncated input; what is longer than the
  limit is an error, whatever the reader would do after it.
\<close>

theorem read_with_limit:
  assumes "0 \<le> maxBytes" "maxBytes < 2 ^ 63 - 1"
  shows "(ReadWithLimit r maxBytes = Ok d \<longleftrightarrow>
      d = rd_data r \<and> int (length d) \<le> maxBytes \<and> rd_err r = None)
    \<and> (int (length (rd_data r)) \<le> maxBytes
       \<or> ReadWithLimit r maxBytes = Err (limit_error ''input'' maxBytes))"
  using ReadWithLimit_eq [OF assms, of r] by (auto split: if_splits option.splits)

theorem read_with_limit_witness:
  "ReadWithLimit \<lparr>rd_data = ''abc'', rd_err = Some (Error_Ext ''broken'')\<rparr> 2 = Err (limit_error ''input'' 2)
   \<and> ReadWithLimit \<lparr>rd_data = ''abc'', rd_err = None\<rparr> 3 = Ok ''abc''"
  using read_with_limit [of 2 "\<lparr>rd_data = ''abc'', rd_err = Some (Error_Ext ''broken'')\<rparr>"]
    read_with_limit [of 3 "\<lparr>rd_data = ''abc'', rd_err = None\<rparr>" "''abc''"] by simp

end
