(* ===== verification/Cli.thy ===== *)
theory Cli
  imports App_Props Cli_IO
begin

text \<open>
  \<open>tools/fxconfig/internal/cli/v1\<close>: what the commands run (their \<open>RunE\<close> functions, after \<open>cobra\<close>
  has bound the flags). The world of a command is the application and the standard streams. The
  result of a command is the error it exits with.
\<close>

section \<open>The context of the commands\<close>

text \<open>
  \<open>ctx_COMMITTED\<close> and \<open>ctx_Status_name\<close> are the generated enumeration \<open>committerpb.Status\<close>; the map
  of names yields the empty string for a number that has none.
\<close>

record 'j cli_context =
  ctx_App :: app_env
  ctx_IO :: io_env
  ctx_Codec :: "'j json_api"
  ctx_Printer :: print_api
  ctx_COMMITTED :: int
  ctx_Status_name :: "32 word \<Rightarrow> string"

record cli =
  cli_app :: app
  cli_streams :: streams

definition on_app :: "('a, app) io \<Rightarrow> ('a, cli) io" where
  "on_app m = (\<lambda>c. case m (cli_app c) of (r, s) \<Rightarrow> (r, c\<lparr>cli_app := s\<rparr>))"

definition on_streams :: "('a, streams) io \<Rightarrow> ('a, cli) io" where
  "on_streams m = (\<lambda>c. case m (cli_streams c) of (r, s) \<Rightarrow> (r, c\<lparr>cli_streams := s\<rparr>))"

definition cli_Print :: "'j cli_context \<Rightarrow> string \<Rightarrow> (unit, cli) io" where
  "cli_Print ctx v = on_streams (Print (NewCLIPrinter (ctx_Printer ctx) FormatTable) v)"

section \<open>Finality\<close>

definition requireCommitted :: "'j cli_context \<Rightarrow> int \<Rightarrow> unit result" where
  "requireCommitted ctx status =
     (if status \<noteq> ctx_COMMITTED ctx
      then Err (Error_New (''transaction failed with status: '' @ ctx_Status_name ctx (word_of_int status)))
      else Ok ())"

definition print_status :: "'j cli_context \<Rightarrow> int \<Rightarrow> (unit, cli) io" where
  "print_status ctx status =
     cli_Print ctx (''Transaction status: '' @ ctx_Status_name ctx (word_of_int status))"

section \<open>The namespace commands\<close>

record namespaceDeployFlags =
  fl_endorse :: bool
  fl_submit :: bool
  fl_wait :: bool

definition flags_input :: "string \<Rightarrow> int \<Rightarrow> string \<Rightarrow> namespaceDeployFlags \<Rightarrow> deploy_input" where
  "flags_input name version policy flags =
     \<lparr>in_NsID = name, in_Version = version,
      in_Policy = policy_Set \<lparr>pc_Type = [], pc_MSP = None, pc_Threshold = None\<rparr> policy,
      in_Endorse = fl_endorse flags, in_Submit = fl_submit flags, in_Wait = fl_wait flags\<rparr>"

definition write_tx :: "'j cli_context \<Rightarrow> string \<Rightarrow> string \<Rightarrow> tx option \<Rightarrow> (unit, cli) io" where
  "write_tx ctx output txID t =
     io_bind (io_lift (JSONCodec_Encode (ctx_Codec ctx) txID t)) (\<lambda>data.
       on_streams (WriteOutput (ctx_IO ctx) output data))"

definition run_deploy :: "'j cli_context \<Rightarrow> deploy_input \<Rightarrow> string \<Rightarrow> (unit, cli) io option" where
  "run_deploy ctx input output =
     map_option (\<lambda>m. io_bind (on_app m) (\<lambda>(res, status).
       case res of
         None \<Rightarrow> io_bind (print_status ctx status) (\<lambda>_.
           if in_Wait input then io_lift (requireCommitted ctx status) else io_return ())
       | Some out \<Rightarrow> write_tx ctx output (out_TxID out) (out_Tx out)))
     (DeployNamespace (ctx_App ctx) input)"

definition ns_create_RunE ::
    "'j cli_context \<Rightarrow> string \<Rightarrow> string \<Rightarrow> namespaceDeployFlags \<Rightarrow> string \<Rightarrow> (unit, cli) io option" where
  "ns_create_RunE ctx policy output flags name = run_deploy ctx (flags_input name (-1) policy flags) output"

definition ns_update_RunE ::
    "'j cli_context \<Rightarrow> int \<Rightarrow> string \<Rightarrow> string \<Rightarrow> namespaceDeployFlags \<Rightarrow> string \<Rightarrow> (unit, cli) io option" where
  "ns_update_RunE ctx version policy output flags name =
     run_deploy ctx (flags_input name version policy flags) output"

definition list_line :: "nat \<Rightarrow> namespace_query_result \<Rightarrow> string" where
  "list_line i p = dec_of_nat i @ '') '' @ nq_NsID p @ '': version '' @ dec_of_int (nq_Version p)
     @ '' policy: '' @ hex_encode (nq_Policy p) @ [CHR 0x0A]"

fun print_lines :: "'j cli_context \<Rightarrow> nat \<Rightarrow> namespace_query_result list \<Rightarrow> (unit, cli) io" where
  "print_lines ctx i [] = io_return ()"
| "print_lines ctx i (p # ps) = io_bind (cli_Print ctx (list_line i p)) (\<lambda>_. print_lines ctx (Suc i) ps)"

definition ns_list_RunE :: "'j cli_context \<Rightarrow> (unit, cli) io" where
  "ns_list_RunE ctx =
     io_bind (on_app ListNamespaces) (\<lambda>result.
     io_bind (cli_Print ctx (''Installed namespaces ('' @ dec_of_nat (length result) @ '' total):'' @ [CHR 0x0A]))
     (\<lambda>_. print_lines ctx 0 result))"

section \<open>The transaction commands\<close>

definition read_tx :: "'j cli_context \<Rightarrow> string \<Rightarrow> (string \<times> tx, cli) io" where
  "read_tx ctx file =
     io_bind (on_streams (ResolveInput (ctx_IO ctx) file)) (\<lambda>input.
       io_lift (JSONCodec_Decode (ctx_Codec ctx) input))"

definition tx_endorse_RunE :: "'j cli_context \<Rightarrow> string \<Rightarrow> string \<Rightarrow> (unit, cli) io" where
  "tx_endorse_RunE ctx output file =
     io_bind (read_tx ctx file) (\<lambda>(txID, t).
     io_bind (on_app (EndorseTransaction (ctx_App ctx) txID (Some t))) (\<lambda>endorsedTx.
       write_tx ctx output txID (Some endorsedTx)))"

text \<open>\<open>resolveInputs\<close>: the loop keeps the first non-empty id and the set of the ids seen.\<close>

fun resolve_loop ::
    "'j cli_context \<Rightarrow> string \<Rightarrow> string set \<Rightarrow> tx option list \<Rightarrow> string list
      \<Rightarrow> (string \<times> string set \<times> tx option list, cli) io" where
  "resolve_loop ctx txID txIDs txs [] = io_return (txID, txIDs, txs)"
| "resolve_loop ctx txID txIDs txs (arg # args) =
     io_bind (read_tx ctx arg) (\<lambda>(i, t).
       resolve_loop ctx (if txID = [] then i else txID) (insert i txIDs) (txs @ [Some t]) args)"

definition resolveInputs :: "'j cli_context \<Rightarrow> string list \<Rightarrow> (string \<times> tx option list, cli) io" where
  "resolveInputs ctx args =
     io_bind (resolve_loop ctx [] {} [] args) (\<lambda>(txID, txIDs, txs).
       if card txIDs \<noteq> 1
       then io_fail (Error_New (''all transaction must have the same txID, found ''
              @ dec_of_nat (card txIDs) @ '' different txIDs''))
       else io_return (txID, txs))"

definition tx_merge_RunE :: "'j cli_context \<Rightarrow> string \<Rightarrow> string list \<Rightarrow> (unit, cli) io" where
  "tx_merge_RunE ctx output args =
     io_bind (resolveInputs ctx args) (\<lambda>(txID, txs).
     io_bind (on_app (MergeTransactions (ctx_App ctx) txs)) (\<lambda>mergedTx.
       write_tx ctx output txID (Some mergedTx)))"

definition tx_submit_RunE :: "'j cli_context \<Rightarrow> bool \<Rightarrow> string \<Rightarrow> (unit, cli) io" where
  "tx_submit_RunE ctx wait file =
     io_bind (read_tx ctx file) (\<lambda>(txID, t).
       if wait then
         io_bind (on_app (SubmitTransactionWithWait txID (Some t))) (\<lambda>status.
         io_bind (print_status ctx status) (\<lambda>_. io_lift (requireCommitted ctx status)))
       else on_app (SubmitTransaction txID (Some t)))"

end
