(* ===== verification/Cli_Props.thy ===== *)
theory Cli_Props
  imports Cli
begin

text \<open>
  What the commands guarantee: a command that waits exits without an error only for a committed
  transaction; the inputs of a merge all carry one transaction identifier; a merge of files writes
  the merge of the transactions they encode.
\<close>

section \<open>Lemmas\<close>

lemma on_app_Ok: "on_app m c = (r, c') \<longleftrightarrow> m (cli_app c) = (r, cli_app c') \<and> c' = c\<lparr>cli_app := cli_app c'\<rparr>"
  by (auto simp: on_app_def split: prod.splits)

lemma on_streams_Ok:
  "on_streams m c = (r, c') \<longleftrightarrow> m (cli_streams c) = (r, cli_streams c') \<and> c' = c\<lparr>cli_streams := cli_streams c'\<rparr>"
  by (auto simp: on_streams_def split: prod.splits)

lemma io_lift_Ok: "io_lift r w = (Ok y, w') \<longleftrightarrow> r = Ok y \<and> w' = w"
  by auto

lemma requireCommitted_Ok: "requireCommitted ctx status = Ok () \<longleftrightarrow> status = ctx_COMMITTED ctx"
  by (simp add: requireCommitted_def)

text \<open>Reading a named file neither depends on the streams nor changes them.\<close>

definition file_tx :: "'j cli_context \<Rightarrow> string \<Rightarrow> (string \<times> tx) result" where
  "file_tx ctx file =
     res_bind (fst (ResolveInput (ctx_IO ctx) file
       \<lparr>st_stdin = \<lparr>rd_data = [], rd_err = None\<rparr>, st_stdout = [], st_stderr = [], st_files = Map.empty\<rparr>))
       (JSONCodec_Decode (ctx_Codec ctx))"

lemma ResolveInput_file:
  "file \<noteq> [] \<Longrightarrow> \<exists>r. \<forall>s. ResolveInput E file s = (r, s)"
  by (cases "ioe_Open E (filepath_Clean file)") (auto simp: ResolveInput_def Let_def)

lemma read_tx_file:
  assumes "file \<noteq> []"
  shows "read_tx ctx file c = (file_tx ctx file, c)"
proof -
  obtain r where r: "\<And>s. ResolveInput (ctx_IO ctx) file s = (r, s)"
    using ResolveInput_file [OF assms] by blast
  then show ?thesis
    by (cases r) (simp_all add: read_tx_def file_tx_def on_streams_def io_bind_def)
qed

lemma resolve_loop_files:
  assumes "[] \<notin> set args"
  shows "resolve_loop ctx txID txIDs txs args c =
    (case res_mapM (file_tx ctx) args of
       Ok its \<Rightarrow> (Ok (fold (\<lambda>(i, _) d. if d = [] then i else d) its txID,
                   txIDs \<union> fst ` set its, txs @ map (Some \<circ> snd) its), c)
     | Err e \<Rightarrow> (Err e, c)
     | Panic p \<Rightarrow> (Panic p, c))"
  using assms
proof (induction args arbitrary: txID txIDs txs)
  case (Cons arg args)
  then have r: "read_tx ctx arg c = (file_tx ctx arg, c)" by (intro read_tx_file) auto
  show ?case
  proof (cases "file_tx ctx arg")
    case (Ok it)
    obtain i t where it: "it = (i, t)" by (cases it)
    show ?thesis
      using Cons r Ok it by (cases "res_mapM (file_tx ctx) args") (auto simp: io_bind_def)
  qed (use r in \<open>simp_all add: io_bind_def\<close>)
qed simp

lemma fold_first_id:
  assumes "\<And>i t. (i, t) \<in> set its \<Longrightarrow> i = txID" "its \<noteq> []"
  shows "fold (\<lambda>(i, _) d. if d = [] then i else d) its [] = txID"
proof -
  have "fold (\<lambda>(i, _) d. if d = [] then i else d) its d = (if d = [] \<and> its \<noteq> [] then txID else d)" for d
    using assms(1)
  proof (induction its arbitrary: d)
    case (Cons x its)
    obtain t where x: "x = (txID, t)" using Cons.prems by (cases x) auto
    have "fold (\<lambda>(i, _) d. if d = [] then i else d) its e = (if e = [] \<and> its \<noteq> [] then txID else e)" for e
      by (rule Cons.IH) (use Cons.prems in auto)
    then show ?case by (simp add: x)
  qed simp
  then show ?thesis using assms(2) by simp
qed

lemma card_one_image: "finite A \<Longrightarrow> card (f ` A) = 1 \<longleftrightarrow> (\<exists>y. A \<noteq> {} \<and> (\<forall>x \<in> A. f x = y))"
  by (auto simp: card_1_singleton_iff)

text \<open>A file that the command can read completely.\<close>

definition readable :: "io_env \<Rightarrow> string \<Rightarrow> bytes \<Rightarrow> bool" where
  "readable E file d \<longleftrightarrow> file \<noteq> [] \<and> \<not> isInputFromPipe E
     \<and> \<not> strings_Contains (filepath_Clean file) ''..''
     \<and> ioe_Open E (filepath_Clean file) = Ok \<lparr>rd_data = d, rd_err = None\<rparr>
     \<and> (\<forall>n. ioe_Size E (filepath_Clean file) = Some n \<longrightarrow> n \<le> defaultMaxInputSize)
     \<and> int (length d) \<le> defaultMaxInputSize"

lemma ResolveInput_readable:
  assumes "readable E file d"
  shows "ResolveInput E file s = (Ok d, s)"
proof -
  have "ReadWithLimit \<lparr>rd_data = d, rd_err = None\<rparr> defaultMaxInputSize = Ok d"
    using assms by (subst ReadWithLimit_eq) (auto simp: readable_def defaultMaxInputSize_def)
  then show ?thesis using assms
    by (auto simp: ResolveInput_def readable_def Let_def split: option.split)
qed

text \<open>The files hold the encodings of the transactions under one identifier.\<close>

definition files_hold :: "'j cli_context \<Rightarrow> string \<Rightarrow> string list \<Rightarrow> tx list \<Rightarrow> bool" where
  "files_hold ctx txID files ts \<longleftrightarrow>
     list_all2 (\<lambda>file t. None \<notin> set (endorsements t) \<and>
       (\<exists>d. JSONCodec_Encode (ctx_Codec ctx) txID (Some t) = Ok d \<and> readable (ctx_IO ctx) file d)) files ts"

lemma file_tx_readable:
  assumes "json_laws (ctx_Codec ctx) tree" "ascii txID" "None \<notin> set (endorsements t)"
    and "JSONCodec_Encode (ctx_Codec ctx) txID (Some t) = Ok d" "readable (ctx_IO ctx) file d"
  shows "file_tx ctx file = Ok (txID, t)"
  using assms json.dec_enc [of "ctx_Codec ctx" tree txID t d]
  by (simp add: file_tx_def ResolveInput_readable)

lemma resolveInputs_files:
  assumes "json_laws (ctx_Codec ctx) tree" "ascii txID" "files_hold ctx txID files ts" "files \<noteq> []"
  shows "resolveInputs ctx files c = (Ok (txID, map Some ts), c)"
proof -
  have l: "list_all2 (\<lambda>f it. file_tx ctx f = Ok it) files (map (\<lambda>t. (txID, t)) ts)"
    using assms(3) unfolding files_hold_def list_all2_map2
    by (rule list_all2_mono) (auto intro: file_tx_readable [OF assms(1,2)])
  have ne: "[] \<notin> set files"
    using assms(3) by (auto simp: files_hold_def readable_def list_all2_conv_all_nth in_set_conv_nth)
  have "ts \<noteq> []" using l assms(4) by auto
  moreover have "fold (\<lambda>(i, _) d. if d = [] then i else d) (map (\<lambda>t. (txID, t)) ts) [] = txID"
    using \<open>ts \<noteq> []\<close> by (intro fold_first_id) auto
  moreover have "fst ` set (map (\<lambda>t. (txID, t)) ts) = {txID}"
    using \<open>ts \<noteq> []\<close> by (cases ts) (simp_all add: image_image image_constant_conv)
  moreover have "map (Some \<circ> snd) (map (\<lambda>t. (txID, t)) ts) = map Some ts" by simp
  moreover have "res_mapM (file_tx ctx) files = Ok (map (\<lambda>t. (txID, t)) ts)"
    using l by (simp only: res_mapM_Ok_iff)
  ultimately show ?thesis
    using resolve_loop_files [OF ne, of ctx "[]" "{}" "[]" c]
    by (simp only: resolveInputs_def io_bind_def) simp
qed

section \<open>A sample context\<close>

text \<open>
  A toy serialisation of three transactions, in which an object is the identifier with a dot before
  each character, a hash sign and the member; the files \<open>a\<close> and \<open>b\<close> hold two of the transactions.
\<close>

fun undot :: "string \<Rightarrow> string \<times> string" where
  "undot (d # c # r) = (if d = CHR ''.'' then (c # fst (undot r), snd (undot r)) else ([], c # r))"
| "undot [d] = ([], [])"
| "undot [] = ([], [])"

definition dotted :: "string \<Rightarrow> string" where
  "dotted s = concat (map (\<lambda>c. [CHR ''.'', c]) s)"

lemma undot_dotted [simp]: "undot (dotted s @ CHR ''#'' # r) = (s, r)"
  by (induction s) (cases r; simp add: dotted_def)+

definition sample_txs :: "(bytes \<times> tx) list" where
  "sample_txs = [(''0'', sample_tx [''ns''] [[''A'']]), (''1'', sample_tx [''ns''] [[''B'']]),
     (''2'', sample_tx [''ns''] [[''A'', ''B'']])]"

definition sample_json :: "bytes json_api" where
  "sample_json = \<lparr>
     pj_Marshal = (\<lambda>t. case find (\<lambda>(b, u). u = t) sample_txs of None \<Rightarrow> Err (Error_Ext ''unknown'') | Some (b, _) \<Rightarrow> Ok b),
     pj_Unmarshal = (\<lambda>b. case map_of sample_txs b of None \<Rightarrow> Err (Error_Ext ''unknown'') | Some t \<Rightarrow> Ok t),
     json_Parse = (\<lambda>b. if b \<in> {''0'', ''1'', ''2''} then Ok b else Err (Error_Ext ''syntax'')),
     json_MarshalIndent = (\<lambda>txID j. Ok (dotted txID @ CHR ''#'' # j)),
     json_Carrier = (\<lambda>d. Ok (undot d))\<rparr>"

text \<open>The values of its texts: an object for each transaction, and the object that carries one.\<close>

definition sample_value :: "bytes \<Rightarrow> json_value" where
  "sample_value b = J_Object [(''namespaces'', J_String b)]"

definition sample_tree :: "bytes \<Rightarrow> json_value option" where
  "sample_tree d =
     (if d \<in> {''0'', ''1'', ''2''} then Some (sample_value d)
      else let r = snd (undot d) in
        if d = dotted (fst (undot d)) @ CHR ''#'' # r \<and> r \<in> {''0'', ''1'', ''2''}
        then Some (J_Object [(''txID'', J_String (fst (undot d))), (''tx'', sample_value r)]) else None)"

inductive_cases same_jsonE: "same_json (J_String s) w" "same_json (J_Object ms) w"

lemma same_sample_value: "same_json (sample_value b) w \<Longrightarrow> w = sample_value b"
  by (auto simp: sample_value_def list_all2_Cons1 elim!: same_jsonE)

lemma sample_tree_value: "b \<in> {''0'', ''1'', ''2''} \<Longrightarrow> sample_tree b = Some (sample_value b)"
  by (simp add: sample_tree_def)

lemma sample_tree_carrier:
  assumes "b \<in> {''0'', ''1'', ''2''}"
  shows "sample_tree (dotted s @ CHR ''#'' # b) = Some (J_Object [(''txID'', J_String s), (''tx'', sample_value b)])"
proof -
  have "dotted s @ CHR ''#'' # b \<notin> {''0'', ''1'', ''2''}" by (cases s) (simp_all add: dotted_def)
  then show ?thesis using assms by (simp add: sample_tree_def)
qed

lemma sample_tree_Some:
  assumes "sample_tree d = Some v"
  shows "d \<in> {''0'', ''1'', ''2''} \<and> v = sample_value d
    \<or> (\<exists>s r. undot d = (s, r) \<and> r \<in> {''0'', ''1'', ''2''} \<and> v = J_Object [(''txID'', J_String s), (''tx'', sample_value r)])"
  using assms by (cases "undot d") (auto simp: sample_tree_def Let_def split: if_splits)

lemma sample_json_laws: "json_laws sample_json sample_tree"
proof -
  have read: "b \<in> {''0'', ''1'', ''2''}" if "pj_Unmarshal sample_json b = Ok t" for b t
    using that by (auto simp: sample_json_def sample_txs_def split: option.splits if_splits)
  have written: "pj_Unmarshal sample_json b = Ok t" if "pj_Marshal sample_json t = Ok b" for b t
    using that by (auto simp: sample_json_def sample_txs_def split: option.splits if_splits)
  have val: "v = sample_value b" if "b \<in> {''0'', ''1'', ''2''}" "sample_tree b = Some v" for b v
    using that sample_tree_value by auto
  have inj: "raw = b" if "sample_tree raw = Some (sample_value b)" for raw b
    using sample_tree_Some [OF that] by (auto simp: sample_value_def)
  show ?thesis
    unfolding json_laws_def
  proof (intro conjI allI impI)
    fix t b assume "pj_Marshal sample_json t = Ok b"
    note r = written [OF this]
    show "pj_Unmarshal sample_json b = Ok t" by (rule r)
    show "\<exists>ms. sample_tree b = Some (J_Object ms) \<and> plain_json (J_Object ms)"
      using sample_tree_value [OF read [OF r]] by (simp add: sample_value_def plain_json_def)
  next
    fix b v raw v' t
    assume "sample_tree b = Some v" "sample_tree raw = Some v'" "same_json v v'" and r: "pj_Unmarshal sample_json b = Ok t"
    then have "sample_tree raw = Some (sample_value b)" using val [OF read [OF r]] same_sample_value by blast
    then show "pj_Unmarshal sample_json raw = Ok t" using inj r by blast
  next
    fix b v j txID out
    assume v: "sample_tree b = Some v" and j: "json_Parse sample_json b = Ok j"
      and out: "json_MarshalIndent sample_json txID j = Ok out"
    have b: "b \<in> {''0'', ''1'', ''2''}" "out = dotted txID @ CHR ''#'' # b"
      using j out by (auto simp: sample_json_def split: if_splits)
    then show "\<exists>v'. same_json v v' \<and> (\<exists>ms. sample_tree out = Some (J_Object ms)
        \<and> mset ms = {#(''txID'', J_String txID), (''tx'', v')#})"
      using val [OF b(1) v] sample_tree_carrier [OF b(1), of txID]
      by (intro exI [of _ v] conjI same_json.Same exI [of _ "[(''txID'', J_String txID), (''tx'', v)]"]) simp_all
  next
    fix out ms txID v
    assume t: "sample_tree out = Some (J_Object ms)" and m: "mset ms = {#(''txID'', J_String txID), (''tx'', v)#}"
    have "size (mset ms) = 2" "set ms = {(''txID'', J_String txID), (''tx'', v)}"
      unfolding m by (simp_all flip: set_mset_mset add: m)
    then obtain s r where "undot out = (s, r)" "r \<in> {''0'', ''1'', ''2''}" "s = txID" "v = sample_value r"
      using sample_tree_Some [OF t] by (auto simp: sample_value_def doubleton_eq_iff)
    then show "\<exists>raw. json_Carrier sample_json out = Ok (txID, raw) \<and> sample_tree raw = Some v"
      using sample_tree_value by (auto simp: sample_json_def)
  qed
qed

definition sample_io :: io_env where
  "sample_io = \<lparr>ioe_StdinMode = Ok 0x200000,
     ioe_Open = (\<lambda>p. if p = ''a'' then Ok \<lparr>rd_data = ''.T#0'', rd_err = None\<rparr>
       else if p = ''b'' then Ok \<lparr>rd_data = ''.T#1'', rd_err = None\<rparr> else Err (Error_Ext ''no such file'')),
     ioe_Size = (\<lambda>p. None), ioe_WriteFile = (\<lambda>p. None)\<rparr>"

definition sample_print :: print_api where
  "sample_print = \<lparr>json_Encode = Ok, json_EncodeError = (\<lambda>e. []), yaml_Marshal = Ok, error_Text = (\<lambda>e. [])\<rparr>"

definition sample_ctx :: "bytes cli_context" where
  "sample_ctx = \<lparr>ctx_App = sample_app_env, ctx_IO = sample_io, ctx_Codec = sample_json,
     ctx_Printer = sample_print, ctx_COMMITTED = 7,
     ctx_Status_name = (\<lambda>w. if w = 7 then ''COMMITTED'' else [])\<rparr>"

definition sample_cli :: cli where
  "sample_cli = \<lparr>cli_app = sample_app, cli_streams =
     \<lparr>st_stdin = \<lparr>rd_data = [], rd_err = None\<rparr>, st_stdout = [], st_stderr = [], st_files = Map.empty\<rparr>\<rparr>"

lemma sample_files_hold:
  "files_hold sample_ctx ''T'' [''a'', ''b''] [sample_tx [''ns''] [[''A'']], sample_tx [''ns''] [[''B'']]]"
proof -
  have "JSONCodec_Encode sample_json ''T'' (Some (sample_tx [''ns''] [[''A'']])) = Ok ''.T#0''"
    "JSONCodec_Encode sample_json ''T'' (Some (sample_tx [''ns''] [[''B'']])) = Ok ''.T#1''"
    by code_simp+
  moreover have "filepath_Clean ''a'' = ''a''" "filepath_Clean ''b'' = ''b''" by code_simp+
  moreover have "None \<notin> set (endorsements (sample_tx [''ns''] [[c]]))" for c
    by (simp add: sample_tx_def)
  ultimately show ?thesis
    by (auto simp: files_hold_def sample_ctx_def readable_def sample_io_def defaultMaxInputSize_def
        strings_HasPrefix_def)
qed

text \<open>Files that all carry one identifier, and the list that decoding them one after the other yields.\<close>

lemma same_id_files:
  "(\<exists>ts. txs = map Some ts \<and> list_all2 (\<lambda>arg t. file_tx ctx arg = Ok (i, t)) args ts) \<longleftrightarrow>
   (\<exists>its. res_mapM (file_tx ctx) args = Ok its \<and> (\<forall>x \<in> set its. fst x = i) \<and> txs = map (Some \<circ> snd) its)"
proof
  assume "\<exists>ts. txs = map Some ts \<and> list_all2 (\<lambda>arg t. file_tx ctx arg = Ok (i, t)) args ts"
  then obtain ts where ts: "txs = map Some ts" "list_all2 (\<lambda>arg t. file_tx ctx arg = Ok (i, t)) args ts" by blast
  then have "res_mapM (file_tx ctx) args = Ok (map (\<lambda>t. (i, t)) ts)"
    by (simp add: res_mapM_Ok_iff list_all2_map2)
  then show "\<exists>its. res_mapM (file_tx ctx) args = Ok its \<and> (\<forall>x \<in> set its. fst x = i) \<and> txs = map (Some \<circ> snd) its"
    using ts(1) by auto
next
  assume "\<exists>its. res_mapM (file_tx ctx) args = Ok its \<and> (\<forall>x \<in> set its. fst x = i) \<and> txs = map (Some \<circ> snd) its"
  then obtain its where its: "list_all2 (\<lambda>arg it. file_tx ctx arg = Ok it) args its"
    "\<forall>x \<in> set its. fst x = i" "txs = map (Some \<circ> snd) its"
    by (auto simp: res_mapM_Ok_iff)
  have "list_all2 (\<lambda>arg t. file_tx ctx arg = Ok (i, t)) args (map snd its)"
    using its(1,2) by (auto simp: list_all2_map2 list_all2_conv_all_nth) (metis nth_mem prod.collapse)
  then show "\<exists>ts. txs = map Some ts \<and> list_all2 (\<lambda>arg t. file_tx ctx arg = Ok (i, t)) args ts"
    using its(3) by (intro exI [of _ "map snd its"]) simp
qed

section \<open>Properties\<close>

text \<open>
  The files of a merge are accepted exactly when there is at least one, each can be read and
  decoded, and all carry the same transaction identifier; the transactions are passed on in the
  order of the arguments, with that identifier, and no stream is touched.
\<close>

theorem resolve_inputs:
  assumes "[] \<notin> set args"
  shows "resolveInputs ctx args c = (Ok (txID, txs), c') \<longleftrightarrow>
    c' = c \<and> args \<noteq> [] \<and>
    (\<exists>ts. txs = map Some ts \<and> list_all2 (\<lambda>arg t. file_tx ctx arg = Ok (txID, t)) args ts)"
proof (cases "res_mapM (file_tx ctx) args")
  case (Ok its)
  have len: "its = [] \<longleftrightarrow> args = []" using Ok by (auto simp: res_mapM_Ok_iff)
  have loop: "resolve_loop ctx [] {} [] args c =
      (Ok (fold (\<lambda>(i, _) d. if d = [] then i else d) its [], fst ` set its, map (Some \<circ> snd) its), c)"
    using resolve_loop_files [OF assms, of ctx "[]" "{}" "[]" c] Ok by simp
  have one: "card (fst ` set its) = 1 \<longleftrightarrow> its \<noteq> [] \<and> (\<exists>i. \<forall>x \<in> set its. fst x = i)"
    by (subst card_one_image) auto
  show ?thesis
  proof (cases "card (fst ` set its) = 1")
    case True
    then obtain i where i: "its \<noteq> []" "\<forall>x \<in> set its. fst x = i" using one by blast
    then have "fold (\<lambda>(i, _) d. if d = [] then i else d) its [] = i" by (intro fold_first_id) auto
    then have "resolveInputs ctx args c = (Ok (i, map (Some \<circ> snd) its), c)"
      using loop True by (simp add: resolveInputs_def io_bind_def)
    moreover have "(\<forall>x \<in> set its. fst x = txID) \<longleftrightarrow> txID = i" using i by (cases its) auto
    ultimately show ?thesis using Ok len i(1) by (auto simp: same_id_files)
  next
    case False
    then have "\<not> (its \<noteq> [] \<and> (\<forall>x \<in> set its. fst x = txID))" using one by blast
    moreover have "fst (resolveInputs ctx args c) \<noteq> Ok (txID, txs)"
      using loop False by (simp add: resolveInputs_def io_bind_def)
    ultimately show ?thesis using Ok len by (auto simp: same_id_files)
  qed
qed (use resolve_loop_files [OF assms, of ctx "[]" "{}" "[]" c] in
  \<open>auto simp: same_id_files resolveInputs_def io_bind_def\<close>)

theorem resolve_inputs_witness:
  "resolveInputs sample_ctx [''a'', ''b''] sample_cli =
     (Ok (''T'', [Some (sample_tx [''ns''] [[''A'']]), Some (sample_tx [''ns''] [[''B'']])]), sample_cli)"
proof -
  have "file_tx sample_ctx ''a'' = Ok (''T'', sample_tx [''ns''] [[''A'']])"
    "file_tx sample_ctx ''b'' = Ok (''T'', sample_tx [''ns''] [[''B'']])" by code_simp+
  then have "list_all2 (\<lambda>arg t. file_tx sample_ctx arg = Ok (''T'', t)) [''a'', ''b'']
      [sample_tx [''ns''] [[''A'']], sample_tx [''ns''] [[''B'']]]" by simp
  then show ?thesis
    by (subst resolve_inputs) (auto intro!: exI [of _ "[sample_tx [''ns''] [[''A'']], sample_tx [''ns''] [[''B'']]]"])
qed

text \<open>
  C24: merging files that the command can read and that hold the JSON encodings of transactions under one
  identifier merges exactly these transactions: the command writes the encoding of their merge under the same
  identifier to its output, or exits with the error of the merge without writing anything.
\<close>

theorem merge_command:
  assumes "json_laws (ctx_Codec ctx) tree" "ascii txID" "files_hold ctx txID files ts" "files \<noteq> []"
  shows "tx_merge_RunE ctx output files c =
    (case Merge (ae_proto (ctx_App ctx)) (map Some ts) of
       Ok m \<Rightarrow> write_tx ctx output txID (Some m) c
     | Err e \<Rightarrow> (Err e, c)
     | Panic p \<Rightarrow> (Panic p, c))"
  by (simp add: tx_merge_RunE_def resolveInputs_files [OF assms] io_bind_def
      on_app_def MergeTransactions_def split: result.split)

theorem merge_command_witness:
  "tx_merge_RunE sample_ctx [] [''a'', ''b''] sample_cli =
     write_tx sample_ctx [] ''T'' (Some (sample_tx [''ns''] [[''A'', ''B'']])) sample_cli"
proof -
  have m: "Merge (ae_proto (ctx_App sample_ctx)) (map Some [sample_tx [''ns''] [[''A'']], sample_tx [''ns''] [[''B'']]])
      = Ok (sample_tx [''ns''] [[''A'', ''B'']])"
    by (simp add: sample_ctx_def sample_app_env_def merge_eval)
  have laws: "json_laws (ctx_Codec sample_ctx) sample_tree" using sample_json_laws by (simp add: sample_ctx_def)
  have "ascii ''T''" by code_simp
  from merge_command [OF laws this sample_files_hold, of "[]" sample_cli] show ?thesis using m by simp
qed

text \<open>
  A command that waits exits without an error only for a committed transaction. For the
  submission of a file that is exactly when the file decodes and the status reported for its
  transaction is COMMITTED; for the creation or the update of a namespace that is to be endorsed,
  exactly when the deployment reports a submission with status COMMITTED.
\<close>

theorem wait_means_committed:
  assumes "in_Endorse input" "in_Wait input" "run_deploy ctx input output = Some m"
  shows "(is_ok (fst (tx_submit_RunE ctx True file c)) \<longleftrightarrow>
      (\<exists>txID t c1 s'. read_tx ctx file c = (Ok (txID, t), c1)
         \<and> SubmitTransactionWithWait txID (Some t) (cli_app c1) = (Ok (ctx_COMMITTED ctx), s')))
    \<and> (is_ok (fst (m c)) \<longleftrightarrow>
      (\<exists>d s'. DeployNamespace (ctx_App ctx) input = Some d
         \<and> d (cli_app c) = (Ok (None, ctx_COMMITTED ctx), s')))"
proof -
  have after: "is_ok (fst (io_bind (print_status ctx st) (\<lambda>_. io_lift (requireCommitted ctx st)) c'))
      \<longleftrightarrow> st = ctx_COMMITTED ctx" for st c'
    by (simp add: print_status_def cli_Print_def Print_def print_value_def NewCLIPrinter_def on_streams_def io_bind_def
        requireCommitted_def)
  have sub: "is_ok (fst (tx_submit_RunE ctx True file c)) \<longleftrightarrow>
      (\<exists>txID t c1 s'. read_tx ctx file c = (Ok (txID, t), c1)
         \<and> SubmitTransactionWithWait txID (Some t) (cli_app c1) = (Ok (ctx_COMMITTED ctx), s'))"
  proof (cases "read_tx ctx file c")
    case (Pair q c1)
    show ?thesis
    proof (cases q)
      case (Ok it)
      obtain i t where it: "it = (i, t)" by (cases it)
      obtain r s' where r: "SubmitTransactionWithWait i (Some t) (cli_app c1) = (r, s')" by fastforce
      show ?thesis using Pair Ok it r after
        by (cases r) (auto simp: tx_submit_RunE_def io_bind_Ok on_app_def)
    qed (use Pair in \<open>simp_all add: tx_submit_RunE_def\<close>)
  qed
  obtain d where d: "DeployNamespace (ctx_App ctx) input = Some d"
    and m: "m = io_bind (on_app d) (\<lambda>(res, status).
       case res of
         None \<Rightarrow> io_bind (print_status ctx status) (\<lambda>_.
           if in_Wait input then io_lift (requireCommitted ctx status) else io_return ())
       | Some out \<Rightarrow> write_tx ctx output (out_TxID out) (out_Tx out))"
    using assms(3) by (auto simp: run_deploy_def)
  obtain r s' where r: "d (cli_app c) = (r, s')" by fastforce
  have dep: "is_ok (fst (m c)) \<longleftrightarrow>
      (\<exists>d s'. DeployNamespace (ctx_App ctx) input = Some d
         \<and> d (cli_app c) = (Ok (None, ctx_COMMITTED ctx), s'))"
  proof (cases r)
    case (Ok p)
    obtain out st where p: "p = (out, st)" by (cases p)
    have "out = None" using deploy_Ok_None [OF d, of "cli_app c" out st s'] r Ok p assms(1,2) by simp
    then show ?thesis using d r Ok p m after assms(2) by (simp add: on_app_def io_bind_Ok)
  qed (use d r m in \<open>simp_all add: on_app_def\<close>)
  show ?thesis using sub dep by blast
qed

theorem wait_means_committed_witness:
  "\<exists>m. run_deploy sample_ctx (sample_input True False True) [] = Some m \<and> is_ok (fst (m sample_cli))
     \<and> is_ok (fst (tx_submit_RunE sample_ctx True ''a'' sample_cli))"
proof -
  obtain d s' where d: "DeployNamespace sample_app_env (sample_input True False True) = Some d"
    "d sample_app = (Ok (None, 7), s')"
    using sample_deploy_wait by (auto simp: sample_deploy_def split: option.splits prod.splits)
  obtain m where m: "run_deploy sample_ctx (sample_input True False True) [] = Some m"
    using d(1) by (simp add: run_deploy_def sample_ctx_def)
  have sub: "is_ok (fst (tx_submit_RunE sample_ctx True ''a'' sample_cli))" by code_simp
  have "in_Endorse (sample_input True False True)" "in_Wait (sample_input True False True)"
    by (simp_all add: sample_input_def)
  from wait_means_committed [OF this m, of "''a''" sample_cli] have "is_ok (fst (m sample_cli))"
    using d by (simp add: sample_ctx_def sample_cli_def)
  then show ?thesis using m sub by blast
qed

end
