(* ===== verification/Workflow.thy ===== *)
theory Workflow
  imports Cli_Props
begin

text \<open>
  The multi-organisation workflow that \<open>tx.go\<close> documents, across the transaction package: two
  organisations endorse the same transaction independently, and the results are merged.
\<close>

text \<open>Endorsing a transaction that carries no endorsements yet.\<close>

lemma endorse_fresh:
  assumes "proto_laws P" "endorsements t = []" "Endorse P s txID (Some t) w = (Ok t', w')"
  shows "\<exists>sid. signer_identity P s = Ok sid \<and> namespaces t' = namespaces t
    \<and> length (endorsements t') = length (namespaces t)
    \<and> (\<forall>k < length (namespaces t). \<exists>sig. signature_on P s txID (namespaces t ! k) sig
        \<and> endorsements t' ! k = Some [\<lparr>ewi_endorsement = sig, ewi_identity = Some sid\<rparr>])"
proof -
  have n: "None \<notin> set (endorsements t)" using assms(2) by simp
  obtain sid es where sid: "signer_identity P s = Ok sid"
    and es: "endorse_from P s txID sid 0 (namespaces t) (endorsement_slots t) w = (Ok es, w')"
    and t': "t' = t\<lparr>endorsements := es\<rparr>"
    using assms(3) unfolding Endorse_unfold [OF assms(1) n]
    by (auto simp: io_defs split: prod.splits result.splits)
  have sl: "endorsement_slots t = replicate (length (namespaces t)) None"
    using assms(2) by (simp add: endorsement_slots_def)
  show ?thesis using sid t' endorse_from_Ok [OF es] by (auto simp: sl endorsed_with_def)
qed

lemma merge_two_eq:
  assumes "proto_laws P" "namespaces t1 = nss" "namespaces t2 = nss"
    and "length (endorsements t1) = length nss" "length (endorsements t2) = length nss"
    and "\<And>k. k < length nss \<Longrightarrow> endorsements t1 ! k = Some [e1 k] \<and> endorsements t2 ! k = Some [e2 k]"
    and "\<And>k. ewi_identity (e1 k) = Some i1 \<and> ewi_identity (e2 k) = Some i2" "msp_id i1 < msp_id i2"
  shows "Merge P [Some t1, Some t2] = Ok (t1\<lparr>endorsements := map (\<lambda>k. Some [e1 k, e2 k]) [0..<length nss]\<rparr>)"
    and "Merge P [Some t2, Some t1] = Ok (t2\<lparr>endorsements := map (\<lambda>k. Some [e1 k, e2 k]) [0..<length nss]\<rparr>)"
proof -
  have one: "every_entry_endorsed (Some t1)" "every_entry_endorsed (Some t2)"
    using assms(4-6) by (auto simp: every_entry_endorsed_def in_set_conv_nth)
  have msp: "ewi_GetMspId (e1 k) = msp_id i1" "ewi_GetMspId (e2 k) = msp_id i2" for k
    using assms(7) [of k] by (simp_all add: ewi_GetMspId_def)
  have col: "endorsement_column k [Some t1, Some t2] = [e1 k, e2 k]"
    "endorsement_column k [Some t2, Some t1] = [e2 k, e1 k]" if "k < length nss" for k
    using that assms(4-6) by (simp_all add: endorsement_column_def)
  have merged: "merged_column k [Some t1, Some t2] = [e1 k, e2 k]"
    "merged_column k [Some t2, Some t1] = [e1 k, e2 k]" if "k < length nss" for k
    using col [OF that] msp [of k] assms(8) by (auto simp: merged_column_def sort_key_def)
  have v: "merge_inputs_valid [Some t1, Some t2]" "merge_inputs_valid [Some t2, Some t1]"
    using one assms(2,3) by (simp_all add: merge_inputs_valid_def)
  have o: "\<not> merge_overflows [Some t1, Some t2]" "\<not> merge_overflows [Some t2, Some t1]"
    using assms(2-5) by (simp_all add: merge_overflows_def)
  have i: "\<not> sort_panics (dedup_by ewi_GetMspId {} [e1 k, e2 k])" "\<not> sort_panics (dedup_by ewi_GetMspId {} [e2 k, e1 k])" for k
    using assms(7) [of k] by (auto simp: sort_panics_def)
  have mi: "\<not> merge_misses_identity [Some t1, Some t2]" "\<not> merge_misses_identity [Some t2, Some t1]"
    using i col assms(2,3) by (auto simp: merge_misses_identity_def)
  show "Merge P [Some t1, Some t2] = Ok (t1\<lparr>endorsements := map (\<lambda>k. Some [e1 k, e2 k]) [0..<length nss]\<rparr>)"
    using Merge_valid [OF assms(1) v(1), of t1] o mi merged assms(2) by simp
  show "Merge P [Some t2, Some t1] = Ok (t2\<lparr>endorsements := map (\<lambda>k. Some [e1 k, e2 k]) [0..<length nss]\<rparr>)"
    using Merge_valid [OF assms(1) v(2), of t2] o mi merged assms(3) by simp
qed

text \<open>
  C2: when two signers of different MSPs endorse the same unendorsed transaction independently,
  their results merge, in either order, to transactions with the original namespaces and the same
  endorsements: every namespace carries exactly the two endorsements, ordered by MSP identifier,
  each with its signer's identity and a signature by that signer over that namespace and the
  transaction identifier.
\<close>

theorem multi_org_endorsement:
  assumes "proto_laws P" "endorsements t = []"
    and "Endorse P s1 txID (Some t) w1 = (Ok t1, w1')" "Endorse P s2 txID (Some t) w2 = (Ok t2, w2')"
    and "signer_identity P s1 = Ok i1" "signer_identity P s2 = Ok i2" "msp_id i1 < msp_id i2"
  shows "\<exists>m m'. Merge P [Some t1, Some t2] = Ok m \<and> Merge P [Some t2, Some t1] = Ok m'
    \<and> namespaces m = namespaces t \<and> namespaces m' = namespaces t \<and> endorsements m' = endorsements m
    \<and> length (endorsements m) = length (namespaces t)
    \<and> (\<forall>k < length (namespaces t). \<exists>sig1 sig2.
        signature_on P s1 txID (namespaces t ! k) sig1 \<and> signature_on P s2 txID (namespaces t ! k) sig2
        \<and> endorsements m ! k = Some [\<lparr>ewi_endorsement = sig1, ewi_identity = Some i1\<rparr>,
                                       \<lparr>ewi_endorsement = sig2, ewi_identity = Some i2\<rparr>])"
proof -
  let ?n = "length (namespaces t)"
  let ?e = "\<lambda>i sig. \<lparr>ewi_endorsement = sig, ewi_identity = Some i\<rparr>"
  have f1: "namespaces t1 = namespaces t" "length (endorsements t1) = ?n"
    "\<forall>k < ?n. \<exists>sig. signature_on P s1 txID (namespaces t ! k) sig \<and> endorsements t1 ! k = Some [?e i1 sig]"
    using endorse_fresh [OF assms(1,2,3)] assms(5) by auto
  have f2: "namespaces t2 = namespaces t" "length (endorsements t2) = ?n"
    "\<forall>k < ?n. \<exists>sig. signature_on P s2 txID (namespaces t ! k) sig \<and> endorsements t2 ! k = Some [?e i2 sig]"
    using endorse_fresh [OF assms(1,2,4)] assms(6) by auto
  obtain g1 where g1: "\<forall>k < ?n. signature_on P s1 txID (namespaces t ! k) (g1 k) \<and> endorsements t1 ! k = Some [?e i1 (g1 k)]"
    using f1(3) by metis
  obtain g2 where g2: "\<forall>k < ?n. signature_on P s2 txID (namespaces t ! k) (g2 k) \<and> endorsements t2 ! k = Some [?e i2 (g2 k)]"
    using f2(3) by metis
  have m: "Merge P [Some t1, Some t2] = Ok (t1\<lparr>endorsements := map (\<lambda>k. Some [?e i1 (g1 k), ?e i2 (g2 k)]) [0..<?n]\<rparr>)"
    "Merge P [Some t2, Some t1] = Ok (t2\<lparr>endorsements := map (\<lambda>k. Some [?e i1 (g1 k), ?e i2 (g2 k)]) [0..<?n]\<rparr>)"
    by (rule merge_two_eq [OF assms(1) f1(1) f2(1) f1(2) f2(2) _ _ assms(7)]; use g1 g2 in simp)+
  show ?thesis unfolding m using f1(1) f2(1) g1 g2 by auto
qed

theorem multi_org_endorsement_witness:
  "\<exists>t1 t2 m. Endorse sample_proto (sample_signer ''A'') ''id'' (Some (sample_tx [''n''] [])) 0 = (Ok t1, 1)
     \<and> Endorse sample_proto (sample_signer ''B'') ''id'' (Some (sample_tx [''n''] [])) 0 = (Ok t2, 1)
     \<and> Merge sample_proto [Some t2, Some t1] = Ok m \<and> namespaces m = [sample_ns ''n'']"
proof -
  have e: "Endorse sample_proto (sample_signer org) ''id'' (Some (sample_tx [''n''] [])) 0
      = (Ok (sample_tx [''n''] [[org]]), 1)" for org
    by (simp add: Endorse_def io_defs Let_def sample_defs sample_signer_def signer_identity_def)
  have i: "signer_identity sample_proto (sample_signer org) = Ok \<lparr>msp_id = org, id_rest = []\<rparr>" for org
    by (simp add: signer_identity_def sample_signer_def sample_proto_def)
  have lt: "msp_id \<lparr>msp_id = ''A'', id_rest = []\<rparr> < msp_id \<lparr>msp_id = ''B'', id_rest = []\<rparr>"
    by (simp add: less_char_def)
  have n: "endorsements (sample_tx [''n''] []) = []" by (simp add: sample_tx_def)
  obtain m where "Merge sample_proto [Some (sample_tx [''n''] [[''B'']]), Some (sample_tx [''n''] [[''A'']])] = Ok m"
    "namespaces m = namespaces (sample_tx [''n''] [])"
    using multi_org_endorsement [OF sample_proto_laws n e e i i lt] by blast
  then show ?thesis using e by (auto simp: sample_tx_def)
qed

end
