(* ===== verification/Cli_Files.thy ===== *)
theory Cli_Files
  imports Cli_Props
begin

text \<open>
  Handing a transaction from one command to another, through a file or a pipe: what \<open>--output\<close> or
  standard output receives is what \<open>--input\<close> or standard input of the next command reads.
\<close>

lemma read_limited_all:
  "ReadWithLimit \<lparr>rd_data = d, rd_err = None\<rparr> defaultMaxInputSize =
     (if int (length d) \<le> defaultMaxInputSize then Ok d else Err (limit_error ''input'' defaultMaxInputSize))"
  by (subst ReadWithLimit_eq) (simp_all add: defaultMaxInputSize_def)

lemma write_tx_Ok:
  assumes "write_tx ctx output txID t c = (Ok (), c')"
  shows "\<exists>data. JSONCodec_Encode (ctx_Codec ctx) txID t = Ok data
    \<and> (if output = [] then st_stdout (cli_streams c') = st_stdout (cli_streams c) @ data
       else st_files (cli_streams c') = (st_files (cli_streams c))(output \<mapsto> data))"
proof (cases "output = []")
  case True
  then show ?thesis using assms
    by (auto simp: write_tx_def io_bind_Ok_iff on_streams_def WriteOutput_def split: prod.splits)
next
  case False
  then show ?thesis using assms
    by (auto simp: write_tx_def io_bind_Ok_iff on_streams_def WriteOutput_def split: prod.splits option.splits)
qed

text \<open>
  The next command's view of the file, and of the pipe. A file written under a path is found under the
  cleaned path.
\<close>

definition sees_file :: "io_env \<Rightarrow> string \<Rightarrow> bytes \<Rightarrow> bool" where
  "sees_file E file data \<longleftrightarrow> ioe_Open E (filepath_Clean file) = Ok \<lparr>rd_data = data, rd_err = None\<rparr>
     \<and> ioe_Size E (filepath_Clean file) = Some (int (length data))"

definition sees_pipe :: "io_env \<Rightarrow> streams \<Rightarrow> bytes \<Rightarrow> bool" where
  "sees_pipe E s data \<longleftrightarrow> isInputFromPipe E \<and> st_stdin s = \<lparr>rd_data = data, rd_err = None\<rparr>"

lemma read_seen_file:
  assumes "sees_file (ctx_IO ctx) file data" "file \<noteq> []"
  shows "read_tx ctx file c =
    (if isInputFromPipe (ctx_IO ctx) then Err (Error_New ''cannot use --input and stdin together'')
     else if strings_Contains (filepath_Clean file) ''..'' then Err (Error_New ''path traversal not allowed'')
     else if int (length data) \<le> defaultMaxInputSize then JSONCodec_Decode (ctx_Codec ctx) data
     else Err (limit_error ''input file'' defaultMaxInputSize), c)"
  using assms
  by (auto simp: sees_file_def read_tx_def on_streams_def ResolveInput_def Let_def io_bind_def read_limited_all
      split: result.splits)

lemma read_seen_pipe:
  assumes "sees_pipe (ctx_IO ctx) (cli_streams c) data"
  shows "fst (read_tx ctx [] c) =
    (if int (length data) \<le> defaultMaxInputSize then JSONCodec_Decode (ctx_Codec ctx) data
     else Err (limit_error ''input'' defaultMaxInputSize))"
  using assms
  by (auto simp: sees_pipe_def read_tx_def on_streams_def ResolveInput_def io_bind_def read_limited_all
      split: result.splits)

text \<open>
  C9: a transaction without nil endorsements that one command writes is the transaction the next one
  reads, with its identifier (of ASCII characters), through a pipe from standard output or through a file named with \<open>--output\<close>. The exceptions
  are these: an encoding above the size limit, which was written without complaint and which no command
  can read back; a file under a path that still has two dots in a row when it is cleaned, which can be
  written but not named as input; and a command whose standard input is a pipe or a redirected file,
  which takes no named file at all.
\<close>

theorem handover_roundtrip:
  assumes law: "json_laws (ctx_Codec ctx) tree" and codec: "ctx_Codec ctx' = ctx_Codec ctx"
    and tx: "ascii txID" "None \<notin> set (endorsements t)"
    and written: "write_tx ctx output txID (Some t) c = (Ok (), c')" and empty: "st_stdout (cli_streams c) = []"
  shows "if output = []
    then \<forall>d. sees_pipe (ctx_IO ctx') (cli_streams d) (st_stdout (cli_streams c')) \<longrightarrow>
      fst (read_tx ctx' [] d) =
        (if int (length (st_stdout (cli_streams c'))) \<le> defaultMaxInputSize then Ok (txID, t)
         else Err (limit_error ''input'' defaultMaxInputSize))
    else \<exists>data. st_files (cli_streams c') output = Some data
      \<and> (\<forall>d. sees_file (ctx_IO ctx') output data \<longrightarrow> read_tx ctx' output d =
        (if isInputFromPipe (ctx_IO ctx') then Err (Error_New ''cannot use --input and stdin together'')
         else if strings_Contains (filepath_Clean output) ''..'' then Err (Error_New ''path traversal not allowed'')
         else if int (length data) \<le> defaultMaxInputSize then Ok (txID, t)
         else Err (limit_error ''input file'' defaultMaxInputSize), d))"
proof -
  obtain data where data: "JSONCodec_Encode (ctx_Codec ctx) txID (Some t) = Ok data"
    "if output = [] then st_stdout (cli_streams c') = st_stdout (cli_streams c) @ data
     else st_files (cli_streams c') = (st_files (cli_streams c))(output \<mapsto> data)"
    using write_tx_Ok [OF written] by blast
  have "JSONCodec_Decode (ctx_Codec ctx') data = Ok (txID, t)"
    using json.dec_enc [OF _ data(1)] law tx unfolding codec by blast
  then show ?thesis
    using data(2) empty by (auto simp: read_seen_file read_seen_pipe)
qed

text \<open>The sample context, and one in which the file that it writes is there.\<close>

definition sample_next :: "bytes cli_context" where
  "sample_next = sample_ctx\<lparr>ctx_IO := sample_io\<lparr>ioe_Open := (\<lambda>_. Ok \<lparr>rd_data = ''.T#0'', rd_err = None\<rparr>),
     ioe_Size := (\<lambda>_. Some 4)\<rparr>\<rparr>"

theorem handover_roundtrip_witness:
  "\<exists>c'. write_tx sample_ctx ''out'' ''T'' (Some (sample_tx [''ns''] [[''A'']])) sample_cli = (Ok (), c')
     \<and> st_files (cli_streams c') ''out'' = Some ''.T#0''
     \<and> read_tx sample_next ''out'' sample_cli = (Ok (''T'', sample_tx [''ns''] [[''A'']]), sample_cli)"
proof -
  let ?t = "sample_tx [''ns''] [[''A'']]"
  have enc: "JSONCodec_Encode sample_json ''T'' (Some ?t) = Ok ''.T#0''" by code_simp
  then obtain c' where c': "write_tx sample_ctx ''out'' ''T'' (Some ?t) sample_cli = (Ok (), c')"
    "st_files (cli_streams c') ''out'' = Some ''.T#0''"
    by (simp add: write_tx_def on_streams_def WriteOutput_def sample_ctx_def sample_io_def)
  have law: "json_laws (ctx_Codec sample_ctx) sample_tree" "ctx_Codec sample_next = ctx_Codec sample_ctx"
    using sample_json_laws by (simp_all add: sample_ctx_def sample_next_def)
  have tx: "ascii ''T''" "None \<notin> set (endorsements ?t)" by (simp_all add: ascii_def sample_tx_def)
  have empty: "st_stdout (cli_streams sample_cli) = []" by (simp add: sample_cli_def)
  have seen: "sees_file (ctx_IO sample_next) ''out'' ''.T#0''" "\<not> isInputFromPipe (ctx_IO sample_next)"
    by (simp_all add: sees_file_def sample_next_def sample_ctx_def sample_io_def)
  have "filepath_Clean ''out'' = ''out''" by code_simp
  then have "\<not> strings_Contains (filepath_Clean ''out'') ''..''" by (simp add: strings_HasPrefix_def)
  then have "read_tx sample_next ''out'' sample_cli = (Ok (''T'', ?t), sample_cli)"
    using handover_roundtrip [OF law tx c'(1) empty] c'(2) seen by (auto simp: defaultMaxInputSize_def)
  then show ?thesis using c' by blast
qed

end
