(* ===== verification/Client_Conn.thy ===== *)
theory Client_Conn
  imports Adapters
begin

text \<open>
  \<open>tools/fxconfig/internal/client/client.go\<close> and \<open>queries.go\<close>: the translation of the TLS section
  into the secure options of a gRPC connection, dialling, and the query client. The services are
  the environment \<open>env\<close>: each answer is a function of the calls made so far. A nil gRPC client or
  close function is \<open>None\<close>.
\<close>

record env =
  env_ReadFile :: "string \<Rightarrow> bytes result"
  env_Dial :: "string \<Rightarrow> secure_options \<Rightarrow> int \<Rightarrow> trace \<Rightarrow> conn result"
  env_GetNamespacePolicies :: "conn \<Rightarrow> trace \<Rightarrow> policy_item list result"
  env_GetConfigTransaction :: "conn \<Rightarrow> trace \<Rightarrow> 64 word result"

section \<open>Secure options\<close>

definition zero_secure_options :: secure_options where
  "zero_secure_options = \<lparr>sec_UseTLS = False, sec_ServerNameOverride = [], sec_ServerRootCAs = [],
     sec_RequireClientCert = False, sec_Key = [], sec_Certificate = []\<rparr>"

definition loadFile :: "(string \<Rightarrow> bytes result) \<Rightarrow> string \<Rightarrow> bytes result" where
  "loadFile readFile path = res_wrap (''failed opening file '' @ path @ '': '') (readFile path)"

definition warn_partial_mtls :: string where
  "warn_partial_mtls = ''mTLS disabled: both clientKey and clientCert must be set; ignoring partial mTLS configuration''"

definition createSecOpts ::
    "(string \<Rightarrow> bytes result) \<Rightarrow> tls_config option \<Rightarrow> (secure_options, trace) io" where
  "createSecOpts readFile tlsConfig =
     (if \<not> tls_IsEnabled tlsConfig then io_return zero_secure_options
      else io_bind (io_lift (deref tlsConfig)) (\<lambda>c.
        io_bind (io_lift (res_mapM (loadFile readFile) (RootCertPaths c))) (\<lambda>serverRootCAs.
          (let secOpts = zero_secure_options\<lparr>sec_UseTLS := True,
                 sec_ServerNameOverride := ServerNameOverride c, sec_ServerRootCAs := serverRootCAs\<rparr>
           in if ClientKeyPath c = [] \<or> ClientCertPath c = [] then
                io_bind
                  (if ClientKeyPath c \<noteq> [] \<or> ClientCertPath c \<noteq> []
                   then ext_call (Ev_Warn warn_partial_mtls) (\<lambda>_. Ok ()) else io_return ())
                  (\<lambda>_. io_return secOpts)
              else
                io_bind (io_lift (loadFile readFile (ClientKeyPath c))) (\<lambda>keyBytes.
                io_bind (io_lift (loadFile readFile (ClientCertPath c))) (\<lambda>certBytes.
                  io_return (secOpts\<lparr>sec_RequireClientCert := True, sec_Key := keyBytes,
                    sec_Certificate := certBytes\<rparr>)))))))"

text \<open>\<open>cc.Dial\<close> is the gRPC dialler of \<open>fabric-x-common\<close>: an answer of the environment.\<close>

definition newClientConn :: "env \<Rightarrow> 'a endpoint_config_scheme \<Rightarrow> (conn, trace) io" where
  "newClientConn E cfg =
     io_bind (createSecOpts (env_ReadFile E) (ep_TLS cfg)) (\<lambda>secOpts.
       ext_call (Ev_Dial (Address cfg) secOpts (ConnectionTimeout cfg))
         (env_Dial E (Address cfg) secOpts (ConnectionTimeout cfg)))"

section \<open>The query client\<close>

record query_client_impl =
  qi_cfg :: queries_config
  qi_client :: "conn option"
  qi_closeF :: "conn option"

definition NewQueryClient :: "env \<Rightarrow> queries_config \<Rightarrow> (query_client_impl, trace) io" where
  "NewQueryClient E cfg =
     io_bind (io_wrap ''cannot get grpc client: '' (newClientConn E cfg)) (\<lambda>conn.
       io_return \<lparr>qi_cfg = cfg, qi_client = Some conn, qi_closeF = Some conn\<rparr>)"

definition query_GetNamespacePolicies ::
    "env \<Rightarrow> query_client_impl \<Rightarrow> (policy_item list, trace) io" where
  "query_GetNamespacePolicies E qc =
     (case qi_client qc of None \<Rightarrow> io_fail (Error_New ''require client'')
      | Some conn \<Rightarrow>
          io_wrap ''getNamespacePolicies error: ''
            (ext_call (Ev_GetNamespacePolicies conn (ConnectionTimeout (qi_cfg qc)))
              (env_GetNamespacePolicies E conn)))"

definition query_GetConfigVersion :: "env \<Rightarrow> query_client_impl \<Rightarrow> (64 word, trace) io" where
  "query_GetConfigVersion E qc =
     (case qi_client qc of None \<Rightarrow> io_fail (Error_New ''require client'')
      | Some conn \<Rightarrow>
          io_wrap ''getConfigTransaction error: ''
            (ext_call (Ev_GetConfigTransaction conn (ConnectionTimeout (qi_cfg qc)))
              (env_GetConfigTransaction E conn)))"

definition query_Close :: "query_client_impl \<Rightarrow> (unit, trace) io" where
  "query_Close qc =
     (case qi_closeF qc of None \<Rightarrow> io_return ()
      | Some conn \<Rightarrow> ext_call (Ev_ConnClose conn) (\<lambda>_. Ok ()))"

text \<open>The client as a value of the adapter interface.\<close>

definition query_adapter :: "env \<Rightarrow> query_client_impl \<Rightarrow> trace query_client" where
  "query_adapter E qc =
     \<lparr>qc_GetNamespacePolicies = query_GetNamespacePolicies E qc,
      qc_GetConfigVersion = query_GetConfigVersion E qc,
      qc_Close = query_Close qc\<rparr>"

section \<open>Lemmas\<close>

lemma loadFile_Ok [simp]: "loadFile f p = Ok b \<longleftrightarrow> f p = Ok b"
  by (simp add: loadFile_def res_simps)

lemma createSecOpts_emits: "emits (\<lambda>e. e = Ev_Warn warn_partial_mtls) (createSecOpts f t)"
  unfolding createSecOpts_def Let_def by (intro emits_intros refl)

text \<open>What enabled TLS with validated client credentials produces, and that nothing is logged.\<close>

lemma createSecOpts_Ok:
  assumes "createSecOpts f t tr = (Ok so, tr')"
  shows "case t of None \<Rightarrow> so = zero_secure_options \<and> tr' = tr
    | Some c \<Rightarrow>
        if tls_Enabled c \<noteq> Some True then so = zero_secure_options \<and> tr' = tr
        else sec_UseTLS so \<and> sec_ServerNameOverride so = ServerNameOverride c
          \<and> list_all2 (\<lambda>p b. f p = Ok b) (RootCertPaths c) (sec_ServerRootCAs so)
          \<and> (sec_RequireClientCert so \<longleftrightarrow> ClientKeyPath c \<noteq> [] \<and> ClientCertPath c \<noteq> [])
          \<and> (if sec_RequireClientCert so
             then f (ClientKeyPath c) = Ok (sec_Key so) \<and> f (ClientCertPath c) = Ok (sec_Certificate so)
             else sec_Key so = [] \<and> sec_Certificate so = [])
          \<and> tr' = (if (ClientKeyPath c = []) \<noteq> (ClientCertPath c = []) then tr @ [Ev_Warn warn_partial_mtls] else tr)"
proof (cases t)
  case None
  then show ?thesis using assms by (simp add: createSecOpts_def tls_IsEnabled_def)
next
  case (Some c)
  show ?thesis
  proof (cases "tls_Enabled c = Some True")
    case False
    then show ?thesis using assms Some
      by (auto simp: createSecOpts_def tls_IsEnabled_def split: option.splits)
  next
    case True
    obtain cas where cas: "res_mapM (loadFile f) (RootCertPaths c) = Ok cas"
      using assms Some True
      by (cases "res_mapM (loadFile f) (RootCertPaths c)")
        (auto simp: createSecOpts_def tls_IsEnabled_def)
    then have l: "list_all2 (\<lambda>p b. f p = Ok b) (RootCertPaths c) cas" by (simp add: res_mapM_Ok_iff)
    show ?thesis
      using assms Some True cas l
      by (cases "loadFile f (ClientKeyPath c)"; cases "loadFile f (ClientCertPath c)")
        (auto simp: createSecOpts_def tls_IsEnabled_def Let_def zero_secure_options_def
          split: if_splits)
  qed
qed

text \<open>A result that is the failure to read one file.\<close>

definition file_failure :: "(string \<Rightarrow> bytes result) \<Rightarrow> string \<Rightarrow> 'a result \<Rightarrow> bool" where
  "file_failure f p r \<longleftrightarrow> (case f p of Ok b \<Rightarrow> False
     | Err e \<Rightarrow> r = Err (Error_Wrap (''failed opening file '' @ p @ '': '') e) | Panic q \<Rightarrow> r = Panic q)"

lemma loadFile_failure:
  "loadFile f p = Err e \<Longrightarrow> file_failure f p (Err e)" "loadFile f p = Panic q \<Longrightarrow> file_failure f p (Panic q)"
  by (auto simp: loadFile_def file_failure_def split: result.splits)

lemma loadFiles_failure:
  "res_mapM (loadFile f) ps = Err e \<Longrightarrow> \<exists>p \<in> set ps. file_failure f p (Err e)"
  "res_mapM (loadFile f) ps = Panic q \<Longrightarrow> \<exists>p \<in> set ps. file_failure f p (Panic q)"
proof -
  have "(res_mapM (loadFile f) ps = Err e \<longrightarrow> (\<exists>p \<in> set ps. file_failure f p (Err e)))
      \<and> (res_mapM (loadFile f) ps = Panic q \<longrightarrow> (\<exists>p \<in> set ps. file_failure f p (Panic q)))" for e q
  proof (induction ps)
    case (Cons a ps)
    then show ?case
      by (cases "loadFile f a"; cases "res_mapM (loadFile f) ps") (auto dest: loadFile_failure simp del: loadFile_Ok)
  qed simp
  then show "res_mapM (loadFile f) ps = Err e \<Longrightarrow> \<exists>p \<in> set ps. file_failure f p (Err e)"
    "res_mapM (loadFile f) ps = Panic q \<Longrightarrow> \<exists>p \<in> set ps. file_failure f p (Panic q)" by blast+
qed

text \<open>A failure is the failure to read one of the files of the section.\<close>

lemma createSecOpts_fail:
  assumes "createSecOpts f t tr = (r, tr')" "\<not> is_ok r"
  obtains c p where "tr' = tr" "t = Some c" "tls_IsEnabled t" "p \<in> set (tls_paths c)" "file_failure f p r"
proof -
  obtain c where c: "t = Some c" "tls_IsEnabled t"
    using assms by (cases t) (auto simp: createSecOpts_def tls_IsEnabled_def split: if_splits option.splits)
  have "tr' = tr \<and> (\<exists>p \<in> set (tls_paths c). file_failure f p r)"
  proof (cases "res_mapM (loadFile f) (RootCertPaths c)")
    case (Ok cas)
    have "ClientKeyPath c \<noteq> []" "ClientCertPath c \<noteq> []"
      using assms c Ok by (auto simp: createSecOpts_def Let_def split: if_splits)
    moreover from this have "tr' = tr \<and> (file_failure f (ClientKeyPath c) r \<or> file_failure f (ClientCertPath c) r)"
      using assms c Ok
      by (cases "loadFile f (ClientKeyPath c)"; cases "loadFile f (ClientCertPath c)")
        (auto simp: createSecOpts_def Let_def dest: loadFile_failure)
    ultimately show ?thesis by (auto simp: tls_paths_def)
  next
    case (Err e)
    then have "tr' = tr" "r = Err e" using assms c by (auto simp: createSecOpts_def)
    then show ?thesis using loadFiles_failure(1) [OF Err] by (auto simp: tls_paths_def)
  next
    case (Panic q)
    then have "tr' = tr" "r = Panic q" using assms c by (auto simp: createSecOpts_def)
    then show ?thesis using loadFiles_failure(2) [OF Panic] by (auto simp: tls_paths_def)
  qed
  then show thesis using that c by blast
qed

section \<open>Properties\<close>

text \<open>
  C32: with a configuration section that validates, a connection attempt fails before it dials exactly if
  the section enables TLS and one of its files cannot be read, and then with the error for such a file.
  Otherwise it makes exactly one dial, to the section's address with its timeout, without the warning
  about partial mTLS. It uses TLS exactly when the section enables it, with the section's server name and
  the contents of all root certificates, of which there is at least one, and presents a client certificate
  exactly when the section names one, always with its key.
\<close>

theorem validated_dial:
  assumes "endpoint_Validate load_pair cfg (NewValidationContext L fs) = Ok ()"
    and "newClientConn E cfg tr = (r, tr')"
  shows "if \<exists>t p. ep_TLS cfg = Some t \<and> tls_IsEnabled (Some t) \<and> p \<in> set (tls_paths t) \<and> \<not> is_ok (env_ReadFile E p)
    then tr' = tr \<and> (\<exists>t p. ep_TLS cfg = Some t \<and> p \<in> set (tls_paths t) \<and> file_failure (env_ReadFile E) p r)
    else \<exists>so. tr' = tr @ [Ev_Dial (Address cfg) so (ConnectionTimeout cfg)]
        \<and> r = env_Dial E (Address cfg) so (ConnectionTimeout cfg) tr
        \<and> (if tls_IsEnabled (ep_TLS cfg)
           then sec_UseTLS so \<and> sec_ServerRootCAs so \<noteq> []
             \<and> (\<forall>t. ep_TLS cfg = Some t \<longrightarrow> sec_ServerNameOverride so = ServerNameOverride t
                \<and> list_all2 (\<lambda>p b. env_ReadFile E p = Ok b) (RootCertPaths t) (sec_ServerRootCAs so)
                \<and> (if ClientCertPath t \<noteq> []
                   then sec_RequireClientCert so
                     \<and> env_ReadFile E (ClientCertPath t) = Ok (sec_Certificate so)
                     \<and> env_ReadFile E (ClientKeyPath t) = Ok (sec_Key so)
                   else \<not> sec_RequireClientCert so \<and> sec_Certificate so = [] \<and> sec_Key so = []))
           else so = zero_secure_options)"
proof -
  let ?f = "env_ReadFile E"
  have tls: "tls_Validate load_pair (ep_TLS cfg) (NewValidationContext L fs) = Ok ()"
    using assms(1) by (auto simp: endpoint_Validate_def res_simps split: if_splits)
  obtain s tr1 where m: "createSecOpts ?f (ep_TLS cfg) tr = (s, tr1)" by (cases "createSecOpts ?f (ep_TLS cfg) tr")
  show ?thesis
  proof (cases s)
    case (Ok so)
    have dial: "tr' = tr1 @ [Ev_Dial (Address cfg) so (ConnectionTimeout cfg)]"
      "r = env_Dial E (Address cfg) so (ConnectionTimeout cfg) tr1"
      using assms(2) m Ok by (auto simp: newClientConn_def)
    note so = createSecOpts_Ok [OF m [unfolded Ok]]
    show ?thesis
    proof (cases "tls_IsEnabled (ep_TLS cfg)")
      case False
      then have "so = zero_secure_options \<and> tr1 = tr"
        using so by (auto simp: tls_IsEnabled_def split: option.splits)
      then show ?thesis using dial False by auto
    next
      case True
      then obtain t where t: "ep_TLS cfg = Some t" "tls_Enabled t = Some True"
        by (auto simp: tls_IsEnabled_def split: option.splits)
      note v = os_file.validated_tls [OF tls [unfolded t(1)] True [unfolded t(1)] NewValidationContext_simps(2)]
      have "tr1 = tr" "sec_ServerRootCAs so \<noteq> []" using so t v(1,2) by auto
      moreover have "\<forall>p \<in> set (RootCertPaths t). is_ok (?f p)"
        using so t by (auto simp: is_ok_iff list_all2_conv_all_nth in_set_conv_nth)
      then have "is_ok (?f p)" if "p \<in> set (tls_paths t)" for p
        using that so t v(2) by (auto simp: tls_paths_def is_ok_iff split: if_splits)
      ultimately show ?thesis using dial so t v(2) True by auto
    qed
  next
    case (Err e)
    then obtain t p where t: "tr1 = tr" "ep_TLS cfg = Some t" "tls_IsEnabled (ep_TLS cfg)" "p \<in> set (tls_paths t)"
      "file_failure ?f p (Err e :: secure_options result)"
      using createSecOpts_fail [OF m] by auto
    have "tr' = tr" "r = Err e" using assms(2) m Err t(1) by (auto simp: newClientConn_def)
    then have "file_failure ?f p r" "\<not> is_ok (?f p)" using t(5) by (auto simp: file_failure_def split: result.splits)
    then show ?thesis using t(2-4) \<open>tr' = tr\<close> by auto
  next
    case (Panic q)
    then obtain t p where t: "tr1 = tr" "ep_TLS cfg = Some t" "tls_IsEnabled (ep_TLS cfg)" "p \<in> set (tls_paths t)"
      "file_failure ?f p (Panic q :: secure_options result)"
      using createSecOpts_fail [OF m] by auto
    have "tr' = tr" "r = Panic q" using assms(2) m Panic t(1) by (auto simp: newClientConn_def)
    then have "file_failure ?f p r" "\<not> is_ok (?f p)" using t(5) by (auto simp: file_failure_def split: result.splits)
    then show ?thesis using t(2-4) \<open>tr' = tr\<close> by auto
  qed
qed

text \<open>A validated section without TLS: one dial with the zero options.\<close>

definition sample_env :: env where
  "sample_env = \<lparr>env_ReadFile = Ok, env_Dial = (\<lambda>a so t tr. Ok (length tr)),
     env_GetNamespacePolicies = (\<lambda>c tr. Ok []), env_GetConfigTransaction = (\<lambda>c tr. Ok 3)\<rparr>"

definition sample_endpoint :: endpoint_config where
  "sample_endpoint = \<lparr>Address = ''h:1'', ConnectionTimeout = 5,
     ep_TLS = Some (empty_tls\<lparr>tls_Enabled := Some True, RootCertPaths := [''ca.pem''],
       ClientCertPath := ''c.pem'', ClientKeyPath := ''k.pem''\<rparr>)\<rparr>"

definition sample_secure_options :: secure_options where
  "sample_secure_options = \<lparr>sec_UseTLS = True, sec_ServerNameOverride = [],
     sec_ServerRootCAs = [''ca.pem''], sec_RequireClientCert = True, sec_Key = ''k.pem'',
     sec_Certificate = ''c.pem''\<rparr>"

lemma sample_dial:
  "newClientConn sample_env sample_endpoint [] =
     (Ok 0, [Ev_Dial ''h:1'' sample_secure_options 5])"
  by (simp add: newClientConn_def createSecOpts_def sample_env_def sample_endpoint_def
      tls_IsEnabled_def empty_tls_def loadFile_def zero_secure_options_def sample_secure_options_def)

theorem validated_dial_witness:
  "endpoint_Validate (\<lambda>_ _. Ok ()) sample_endpoint
     (NewValidationContext sample_policy_api (\<lambda>_. Stat_Info False)) = Ok ()
   \<and> newClientConn sample_env sample_endpoint [] = (Ok 0, [Ev_Dial ''h:1'' sample_secure_options 5])
   \<and> (\<exists>so. [Ev_Dial ''h:1'' sample_secure_options 5] = [Ev_Dial ''h:1'' so 5] \<and> sec_UseTLS so)"
proof -
  have p: "OSFileChecker_Exists (\<lambda>_. Stat_Info False) ''ca.pem'' = Ok ()"
    "OSFileChecker_Exists (\<lambda>_. Stat_Info False) ''c.pem'' = Ok ()"
    "OSFileChecker_Exists (\<lambda>_. Stat_Info False) ''k.pem'' = Ok ()" by code_simp+
  have a: "validateEndpoint ''h:1'' = Ok ()" by code_simp
  have v: "endpoint_Validate (\<lambda>_ _. Ok ()) sample_endpoint
      (NewValidationContext sample_policy_api (\<lambda>_. Stat_Info False)) = Ok ()"
    using p a by (simp add: sample_endpoint_def endpoint_Validate_def errorIfZeroDuration_def
        tls_Validate_def tls_IsEnabled_def empty_tls_def)
  have "is_ok (env_ReadFile sample_env p)" for p by (simp add: sample_env_def)
  then show ?thesis
    using v sample_dial validated_dial [OF v sample_dial]
    by (auto simp: sample_endpoint_def tls_IsEnabled_def empty_tls_def)
qed

end
