(* ===== verification/Notifications.thy ===== *)
theory Notifications
  imports Client_Conn
begin

text \<open>
  \<open>tools/fxconfig/internal/client/notifications.go\<close>: the notification client, a concurrent program of
  \<open>Subscribe\<close> and \<open>WaitForEvent\<close> calls and of the listener with its three goroutines. One step is one
  atomic action of the source: a critical section under \<open>subscribersMu\<close>, one channel operation, one
  load or store of \<open>streamErr\<close>, or one call of the gRPC stream. Every interleaving is a run.

  The unbuffered request and response queues are rendezvous steps of the two goroutines at their
  ends; a status channel has capacity one, so its content is an option. A deadline, a cancellation
  and every answer of the stream may come at any moment, which over-approximates the clock.
\<close>

section \<open>State\<close>

record notification_request =
  req_TxIds :: "string list"
  req_Timeout :: int

record notification_response =
  resp_TimeoutTxIds :: "string list"
  resp_TxStatusEvents :: "(string \<times> int) list"

type_synonym subscribers = "string \<rightharpoonup> channel list"

text \<open>
  The program counter of a call: \<open>Sub_Request\<close> and \<open>Sub_Push\<close> stand before the first and the second
  \<open>select\<close> of \<open>Subscribe\<close>, \<open>Wait_Start\<close> and \<open>Wait_Recv\<close> before those of \<open>wait\<close>.
\<close>

datatype call =
    Sub_Start string
  | Sub_Register string
  | Sub_Request string channel
  | Sub_Push string channel
  | Sub_Rollback string channel go_error
  | Sub_Return "channel result"
  | Wait_Start channel
  | Wait_Recv channel
  | Wait_Return channel "int result"

datatype receiver = R_Recv | R_Push notification_response | R_Done
datatype sender = S_Wait | S_Send notification_request | S_Done
datatype dispatcher = D_Wait | D_Take notification_response | D_Deliver "(channel \<times> int) list" | D_Done
datatype listener = L_Open | L_Group | L_Cleanup "go_error option" | L_Exited "go_error option"

text \<open>
  The history is for the proofs only: the transaction each channel was made for, the channels whose
  request was handed to the sender, the requests sent and the responses received.
\<close>

record nc_history =
  h_owner :: "channel \<rightharpoonup> string"
  h_requested :: "channel set"
  h_sent :: "notification_request list"
  h_received :: "notification_response list"

record nc_state =
  nc_WaitingTimeout :: int
  nc_subscribers :: subscribers
  nc_streamErr :: "go_error option"
  nc_buffer :: "channel \<rightharpoonup> int"
  nc_next :: channel
  nc_calls :: "nat \<rightharpoonup> call"
  nc_listener :: listener
  nc_receiver :: receiver
  nc_sender :: sender
  nc_dispatcher :: dispatcher
  nc_group_err :: "go_error option"
  nc_closed :: bool
  nc_history :: nc_history

definition nc_init :: "int \<Rightarrow> nc_state" where
  "nc_init waitingTimeout =
     \<lparr>nc_WaitingTimeout = waitingTimeout, nc_subscribers = Map.empty, nc_streamErr = None,
      nc_buffer = Map.empty, nc_next = 0, nc_calls = Map.empty,
      nc_listener = L_Open, nc_receiver = R_Done, nc_sender = S_Done, nc_dispatcher = D_Done,
      nc_group_err = None, nc_closed = False,
      nc_history = \<lparr>h_owner = Map.empty, h_requested = {}, h_sent = [], h_received = []\<rparr>\<rparr>"

text \<open>
  The constructor dials and starts the listener, whose steps begin at \<open>L_Open\<close>; the connection is
  what \<open>Close\<close> closes, after it has cancelled the listener's context (the action \<open>A_Close\<close> below).
\<close>

definition NewNotificationClient :: "env \<Rightarrow> notifications_config \<Rightarrow> (conn \<times> nc_state, trace) io" where
  "NewNotificationClient E cfg =
     io_bind (io_wrap ''cannot get grpc client: '' (newClientConn E cfg)) (\<lambda>conn.
       io_return (conn, nc_init (WaitingTimeout cfg)))"

text \<open>\<open>Close\<close> as the caller sees it; a nil \<open>closeF\<close> is \<^term>\<open>None\<close>.\<close>

definition notification_Close :: "conn option \<Rightarrow> (unit, trace) io" where
  "notification_Close closeF =
     (case closeF of None \<Rightarrow> io_return () | Some conn \<Rightarrow> ext_call (Ev_ConnClose conn) (\<lambda>_. Ok ()))"

lemma notification_Close_Some [simp]: "notification_Close (Some conn) = ext_call (Ev_ConnClose conn) (\<lambda>_. Ok ())"
  by (simp add: notification_Close_def)

section \<open>The critical sections\<close>

text \<open>Lines 94-102: append the channel, and tell whether it is the first one.\<close>

definition add_subscriber :: "string \<Rightarrow> channel \<Rightarrow> subscribers \<Rightarrow> subscribers \<times> bool" where
  "add_subscriber txID ch subs =
     (let old = (case subs txID of None \<Rightarrow> [] | Some l \<Rightarrow> l)
      in (subs(txID \<mapsto> old @ [ch]), length old = 0))"

text \<open>Lines 109-136: remove the first occurrence of the channel, and the key with the last channel.\<close>

definition rollback :: "string \<Rightarrow> channel \<Rightarrow> subscribers \<Rightarrow> subscribers" where
  "rollback txID ch subs =
     (case subs txID of None \<Rightarrow> subs
      | Some l \<Rightarrow>
          if ch \<in> set l
          then (let l' = remove1 ch l in if length l' = 0 then subs(txID := None) else subs(txID \<mapsto> l'))
          else subs)"

text \<open>Lines 260-269, for the order in which the range statement visits the response's map.\<close>

fun take_receivers ::
    "(string \<times> int) list \<Rightarrow> subscribers \<Rightarrow> (channel \<times> int) list \<times> subscribers" where
  "take_receivers [] subs = ([], subs)"
| "take_receivers ((txID, v) # res) subs =
     (case subs txID of None \<Rightarrow> take_receivers res subs
      | Some receivers \<Rightarrow>
          (case take_receivers res (subs(txID := None)) of
             (notifications, subs') \<Rightarrow> (map (\<lambda>q. (q, v)) receivers @ notifications, subs')))"

text \<open>Lines 273-277: a non-blocking send to a channel of capacity one; a full channel drops.\<close>

definition deliver :: "channel \<Rightarrow> int \<Rightarrow> (channel \<rightharpoonup> int) \<Rightarrow> channel \<rightharpoonup> int" where
  "deliver ch v buffer = (case buffer ch of None \<Rightarrow> buffer(ch \<mapsto> v) | Some _ \<Rightarrow> buffer)"

definition STATUS_UNSPECIFIED :: int where
  "STATUS_UNSPECIFIED = 0"

definition parseResponse :: "notification_response \<Rightarrow> string \<rightharpoonup> int" where
  "parseResponse resp =
     fold (\<lambda>(txID, status) res. res(txID \<mapsto> status)) (resp_TxStatusEvents resp)
       (fold (\<lambda>txID res. res(txID \<mapsto> STATUS_UNSPECIFIED)) (resp_TimeoutTxIds resp) Map.empty)"

text \<open>A list of the map's entries, each key once: what a range statement may visit.\<close>

definition range_of :: "('k \<rightharpoonup> 'v) \<Rightarrow> ('k \<times> 'v) list \<Rightarrow> bool" where
  "range_of m res \<longleftrightarrow> distinct (map fst res) \<and> map_of res = m"

section \<open>Steps\<close>

datatype nc_action =
    A_Subscribe nat string
  | A_Check nat
  | A_Register nat
  | A_Proceed nat
  | A_Deadline nat go_error
  | A_Push nat
  | A_Rollback nat
  | A_Wait nat nat
  | A_Status nat
  | A_OpenStream "unit result"
  | A_Recv "notification_response result"
  | A_Respond
  | A_Send "unit result"
  | A_Take "(string \<times> int) list"
  | A_Deliver
  | A_Deliver_End
  | A_Receiver_Stop
  | A_Sender_Stop
  | A_Dispatcher_Stop
  | A_Group_Wait
  | A_Clear
  | A_Close

abbreviation set_call :: "nat \<Rightarrow> call \<Rightarrow> nc_state \<Rightarrow> nc_state" where
  "set_call c k s \<equiv> s\<lparr>nc_calls := (nc_calls s)(c \<mapsto> k)\<rparr>"

definition context_errors :: "go_error list" where
  "context_errors = [Context_Canceled, Context_DeadlineExceeded]"

definition status_request :: "nc_state \<Rightarrow> string \<Rightarrow> notification_request" where
  "status_request s txID = \<lparr>req_TxIds = [txID], req_Timeout = nc_WaitingTimeout s\<rparr>"

text \<open>\<open>errgroup\<close>: the first error of a goroutine is kept, and cancels the group's context.\<close>

definition group_fail :: "go_error \<Rightarrow> nc_state \<Rightarrow> nc_state" where
  "group_fail e s = (case nc_group_err s of None \<Rightarrow> s\<lparr>nc_group_err := Some e\<rparr> | Some _ \<Rightarrow> s)"

definition group_done :: "nc_state \<Rightarrow> bool" where
  "group_done s \<longleftrightarrow> nc_closed s \<or> nc_group_err s \<noteq> None"

text \<open>\<open>Subscribe\<close>.\<close>

inductive subscribe_step :: "nc_state \<Rightarrow> nc_action \<Rightarrow> nc_state \<Rightarrow> bool" where
  Subscribe: "nc_calls s c = None \<Longrightarrow>
    subscribe_step s (A_Subscribe c txID) (set_call c (Sub_Start txID) s)"
| Check_failed: "nc_calls s c = Some (Sub_Start txID) \<Longrightarrow> nc_streamErr s = Some e \<Longrightarrow>
    subscribe_step s (A_Check c) (set_call c (Sub_Return (Err e)) s)"
| Check_ok: "nc_calls s c = Some (Sub_Start txID) \<Longrightarrow> nc_streamErr s = None \<Longrightarrow>
    subscribe_step s (A_Check c) (set_call c (Sub_Register txID) s)"
| Register: "nc_calls s c = Some (Sub_Register txID) \<Longrightarrow>
    add_subscriber txID (nc_next s) (nc_subscribers s) = (subs, isFirst) \<Longrightarrow>
    subscribe_step s (A_Register c)
      (set_call c (if \<not> isFirst then Sub_Return (Ok (nc_next s)) else Sub_Request txID (nc_next s))
        (s\<lparr>nc_subscribers := subs, nc_next := Suc (nc_next s),
           nc_history := (nc_history s)\<lparr>h_owner := (h_owner (nc_history s))(nc_next s \<mapsto> txID)\<rparr>\<rparr>))"
| Proceed: "nc_calls s c = Some (Sub_Request txID ch) \<Longrightarrow>
    subscribe_step s (A_Proceed c) (set_call c (Sub_Push txID ch) s)"
| Deadline: "nc_calls s c \<in> {Some (Sub_Request txID ch), Some (Sub_Push txID ch)} \<Longrightarrow>
    e \<in> set context_errors \<Longrightarrow>
    subscribe_step s (A_Deadline c e) (set_call c (Sub_Rollback txID ch e) s)"
| Push: "nc_calls s c = Some (Sub_Push txID ch) \<Longrightarrow> nc_sender s = S_Wait \<Longrightarrow>
    subscribe_step s (A_Push c)
      (set_call c (Sub_Return (Ok ch))
        (s\<lparr>nc_sender := S_Send (status_request s txID),
           nc_history := (nc_history s)\<lparr>h_requested := insert ch (h_requested (nc_history s))\<rparr>\<rparr>))"
| Rollback: "nc_calls s c = Some (Sub_Rollback txID ch e) \<Longrightarrow>
    subscribe_step s (A_Rollback c)
      (set_call c (Sub_Return (Err e)) (s\<lparr>nc_subscribers := rollback txID ch (nc_subscribers s)\<rparr>))"

text \<open>\<open>WaitForEvent\<close> and \<open>wait\<close>, on a channel that a call of \<open>Subscribe\<close> has returned.\<close>

inductive wait_step :: "nc_state \<Rightarrow> nc_action \<Rightarrow> nc_state \<Rightarrow> bool" where
  Wait: "nc_calls s c = None \<Longrightarrow> nc_calls s d = Some (Sub_Return (Ok ch)) \<Longrightarrow>
    wait_step s (A_Wait c d) (set_call c (Wait_Start ch) s)"
| Wait_proceed: "nc_calls s c = Some (Wait_Start ch) \<Longrightarrow>
    wait_step s (A_Proceed c) (set_call c (Wait_Recv ch) s)"
| Wait_deadline: "nc_calls s c \<in> {Some (Wait_Start ch), Some (Wait_Recv ch)} \<Longrightarrow>
    e \<in> set context_errors \<Longrightarrow>
    wait_step s (A_Deadline c e) (set_call c (Wait_Return ch (Err e)) s)"
| Status: "nc_calls s c = Some (Wait_Recv ch) \<Longrightarrow> nc_buffer s ch = Some v \<Longrightarrow>
    wait_step s (A_Status c)
      (set_call c (Wait_Return ch (Ok v)) (s\<lparr>nc_buffer := (nc_buffer s)(ch := None)\<rparr>))"

text \<open>The stream receiver: a cancelled stream ends it without an error.\<close>

inductive receiver_step :: "nc_state \<Rightarrow> nc_action \<Rightarrow> nc_state \<Rightarrow> bool" where
  Recv: "nc_receiver s = R_Recv \<Longrightarrow>
    receiver_step s (A_Recv (Ok resp))
      (s\<lparr>nc_receiver := R_Push resp,
         nc_history := (nc_history s)\<lparr>h_received := h_received (nc_history s) @ [resp]\<rparr>\<rparr>)"
| Recv_canceled: "nc_receiver s = R_Recv \<Longrightarrow> errors_Is e Context_Canceled \<Longrightarrow>
    receiver_step s (A_Recv (Err e)) (s\<lparr>nc_receiver := R_Done\<rparr>)"
| Recv_error: "nc_receiver s = R_Recv \<Longrightarrow> \<not> errors_Is e Context_Canceled \<Longrightarrow>
    receiver_step s (A_Recv (Err e)) (group_fail e (s\<lparr>nc_receiver := R_Done\<rparr>))"
| Respond: "nc_receiver s = R_Push resp \<Longrightarrow> nc_dispatcher s = D_Wait \<Longrightarrow>
    receiver_step s A_Respond (s\<lparr>nc_receiver := R_Recv, nc_dispatcher := D_Take resp\<rparr>)"
| Receiver_stop: "nc_receiver s = R_Push resp \<Longrightarrow> group_done s \<Longrightarrow>
    receiver_step s A_Receiver_Stop (group_fail Context_Canceled (s\<lparr>nc_receiver := R_Done\<rparr>))"

text \<open>The stream sender.\<close>

inductive sender_step :: "nc_state \<Rightarrow> nc_action \<Rightarrow> nc_state \<Rightarrow> bool" where
  Send: "nc_sender s = S_Send req \<Longrightarrow>
    sender_step s (A_Send (Ok ()))
      (s\<lparr>nc_sender := S_Wait,
         nc_history := (nc_history s)\<lparr>h_sent := h_sent (nc_history s) @ [req]\<rparr>\<rparr>)"
| Send_error: "nc_sender s = S_Send req \<Longrightarrow>
    sender_step s (A_Send (Err e)) (group_fail e (s\<lparr>nc_sender := S_Done\<rparr>))"
| Sender_stop: "nc_sender s = S_Wait \<Longrightarrow> group_done s \<Longrightarrow>
    sender_step s A_Sender_Stop (group_fail Context_Canceled (s\<lparr>nc_sender := S_Done\<rparr>))"

text \<open>The dispatcher: take the receivers under the lock, then send to each of them.\<close>

inductive dispatcher_step :: "nc_state \<Rightarrow> nc_action \<Rightarrow> nc_state \<Rightarrow> bool" where
  Take: "nc_dispatcher s = D_Take resp \<Longrightarrow> range_of (parseResponse resp) res \<Longrightarrow>
    take_receivers res (nc_subscribers s) = (notifications, subs) \<Longrightarrow>
    dispatcher_step s (A_Take res)
      (s\<lparr>nc_subscribers := subs, nc_dispatcher := D_Deliver notifications\<rparr>)"
| Deliver: "nc_dispatcher s = D_Deliver ((ch, v) # notifications) \<Longrightarrow>
    dispatcher_step s A_Deliver
      (s\<lparr>nc_buffer := deliver ch v (nc_buffer s), nc_dispatcher := D_Deliver notifications\<rparr>)"
| Deliver_end: "nc_dispatcher s = D_Deliver [] \<Longrightarrow>
    dispatcher_step s A_Deliver_End (s\<lparr>nc_dispatcher := D_Wait\<rparr>)"
| Dispatcher_stop: "nc_dispatcher s = D_Wait \<Longrightarrow> group_done s \<Longrightarrow>
    dispatcher_step s A_Dispatcher_Stop (group_fail Context_Canceled (s\<lparr>nc_dispatcher := D_Done\<rparr>))"

text \<open>\<open>listen\<close> around its group, and \<open>Close\<close>.\<close>

inductive listen_step :: "nc_state \<Rightarrow> nc_action \<Rightarrow> nc_state \<Rightarrow> bool" where
  Open: "nc_listener s = L_Open \<Longrightarrow>
    listen_step s (A_OpenStream (Ok ()))
      (s\<lparr>nc_listener := L_Group, nc_receiver := R_Recv, nc_sender := S_Wait, nc_dispatcher := D_Wait\<rparr>)"
| Open_error: "nc_listener s = L_Open \<Longrightarrow>
    listen_step s (A_OpenStream (Err e)) (s\<lparr>nc_streamErr := Some e, nc_listener := L_Exited (Some e)\<rparr>)"
| Group_wait: "nc_listener s = L_Group \<Longrightarrow> nc_receiver s = R_Done \<Longrightarrow> nc_sender s = S_Done \<Longrightarrow>
    nc_dispatcher s = D_Done \<Longrightarrow>
    listen_step s A_Group_Wait
      (s\<lparr>nc_listener := L_Cleanup (nc_group_err s),
         nc_streamErr := (case nc_group_err s of None \<Rightarrow> nc_streamErr s
           | Some e \<Rightarrow> if errors_Is e Context_Canceled then nc_streamErr s else Some e)\<rparr>)"
| Clear: "nc_listener s = L_Cleanup err \<Longrightarrow>
    listen_step s A_Clear (s\<lparr>nc_subscribers := Map.empty, nc_listener := L_Exited err\<rparr>)"
| Close: "listen_step s A_Close (s\<lparr>nc_closed := True\<rparr>)"

inductive nc_step :: "nc_state \<Rightarrow> nc_action \<Rightarrow> nc_state \<Rightarrow> bool" where
  "subscribe_step s a t \<Longrightarrow> nc_step s a t"
| "wait_step s a t \<Longrightarrow> nc_step s a t"
| "receiver_step s a t \<Longrightarrow> nc_step s a t"
| "sender_step s a t \<Longrightarrow> nc_step s a t"
| "dispatcher_step s a t \<Longrightarrow> nc_step s a t"
| "listen_step s a t \<Longrightarrow> nc_step s a t"

section \<open>Execution\<close>

text \<open>
  An action determines the state it leads to: the step relation is the graph of an executable
  function, in which \<^term>\<open>None\<close> means that the action is not enabled.
\<close>

definition response_ids :: "notification_response \<Rightarrow> string list" where
  "response_ids resp = resp_TimeoutTxIds resp @ map fst (resp_TxStatusEvents resp)"

definition response_range :: "notification_response \<Rightarrow> (string \<times> int) list \<Rightarrow> bool" where
  "response_range resp res \<longleftrightarrow> distinct (map fst res) \<and> set (map fst res) = set (response_ids resp)
     \<and> list_all (\<lambda>(txID, v). parseResponse resp txID = Some v) res"

fun nc_exec :: "nc_state \<Rightarrow> nc_action \<Rightarrow> nc_state option" where
  "nc_exec s (A_Subscribe c txID) =
     (case nc_calls s c of None \<Rightarrow> Some (set_call c (Sub_Start txID) s) | Some _ \<Rightarrow> None)"
| "nc_exec s (A_Check c) =
     (case nc_calls s c of
        Some (Sub_Start txID) \<Rightarrow> Some (set_call c
          (case nc_streamErr s of Some e \<Rightarrow> Sub_Return (Err e) | None \<Rightarrow> Sub_Register txID) s)
      | _ \<Rightarrow> None)"
| "nc_exec s (A_Register c) =
     (case nc_calls s c of
        Some (Sub_Register txID) \<Rightarrow>
          (case add_subscriber txID (nc_next s) (nc_subscribers s) of (subs, isFirst) \<Rightarrow>
             Some (set_call c
               (if \<not> isFirst then Sub_Return (Ok (nc_next s)) else Sub_Request txID (nc_next s))
               (s\<lparr>nc_subscribers := subs, nc_next := Suc (nc_next s),
                  nc_history := (nc_history s)\<lparr>h_owner := (h_owner (nc_history s))(nc_next s \<mapsto> txID)\<rparr>\<rparr>)))
      | _ \<Rightarrow> None)"
| "nc_exec s (A_Proceed c) =
     (case nc_calls s c of
        Some (Sub_Request txID ch) \<Rightarrow> Some (set_call c (Sub_Push txID ch) s)
      | Some (Wait_Start ch) \<Rightarrow> Some (set_call c (Wait_Recv ch) s)
      | _ \<Rightarrow> None)"
| "nc_exec s (A_Deadline c e) =
     (if e \<notin> set context_errors then None
      else case nc_calls s c of
        Some (Sub_Request txID ch) \<Rightarrow> Some (set_call c (Sub_Rollback txID ch e) s)
      | Some (Sub_Push txID ch) \<Rightarrow> Some (set_call c (Sub_Rollback txID ch e) s)
      | Some (Wait_Start ch) \<Rightarrow> Some (set_call c (Wait_Return ch (Err e)) s)
      | Some (Wait_Recv ch) \<Rightarrow> Some (set_call c (Wait_Return ch (Err e)) s)
      | _ \<Rightarrow> None)"
| "nc_exec s (A_Push c) =
     (case (nc_calls s c, nc_sender s) of
        (Some (Sub_Push txID ch), S_Wait) \<Rightarrow>
          Some (set_call c (Sub_Return (Ok ch))
            (s\<lparr>nc_sender := S_Send (status_request s txID),
               nc_history := (nc_history s)\<lparr>h_requested := insert ch (h_requested (nc_history s))\<rparr>\<rparr>))
      | _ \<Rightarrow> None)"
| "nc_exec s (A_Rollback c) =
     (case nc_calls s c of
        Some (Sub_Rollback txID ch e) \<Rightarrow>
          Some (set_call c (Sub_Return (Err e)) (s\<lparr>nc_subscribers := rollback txID ch (nc_subscribers s)\<rparr>))
      | _ \<Rightarrow> None)"
| "nc_exec s (A_Wait c d) =
     (case (nc_calls s c, nc_calls s d) of
        (None, Some (Sub_Return (Ok ch))) \<Rightarrow> Some (set_call c (Wait_Start ch) s)
      | _ \<Rightarrow> None)"
| "nc_exec s (A_Status c) =
     (case nc_calls s c of
        Some (Wait_Recv ch) \<Rightarrow>
          (case nc_buffer s ch of
             Some v \<Rightarrow> Some (set_call c (Wait_Return ch (Ok v)) (s\<lparr>nc_buffer := (nc_buffer s)(ch := None)\<rparr>))
           | None \<Rightarrow> None)
      | _ \<Rightarrow> None)"
| "nc_exec s (A_OpenStream r) =
     (if nc_listener s \<noteq> L_Open then None
      else case r of
        Ok _ \<Rightarrow> Some (s\<lparr>nc_listener := L_Group, nc_receiver := R_Recv, nc_sender := S_Wait, nc_dispatcher := D_Wait\<rparr>)
      | Err e \<Rightarrow> Some (s\<lparr>nc_streamErr := Some e, nc_listener := L_Exited (Some e)\<rparr>)
      | Panic _ \<Rightarrow> None)"
| "nc_exec s (A_Recv r) =
     (if nc_receiver s \<noteq> R_Recv then None
      else case r of
        Ok resp \<Rightarrow> Some (s\<lparr>nc_receiver := R_Push resp,
          nc_history := (nc_history s)\<lparr>h_received := h_received (nc_history s) @ [resp]\<rparr>\<rparr>)
      | Err e \<Rightarrow> Some (if errors_Is e Context_Canceled then s\<lparr>nc_receiver := R_Done\<rparr>
                       else group_fail e (s\<lparr>nc_receiver := R_Done\<rparr>))
      | Panic _ \<Rightarrow> None)"
| "nc_exec s A_Respond =
     (case (nc_receiver s, nc_dispatcher s) of
        (R_Push resp, D_Wait) \<Rightarrow> Some (s\<lparr>nc_receiver := R_Recv, nc_dispatcher := D_Take resp\<rparr>)
      | _ \<Rightarrow> None)"
| "nc_exec s (A_Send r) =
     (case nc_sender s of
        S_Send req \<Rightarrow>
          (case r of
             Ok _ \<Rightarrow> Some (s\<lparr>nc_sender := S_Wait,
               nc_history := (nc_history s)\<lparr>h_sent := h_sent (nc_history s) @ [req]\<rparr>\<rparr>)
           | Err e \<Rightarrow> Some (group_fail e (s\<lparr>nc_sender := S_Done\<rparr>))
           | Panic _ \<Rightarrow> None)
      | _ \<Rightarrow> None)"
| "nc_exec s (A_Take res) =
     (case nc_dispatcher s of
        D_Take resp \<Rightarrow>
          (if response_range resp res
           then (case take_receivers res (nc_subscribers s) of (notifications, subs) \<Rightarrow>
                   Some (s\<lparr>nc_subscribers := subs, nc_dispatcher := D_Deliver notifications\<rparr>))
           else None)
      | _ \<Rightarrow> None)"
| "nc_exec s A_Deliver =
     (case nc_dispatcher s of
        D_Deliver ((ch, v) # notifications) \<Rightarrow>
          Some (s\<lparr>nc_buffer := deliver ch v (nc_buffer s), nc_dispatcher := D_Deliver notifications\<rparr>)
      | _ \<Rightarrow> None)"
| "nc_exec s A_Deliver_End =
     (if nc_dispatcher s = D_Deliver [] then Some (s\<lparr>nc_dispatcher := D_Wait\<rparr>) else None)"
| "nc_exec s A_Receiver_Stop =
     (case nc_receiver s of
        R_Push _ \<Rightarrow> if group_done s then Some (group_fail Context_Canceled (s\<lparr>nc_receiver := R_Done\<rparr>)) else None
      | _ \<Rightarrow> None)"
| "nc_exec s A_Sender_Stop =
     (if nc_sender s = S_Wait \<and> group_done s then Some (group_fail Context_Canceled (s\<lparr>nc_sender := S_Done\<rparr>))
      else None)"
| "nc_exec s A_Dispatcher_Stop =
     (if nc_dispatcher s = D_Wait \<and> group_done s
      then Some (group_fail Context_Canceled (s\<lparr>nc_dispatcher := D_Done\<rparr>)) else None)"
| "nc_exec s A_Group_Wait =
     (if nc_listener s = L_Group \<and> nc_receiver s = R_Done \<and> nc_sender s = S_Done \<and> nc_dispatcher s = D_Done
      then Some (s\<lparr>nc_listener := L_Cleanup (nc_group_err s),
         nc_streamErr := (case nc_group_err s of None \<Rightarrow> nc_streamErr s
           | Some e \<Rightarrow> if errors_Is e Context_Canceled then nc_streamErr s else Some e)\<rparr>)
      else None)"
| "nc_exec s A_Clear =
     (case nc_listener s of
        L_Cleanup err \<Rightarrow> Some (s\<lparr>nc_subscribers := Map.empty, nc_listener := L_Exited err\<rparr>)
      | _ \<Rightarrow> None)"
| "nc_exec s A_Close = Some (s\<lparr>nc_closed := True\<rparr>)"

fun nc_execs :: "nc_state \<Rightarrow> nc_action list \<Rightarrow> nc_state option" where
  "nc_execs s [] = Some s"
| "nc_execs s (a # as) = (case nc_exec s a of None \<Rightarrow> None | Some t \<Rightarrow> nc_execs t as)"

lemma range_of_set: "range_of m res \<Longrightarrow> (txID, v) \<in> set res \<longleftrightarrow> m txID = Some v"
  by (auto simp: range_of_def)

lemma dom_fold_upd: "dom (fold (\<lambda>(k, v) m. m(k \<mapsto> v)) kvs m) = dom m \<union> fst ` set kvs"
  by (induction kvs arbitrary: m) (auto split: prod.splits)

lemma dom_fold_const: "dom (fold (\<lambda>k m. m(k \<mapsto> v)) ks m) = dom m \<union> set ks"
  by (induction ks arbitrary: m) auto

lemma dom_parseResponse: "dom (parseResponse resp) = set (response_ids resp)"
  unfolding parseResponse_def response_ids_def dom_fold_upd dom_fold_const by auto

lemma response_range_iff: "response_range resp res \<longleftrightarrow> range_of (parseResponse resp) res"
proof
  assume r: "response_range resp res"
  have "map_of res txID = parseResponse resp txID" for txID
  proof (cases "txID \<in> set (map fst res)")
    case True
    then obtain v where v: "(txID, v) \<in> set res" by auto
    then have "map_of res txID = Some v" using r by (simp add: response_range_def)
    then show ?thesis using v r by (auto simp: response_range_def list_all_iff)
  next
    case False
    then have "txID \<notin> dom (parseResponse resp)" "map_of res txID = None"
      using r by (simp_all add: response_range_def dom_parseResponse map_of_eq_None_iff)
    then show ?thesis by (simp add: domIff)
  qed
  then show "range_of (parseResponse resp) res" using r by (auto simp: range_of_def response_range_def)
next
  assume r: "range_of (parseResponse resp) res"
  then have "fst ` set res = set (response_ids resp)"
    unfolding range_of_def dom_parseResponse [symmetric] using dom_map_of_conv_image_fst by metis
  then show "response_range resp res"
    using r range_of_set [OF r] by (auto simp: range_of_def response_range_def list_all_iff)
qed

lemmas nc_steps = nc_step.simps subscribe_step.simps wait_step.simps receiver_step.simps
  sender_step.simps dispatcher_step.simps listen_step.simps

lemma nc_exec_sound: "nc_exec s a = Some t \<Longrightarrow> nc_step s a t"
  by (cases a)
    (auto simp: nc_steps response_range_iff
      split: option.splits call.splits prod.splits if_splits result.splits sender.splits
        receiver.splits dispatcher.splits listener.splits list.splits)

lemma nc_exec_complete: "nc_step s a t \<Longrightarrow> nc_exec s a = Some t"
  by (induction rule: nc_step.induct)
    (auto simp: response_range_iff split: option.splits elim!: subscribe_step.cases wait_step.cases
      receiver_step.cases sender_step.cases dispatcher_step.cases listen_step.cases)

lemma nc_step_iff: "nc_step s a t \<longleftrightarrow> nc_exec s a = Some t"
  using nc_exec_sound nc_exec_complete by blast

lemma nc_execs_run: "nc_execs s as = Some t \<Longrightarrow> run nc_step s as t"
  by (induction s as rule: nc_execs.induct)
    (auto split: option.splits intro: run_Cons nc_exec_sound)

section \<open>The critical sections as a contract\<close>

text \<open>What taking the receivers computes, for any order of the response's entries.\<close>

definition receivers_of :: "subscribers \<Rightarrow> string \<Rightarrow> channel list" where
  "receivers_of subs txID = (case subs txID of None \<Rightarrow> [] | Some l \<Rightarrow> l)"

definition calls_for :: "subscribers \<Rightarrow> string \<times> int \<Rightarrow> (channel \<times> int) list" where
  "calls_for subs = (\<lambda>(txID, v). map (\<lambda>q. (q, v)) (receivers_of subs txID))"

lemma in_receivers: "q \<in> set (receivers_of subs txID) \<longleftrightarrow> (\<exists>l. subs txID = Some l \<and> q \<in> set l)"
  by (cases "subs txID") (simp_all add: receivers_of_def)

lemma calls_for_upd:
  "txID \<notin> fst ` set res \<Longrightarrow> map (calls_for (subs(txID := l))) res = map (calls_for subs) res"
  by (force simp: calls_for_def receivers_of_def)

lemma take_receivers_eq:
  "distinct (map fst res) \<Longrightarrow>
     take_receivers res subs = (concat (map (calls_for subs) res), subs |` (- fst ` set res))"
proof (induction res subs rule: take_receivers.induct)
  case (1 subs)
  have "subs |` UNIV = subs" by (simp add: restrict_map_def)
  then show ?case by simp
next
  case (2 txID v res subs)
  have "subs |` (- fst ` set res) = subs |` (- insert txID (fst ` set res))" if "subs txID = None"
    using that by (auto simp: restrict_map_def fun_eq_iff)
  moreover have "(subs(txID := None)) |` (- fst ` set res) = subs |` (- insert txID (fst ` set res))"
    by (auto simp: restrict_map_def fun_eq_iff)
  moreover have "calls_for subs (txID, v) = map (\<lambda>q. (q, v)) (case subs txID of None \<Rightarrow> [] | Some l \<Rightarrow> l)"
    by (simp add: calls_for_def receivers_of_def)
  moreover have "concat (map (calls_for (subs(txID := None))) res) = concat (map (calls_for subs) res)"
    using "2.prems" by (intro arg_cong [of _ _ concat] calls_for_upd) simp
  ultimately show ?case using 2 by (cases "subs txID") (simp_all del: fun_upd_apply)
qed

lemma range_of_dom: "range_of m res \<Longrightarrow> fst ` set res = dom m"
  unfolding range_of_def using dom_map_of_conv_image_fst by metis

lemma range_of_perm:
  assumes "range_of m res" "range_of m res'"
  shows "mset res = mset res'"
proof -
  have "set res = set res'" using assms range_of_set by (metis subrelI subset_antisym)
  moreover have "distinct res" "distinct res'"
    using assms by (auto simp: range_of_def distinct_map)
  ultimately show ?thesis by (simp add: set_eq_iff_mset_eq_distinct)
qed

text \<open>The well-formed tables: no empty entry, and each channel is listed once, under its own id.\<close>

definition table_ok :: "(channel \<rightharpoonup> string) \<Rightarrow> subscribers \<Rightarrow> bool" where
  "table_ok owner subs \<longleftrightarrow>
     (\<forall>txID l. subs txID = Some l \<longrightarrow> l \<noteq> [] \<and> distinct l \<and> (\<forall>ch \<in> set l. owner ch = Some txID))"

definition listed :: "subscribers \<Rightarrow> channel \<Rightarrow> bool" where
  "listed subs ch \<longleftrightarrow> (\<exists>txID l. subs txID = Some l \<and> ch \<in> set l)"

lemma table_ok_empty [simp]: "table_ok owner Map.empty" "\<not> listed Map.empty ch"
  by (simp_all add: table_ok_def listed_def)

lemma listed_receivers: "listed subs ch \<longleftrightarrow> (\<exists>txID. ch \<in> set (receivers_of subs txID))"
  by (auto simp: listed_def in_receivers)

lemma receivers_owner:
  "table_ok owner subs \<Longrightarrow> ch \<in> set (receivers_of subs txID) \<Longrightarrow> owner ch = Some txID"
  and receivers_distinct: "table_ok owner subs \<Longrightarrow> distinct (receivers_of subs txID)"
  by (auto simp: in_receivers table_ok_def) (auto simp: table_ok_def receivers_of_def split: option.split)

lemma listed_owner: "table_ok owner subs \<Longrightarrow> listed subs ch \<Longrightarrow> \<exists>txID. owner ch = Some txID"
  by (auto simp: listed_receivers dest: receivers_owner)

lemma listed_iff:
  "table_ok owner subs \<Longrightarrow> owner ch = Some txID \<Longrightarrow> listed subs ch \<longleftrightarrow> ch \<in> set (receivers_of subs txID)"
  by (auto simp: listed_receivers dest: receivers_owner)

lemma receivers_upd:
  "receivers_of (subs(txID := l)) t = (if t = txID then (case l of None \<Rightarrow> [] | Some l \<Rightarrow> l) else receivers_of subs t)"
  by (simp add: receivers_of_def)

lemma add_subscriber_eq:
  "add_subscriber txID ch subs =
     (subs(txID \<mapsto> receivers_of subs txID @ [ch]), receivers_of subs txID = [])"
  by (simp add: add_subscriber_def receivers_of_def Let_def)

lemma add_subscriber_ok:
  assumes "table_ok owner subs" "owner ch = None" "add_subscriber txID ch subs = (subs', first)"
  shows "table_ok (owner(ch \<mapsto> txID)) subs'"
    and "listed subs' q \<longleftrightarrow> q = ch \<or> listed subs q"
    and "first \<longleftrightarrow> subs txID = None"
proof -
  have subs': "subs' = subs(txID \<mapsto> receivers_of subs txID @ [ch])"
    and first: "first \<longleftrightarrow> receivers_of subs txID = []"
    using assms(3) by (auto simp: add_subscriber_eq)
  have new: "ch \<notin> set (receivers_of subs t)" for t
    using receivers_owner [OF assms(1)] assms(2) by fastforce
  show "listed subs' q \<longleftrightarrow> q = ch \<or> listed subs q"
    unfolding subs' by (auto simp: listed_receivers receivers_upd split: if_splits)
  show "first \<longleftrightarrow> subs txID = None"
    using first assms(1) by (auto simp: receivers_of_def table_ok_def split: option.splits)
  have "l \<noteq> [] \<and> distinct l \<and> (\<forall>q \<in> set l. (owner(ch \<mapsto> txID)) q = Some t)"
    if "subs' t = Some l" for t l
  proof (cases "t = txID")
    case True
    then have "l = receivers_of subs txID @ [ch]" using that subs' by simp
    then show ?thesis
      using True new receivers_distinct [OF assms(1)] receivers_owner [OF assms(1)] by auto
  next
    case False
    then have l: "subs t = Some l" using that subs' by simp
    then have "ch \<notin> set l" using new [of t] by (simp add: receivers_of_def)
    then show ?thesis using l assms(1) by (auto simp: table_ok_def)
  qed
  then show "table_ok (owner(ch \<mapsto> txID)) subs'" by (simp add: table_ok_def)
qed

lemma rollback_receivers:
  "receivers_of (rollback txID ch subs) t =
     (if t = txID then remove1 ch (receivers_of subs txID) else receivers_of subs t)"
  by (simp add: rollback_def receivers_of_def Let_def remove1_idem split: option.split)

lemma rollback_ok:
  assumes "table_ok owner subs"
  shows "table_ok owner (rollback txID ch subs)"
    and "listed (rollback txID ch subs) q \<Longrightarrow> listed subs q"
    and "owner ch = Some txID \<Longrightarrow> listed (rollback txID ch subs) q \<longleftrightarrow> q \<noteq> ch \<and> listed subs q"
proof -
  have "l \<noteq> [] \<and> distinct l \<and> (\<forall>q \<in> set l. owner q = Some t)"
    if l: "rollback txID ch subs t = Some l" for t l
  proof -
    have r: "receivers_of (rollback txID ch subs) t = l" using l by (simp add: receivers_of_def)
    have sub: "set l \<subseteq> set (receivers_of subs t)" and "distinct l"
      unfolding r [symmetric] rollback_receivers
      by (auto simp: receivers_distinct [OF assms] intro: distinct_remove1 dest: notin_set_remove1)
    moreover have "l \<noteq> []"
      using l assms by (auto simp: rollback_def Let_def table_ok_def split: option.splits if_splits)
    ultimately show ?thesis using receivers_owner [OF assms] by blast
  qed
  then show "table_ok owner (rollback txID ch subs)" by (simp add: table_ok_def)
  show "listed (rollback txID ch subs) q \<Longrightarrow> listed subs q"
    unfolding listed_receivers rollback_receivers
    by (auto split: if_splits dest: set_remove1_subset [THEN subsetD])
  assume o: "owner ch = Some txID"
  have "q \<in> set (receivers_of (rollback txID ch subs) t) \<longleftrightarrow> q \<noteq> ch \<and> q \<in> set (receivers_of subs t)" for t
    using receivers_owner [OF assms, of q t] o receivers_distinct [OF assms, of txID]
    by (auto simp: rollback_receivers)
  then show "listed (rollback txID ch subs) q \<longleftrightarrow> q \<noteq> ch \<and> listed subs q"
    unfolding listed_receivers by blast
qed

lemma set_calls_for:
  "set (concat (map (calls_for subs) res)) =
     {(q, v). \<exists>txID. (txID, v) \<in> set res \<and> q \<in> set (receivers_of subs txID)}"
  by (force simp: calls_for_def)

lemma distinct_calls_for:
  assumes "table_ok owner subs" "distinct (map fst res)"
  shows "distinct (map fst (concat (map (calls_for subs) res)))"
  using assms(2)
proof (induction res)
  case (Cons r res)
  obtain txID v where r: "r = (txID, v)" by (cases r)
  note own = receivers_owner [OF assms(1)]
  have "map fst (calls_for subs r) = receivers_of subs txID"
    by (simp add: r calls_for_def comp_def)
  moreover have "distinct (receivers_of subs txID)" by (rule receivers_distinct [OF assms(1)])
  moreover have "q \<notin> fst ` set (concat (map (calls_for subs) res))" if "q \<in> set (receivers_of subs txID)" for q
  proof
    assume "q \<in> fst ` set (concat (map (calls_for subs) res))"
    then obtain tx w where "(tx, w) \<in> set res" "q \<in> set (receivers_of subs tx)"
      by (auto simp: set_calls_for simp del: set_concat)
    then have "tx = txID" using own [of q tx] own [of q txID] that by simp
    then show False using \<open>(tx, w) \<in> set res\<close> Cons.prems r by force
  qed
  ultimately show ?case using Cons by (auto simp: r)
qed simp

lemma restrict_ok:
  assumes "table_ok owner subs"
  shows "table_ok owner (subs |` A)"
    and "listed (subs |` A) q \<longleftrightarrow> (\<exists>txID \<in> A. q \<in> set (receivers_of subs txID))"
  using assms by (auto simp: table_ok_def listed_def in_receivers restrict_map_def split: if_splits)

end
