(* ===== verification/Notifications_Inv.thy ===== *)
theory Notifications_Inv
  imports Notifications
begin

text \<open>
  What the notification client guarantees in every reachable state: the life of a status channel,
  the absence of dropped or misdirected statuses, and who is served by which upstream request.
\<close>

section \<open>The invariant\<close>

text \<open>A status that the service reported for the transaction of the channel.\<close>

definition reported :: "nc_history \<Rightarrow> channel \<Rightarrow> int \<Rightarrow> bool" where
  "reported h ch v \<longleftrightarrow>
     (\<exists>txID. h_owner h ch = Some txID \<and>
        (\<exists>resp \<in> set (h_received h). parseResponse resp txID = Some v))"

fun in_transit :: "dispatcher \<Rightarrow> (channel \<times> int) list" where
  "in_transit (D_Deliver ns) = ns"
| "in_transit _ = []"

text \<open>
  A channel is in one place at most: listed in the table, in the dispatcher's hands, holding its
  status, or read by one call of \<open>WaitForEvent\<close>. Whatever status is under way was reported for it.
\<close>

definition nc_inv :: "nc_state \<Rightarrow> bool" where
  "nc_inv s \<longleftrightarrow>
     table_ok (h_owner (nc_history s)) (nc_subscribers s)
   \<and> dom (h_owner (nc_history s)) = {..<nc_next s}
   \<and> distinct (map fst (in_transit (nc_dispatcher s)))
   \<and> (\<forall>ch v. (ch, v) \<in> set (in_transit (nc_dispatcher s)) \<longrightarrow>
        reported (nc_history s) ch v \<and> \<not> listed (nc_subscribers s) ch \<and> nc_buffer s ch = None)
   \<and> (\<forall>ch v. nc_buffer s ch = Some v \<longrightarrow>
        reported (nc_history s) ch v \<and> \<not> listed (nc_subscribers s) ch)
   \<and> (\<forall>c ch v. nc_calls s c = Some (Wait_Return ch (Ok v)) \<longrightarrow>
        reported (nc_history s) ch v \<and> \<not> listed (nc_subscribers s) ch
        \<and> ch \<notin> fst ` set (in_transit (nc_dispatcher s)) \<and> nc_buffer s ch = None
        \<and> (\<forall>d w. nc_calls s d = Some (Wait_Return ch (Ok w)) \<longrightarrow> d = c))
   \<and> (\<forall>resp. nc_receiver s = R_Push resp \<or> nc_dispatcher s = D_Take resp \<longrightarrow>
        resp \<in> set (h_received (nc_history s)))"

lemma inv_table: "nc_inv s \<Longrightarrow> table_ok (h_owner (nc_history s)) (nc_subscribers s)"
  and inv_owner: "nc_inv s \<Longrightarrow> dom (h_owner (nc_history s)) = {..<nc_next s}"
  and inv_distinct: "nc_inv s \<Longrightarrow> distinct (map fst (in_transit (nc_dispatcher s)))"
  and inv_transit: "nc_inv s \<Longrightarrow> (ch, v) \<in> set (in_transit (nc_dispatcher s)) \<Longrightarrow>
    reported (nc_history s) ch v \<and> \<not> listed (nc_subscribers s) ch \<and> nc_buffer s ch = None"
  and inv_buffer: "nc_inv s \<Longrightarrow> nc_buffer s ch = Some v \<Longrightarrow>
    reported (nc_history s) ch v \<and> \<not> listed (nc_subscribers s) ch"
  and inv_call: "nc_inv s \<Longrightarrow> nc_calls s c = Some (Wait_Return ch (Ok v)) \<Longrightarrow>
    reported (nc_history s) ch v \<and> \<not> listed (nc_subscribers s) ch
    \<and> ch \<notin> fst ` set (in_transit (nc_dispatcher s)) \<and> nc_buffer s ch = None
    \<and> (\<forall>d w. nc_calls s d = Some (Wait_Return ch (Ok w)) \<longrightarrow> d = c)"
  and inv_response: "nc_inv s \<Longrightarrow> nc_receiver s = R_Push resp \<or> nc_dispatcher s = D_Take resp \<Longrightarrow>
    resp \<in> set (h_received (nc_history s))"
  unfolding nc_inv_def by (simp_all, elim disjE) simp_all

lemma nc_inv_init: "nc_inv (nc_init t)"
  by (simp add: nc_inv_def nc_init_def )

lemma group_fail_sel [simp]:
  "nc_subscribers (group_fail e s) = nc_subscribers s"
  "nc_history (group_fail e s) = nc_history s"
  "nc_next (group_fail e s) = nc_next s"
  "nc_buffer (group_fail e s) = nc_buffer s"
  "nc_calls (group_fail e s) = nc_calls s"
  "nc_receiver (group_fail e s) = nc_receiver s"
  "nc_sender (group_fail e s) = nc_sender s"
  "nc_dispatcher (group_fail e s) = nc_dispatcher s"
  "nc_streamErr (group_fail e s) = nc_streamErr s"
  "nc_listener (group_fail e s) = nc_listener s"
  by (simp_all add: group_fail_def split: option.split)

lemma reported_dom: "reported h ch v \<Longrightarrow> ch \<in> dom (h_owner h)"
  by (auto simp: reported_def)

lemma reported_upd:
  "reported h ch v \<Longrightarrow> h_owner h q = None \<Longrightarrow> reported (h\<lparr>h_owner := (h_owner h)(q \<mapsto> t)\<rparr>) ch v"
  "reported h ch v \<Longrightarrow> reported (h\<lparr>h_received := h_received h @ rs\<rparr>) ch v"
  "reported (h\<lparr>h_requested := R\<rparr>) ch v \<longleftrightarrow> reported h ch v"
  "reported (h\<lparr>h_sent := S\<rparr>) ch v \<longleftrightarrow> reported h ch v"
  by (auto simp: reported_def)

lemma inv_subscribe:
  assumes "nc_inv s" "subscribe_step s a t"
  shows "nc_inv t"
  using assms(2)
proof cases
  case (Register c txID subs isFirst)
  have fresh: "h_owner (nc_history s) (nc_next s) = None"
    using assms(1) unfolding nc_inv_def by (metis domIff lessThan_iff less_irrefl)
  have ok: "table_ok (h_owner (nc_history s)) (nc_subscribers s)" using assms(1) by (simp add: nc_inv_def)
  note add = add_subscriber_ok [OF ok fresh Register(4)]
  have new: "\<not> reported (nc_history s) (nc_next s) v" for v
    using reported_dom fresh by auto
  have f: "(nc_next s, v) \<notin> set (in_transit (nc_dispatcher s))" "nc_buffer s (nc_next s) = None"
    "nc_calls s d \<noteq> Some (Wait_Return (nc_next s) (Ok v))" for v d
    using assms(1) new unfolding nc_inv_def by (blast, metis not_None_eq, blast)
  show ?thesis
    using assms(1) add(1,2) f reported_upd(1) [OF _ fresh]
    unfolding nc_inv_def Register(2)
    by (auto simp: lessThan_Suc split: if_splits)
next
  case (Rollback c txID ch e)
  have ok: "table_ok (h_owner (nc_history s)) (nc_subscribers s)" using assms(1) by (simp add: nc_inv_def)
  show ?thesis
    using assms(1) rollback_ok(1) [OF ok]
    unfolding nc_inv_def Rollback(2) by (auto dest: rollback_ok(2) [OF ok])
qed (use assms(1) in \<open>auto simp: nc_inv_def  reported_upd split: if_splits\<close>)

lemma inv_wait:
  assumes "nc_inv s" "wait_step s a t"
  shows "nc_inv t"
  using assms(2)
proof cases
  case (Status c ch v)
  then show ?thesis
    using assms(1) unfolding nc_inv_def 
    by (auto split: if_splits)
qed (use assms(1) in \<open>auto simp: nc_inv_def  split: if_splits\<close>)

lemma inv_receiver:
  assumes "nc_inv s" "receiver_step s a t"
  shows "nc_inv t"
  using assms(2,1)
  by cases (auto simp: nc_inv_def  reported_upd)

lemma inv_sender:
  assumes "nc_inv s" "sender_step s a t"
  shows "nc_inv t"
  using assms(2,1)
  by cases (auto simp: nc_inv_def  reported_upd)

lemma inv_listen:
  assumes "nc_inv s" "listen_step s a t"
  shows "nc_inv t"
  using assms(2,1)
  by cases (auto simp: nc_inv_def )

lemma inv_dispatcher:
  assumes inv: "nc_inv s" and step: "dispatcher_step s a t"
  shows "nc_inv t"
  using step
proof cases
  case (Take resp res ns subs)
  let ?h = "nc_history s" and ?subs = "nc_subscribers s"
  have ok: "table_ok (h_owner ?h) ?subs" and resp: "resp \<in> set (h_received ?h)"
    using inv Take(3) by (auto simp: nc_inv_def)
  have d: "distinct (map fst res)" using Take(4) by (simp add: range_of_def)
  have ns: "ns = concat (map (calls_for ?subs) res)" and subs: "subs = ?subs |` (- fst ` set res)"
    using Take(5) take_receivers_eq [OF d] by auto
  have from_table: "listed ?subs ch \<and> \<not> listed subs ch \<and> reported ?h ch v" if "(ch, v) \<in> set ns" for ch v
  proof -
    obtain txID where tx: "(txID, v) \<in> set res" "ch \<in> set (receivers_of ?subs txID)"
      using \<open>(ch, v) \<in> set ns\<close> unfolding ns set_calls_for by blast
    have own: "h_owner ?h ch = Some txID" by (rule receivers_owner [OF ok tx(2)])
    then have "\<not> listed subs ch"
      unfolding subs restrict_ok(2) [OF ok] using tx(1) receivers_owner [OF ok, of ch]
      by (force simp: image_iff)
    moreover have "parseResponse resp txID = Some v" using tx(1) range_of_set [OF Take(4)] by simp
    ultimately show ?thesis using own resp tx(2) by (auto simp: reported_def listed_receivers)
  qed
  have sub: "listed ?subs ch" if "listed subs ch" for ch
    using that unfolding subs restrict_ok(2) [OF ok] by (auto simp: listed_receivers)
  have free: "nc_buffer s ch = None \<and> nc_calls s c \<noteq> Some (Wait_Return ch (Ok w))"
    if "(ch, v) \<in> set ns" for ch v c w
    using from_table [OF that] inv_buffer [OF inv, of ch] inv_call [OF inv, of c ch w]
    by (cases "nc_buffer s ch") auto
  have ok': "table_ok (h_owner ?h) subs" unfolding subs by (rule restrict_ok(1) [OF ok])
  have dns: "distinct (map fst ns)" unfolding ns by (rule distinct_calls_for [OF ok d])
  have calls: "reported ?h ch v \<and> \<not> listed subs ch \<and> ch \<notin> fst ` set ns \<and> nc_buffer s ch = None
      \<and> (\<forall>d w. nc_calls s d = Some (Wait_Return ch (Ok w)) \<longrightarrow> d = c)"
    if "nc_calls s c = Some (Wait_Return ch (Ok v))" for c ch v
  proof -
    have "reported ?h ch v \<and> \<not> listed ?subs ch \<and> nc_buffer s ch = None
        \<and> (\<forall>d w. nc_calls s d = Some (Wait_Return ch (Ok w)) \<longrightarrow> d = c)"
      using inv_call [OF inv that] by blast
    moreover have "ch \<notin> fst ` set ns"
    proof
      assume "ch \<in> fst ` set ns"
      then obtain w where "(ch, w) \<in> set ns" by auto
      from free [OF this] show False using that by blast
    qed
    moreover have "\<not> listed subs ch" using calculation(1) sub by blast
    ultimately show ?thesis by blast
  qed
  have buf: "reported ?h ch v \<and> \<not> listed subs ch" if "nc_buffer s ch = Some v" for ch v
    using inv_buffer [OF inv that] sub by blast
  have t: "nc_subscribers t = subs" "nc_history t = ?h" "nc_next t = nc_next s"
    "nc_dispatcher t = D_Deliver ns" "nc_buffer t = nc_buffer s" "nc_calls t = nc_calls s"
    "nc_receiver t = nc_receiver s"
    unfolding Take(2) by simp_all
  have "dom (h_owner ?h) = {..<nc_next s}"
    "\<And>r. nc_receiver s = R_Push r \<Longrightarrow> r \<in> set (h_received ?h)"
    using inv_owner [OF inv] inv_response [OF inv] by auto
  moreover have "\<forall>ch v. (ch, v) \<in> set ns \<longrightarrow> reported ?h ch v \<and> \<not> listed subs ch \<and> nc_buffer s ch = None"
    using from_table free by blast
  ultimately show ?thesis
    unfolding nc_inv_def t using ok' dns calls buf by simp
next
  case (Deliver ch v ns)
  have "(ch, w) \<notin> set ns" for w
    using inv_distinct [OF inv] Deliver(3) by force
  then show ?thesis using inv Deliver unfolding nc_inv_def
    by (auto simp: deliver_def split: option.splits if_splits)
qed (use inv in \<open>auto simp: nc_inv_def\<close>)

interpretation notify: step_invariant nc_step "\<lambda>s. \<exists>t. s = nc_init t" nc_inv
proof
  show "nc_inv s" if "\<exists>t. s = nc_init t" for s using that nc_inv_init by auto
  show "nc_inv t" if "nc_inv s" "nc_step s a t" for s a t
    using that(2,1) inv_subscribe inv_wait inv_receiver inv_sender inv_dispatcher inv_listen
    by cases blast+
qed

section \<open>Who is served by which request\<close>

text \<open>
  The \<open>Subscribe\<close> call that made a channel has still to hand its request to the sender, or it has given up
  and has still to take the channel out of the table.
\<close>

definition request_pending :: "nc_state \<Rightarrow> string \<Rightarrow> channel \<Rightarrow> bool" where
  "request_pending s txID ch \<longleftrightarrow>
     (\<exists>c. nc_calls s c \<in> {Some (Sub_Request txID ch), Some (Sub_Push txID ch)})"

definition giving_up :: "nc_state \<Rightarrow> string \<Rightarrow> channel \<Rightarrow> bool" where
  "giving_up s txID ch \<longleftrightarrow> (\<exists>c e. nc_calls s c = Some (Sub_Rollback txID ch e))"

definition in_progress :: "nc_state \<Rightarrow> string \<Rightarrow> channel \<Rightarrow> bool" where
  "in_progress s txID ch \<longleftrightarrow>
     (\<exists>c. nc_calls s c \<in> {Some (Sub_Request txID ch), Some (Sub_Push txID ch)}
        \<or> (\<exists>e. nc_calls s c = Some (Sub_Rollback txID ch e)))"

lemma in_progress_iff: "in_progress s txID ch \<longleftrightarrow> request_pending s txID ch \<or> giving_up s txID ch"
  by (auto simp: in_progress_def request_pending_def giving_up_def)

text \<open>The channel at the head of each transaction's list has made its request, or its call is still at it.\<close>

definition served :: "nc_state \<Rightarrow> bool" where
  "served s \<longleftrightarrow> (\<forall>txID l. nc_subscribers s txID = Some l \<longrightarrow>
     hd l \<in> h_requested (nc_history s) \<or> in_progress s txID (hd l))"

text \<open>A rollback that leaves other subscribers of its transaction behind.\<close>

definition abandons :: "nc_state \<Rightarrow> nc_action \<Rightarrow> bool" where
  "abandons s a \<longleftrightarrow>
     (\<exists>c txID ch e l. a = A_Rollback c \<and> nc_calls s c = Some (Sub_Rollback txID ch e)
        \<and> nc_subscribers s txID = Some l \<and> ch \<in> set l \<and> l \<noteq> [ch])"

definition polite_step :: "nc_state \<Rightarrow> nc_action \<Rightarrow> nc_state \<Rightarrow> bool" where
  "polite_step s a t \<longleftrightarrow> nc_step s a t \<and> \<not> abandons s a"

lemma run_polite:
  "run nc_step s ls t \<Longrightarrow> (\<And>s a. a \<in> set ls \<Longrightarrow> \<not> abandons s a) \<Longrightarrow> run polite_step s ls t"
  by (induction rule: run.induct) (auto intro: run.intros simp: polite_step_def)

text \<open>The call that stands before its request is not disturbed by the steps of the others.\<close>

lemma pending_set_call:
  "in_progress s txID ch \<Longrightarrow>
     (\<And>e. nc_calls s c \<notin> {Some (Sub_Request txID ch), Some (Sub_Push txID ch), Some (Sub_Rollback txID ch e)}) \<Longrightarrow>
     nc_calls t = (nc_calls s)(c \<mapsto> k) \<Longrightarrow> in_progress t txID ch"
  unfolding in_progress_def by (metis fun_upd_apply insert_iff)

lemma pending_cong: "nc_calls t = nc_calls s \<Longrightarrow> in_progress t = in_progress s"
  by (simp add: in_progress_def fun_eq_iff)

lemma pending_advance:
  assumes "in_progress s tx q" "nc_calls s c \<in> {Some (Sub_Request txID ch), Some (Sub_Push txID ch)}"
    and "nc_calls t = (nc_calls s)(c \<mapsto> k)" "k = Sub_Push txID ch \<or> k = Sub_Rollback txID ch e"
  shows "in_progress t tx q"
proof -
  obtain d where d: "nc_calls s d \<in> {Some (Sub_Request tx q), Some (Sub_Push tx q)}
      \<or> (\<exists>e. nc_calls s d = Some (Sub_Rollback tx q e))"
    using assms(1) unfolding in_progress_def by blast
  show ?thesis
  proof (cases "d = c")
    case True
    then have "tx = txID \<and> q = ch" using d assms(2) by auto
    then show ?thesis using assms(3,4) unfolding in_progress_def by (intro exI [of _ c]) auto
  next
    case False
    then show ?thesis using d assms(3) unfolding in_progress_def by (intro exI [of _ d]) auto
  qed
qed

lemma served_same:
  "served s \<Longrightarrow> nc_subscribers t = nc_subscribers s \<Longrightarrow> nc_calls t = nc_calls s \<Longrightarrow>
     h_requested (nc_history t) = h_requested (nc_history s) \<Longrightarrow> served t"
  by (simp add: served_def pending_cong [of t s])

lemma served_subscribe:
  assumes "nc_inv s" "served s" "subscribe_step s a t" "\<not> abandons s a"
  shows "served t"
  using assms(3)
proof cases
  case (Subscribe c txID)
  then show ?thesis using assms(2) pending_set_call [of s _ _ c t]
    unfolding served_def by (auto 4 3)
next
  case (Check_failed c txID e)
  then show ?thesis using assms(2) pending_set_call [of s _ _ c t]
    unfolding served_def by (auto 4 3)
next
  case (Check_ok c txID)
  then show ?thesis using assms(2) pending_set_call [of s _ _ c t]
    unfolding served_def by (auto 4 3)
next
  case (Proceed c txID ch)
  have "nc_calls t = (nc_calls s)(c \<mapsto> Sub_Push txID ch)" using Proceed(2) by simp
  from pending_advance [OF _ _ this, of _ _ txID ch] show ?thesis
    using assms(2) Proceed unfolding served_def by auto
next
  case (Deadline c txID ch e)
  have "nc_calls t = (nc_calls s)(c \<mapsto> Sub_Rollback txID ch e)" using Deadline(2) by simp
  from pending_advance [OF _ Deadline(3) this, of _ _ e] show ?thesis
    using assms(2) Deadline unfolding served_def by auto
next
  case (Push c txID ch)
  have calls: "nc_calls t = (nc_calls s)(c \<mapsto> Sub_Return (Ok ch))" using Push(2) by simp
  have "in_progress t tx q" if "in_progress s tx q" "q \<noteq> ch" for tx q
    by (rule pending_set_call [OF that(1) _ calls]) (use Push(3) that(2) in auto)
  then show ?thesis
    using assms(2) unfolding served_def Push(2) by auto
next
  case (Register c txID subs isFirst)
  have ok: "table_ok (h_owner (nc_history s)) (nc_subscribers s)" by (rule inv_table [OF assms(1)])
  have subs: "subs = (nc_subscribers s)(txID \<mapsto> receivers_of (nc_subscribers s) txID @ [nc_next s])"
    and first: "isFirst \<longleftrightarrow> receivers_of (nc_subscribers s) txID = []"
    using Register(4) by (auto simp: add_subscriber_eq)
  let ?k = "if \<not> isFirst then Sub_Return (Ok (nc_next s)) else Sub_Request txID (nc_next s)"
  have calls: "nc_calls t = (nc_calls s)(c \<mapsto> ?k)" and t: "nc_subscribers t = subs"
    "h_requested (nc_history t) = h_requested (nc_history s)" using Register(2) by simp_all
  have old: "in_progress t tx q" if "in_progress s tx q" for tx q
    by (rule pending_set_call [OF that _ calls]) (use Register(3) in auto)
  show ?thesis
    unfolding served_def
  proof (intro allI impI)
    fix tx l
    assume l: "nc_subscribers t tx = Some l"
    show "hd l \<in> h_requested (nc_history t) \<or> in_progress t tx (hd l)"
    proof (cases "tx = txID \<and> isFirst")
      case True
      then have "hd l = nc_next s" using l t subs first by auto
      moreover have "nc_calls t c = Some (Sub_Request txID (nc_next s))" using calls True by simp
      ultimately show ?thesis using True unfolding in_progress_def by auto
    next
      case False
      then obtain l' where "nc_subscribers s tx = Some l'" "hd l' = hd l"
        using l t(1) first unfolding subs
        by (cases "tx = txID"; cases "nc_subscribers s txID") (auto simp: receivers_of_def)
      then show ?thesis using assms(2) old t(2) unfolding served_def by metis
    qed
  qed
next
  case (Rollback c txID ch e)
  have ok: "table_ok (h_owner (nc_history s)) (nc_subscribers s)" by (rule inv_table [OF assms(1)])
  have calls: "nc_calls t = (nc_calls s)(c \<mapsto> Sub_Return (Err e))"
    and t: "nc_subscribers t = rollback txID ch (nc_subscribers s)"
    "h_requested (nc_history t) = h_requested (nc_history s)" using Rollback(2) by simp_all
  have old: "in_progress t tx q" if "in_progress s tx q" "tx \<noteq> txID \<or> q \<noteq> ch" for tx q
    by (rule pending_set_call [OF that(1) _ calls]) (use Rollback(3) that(2) in auto)
  have "nc_subscribers s tx = Some l \<and> (tx \<noteq> txID \<or> hd l \<noteq> ch)" if "nc_subscribers t tx = Some l" for tx l
  proof (cases "tx = txID")
    case True
    have "ch \<in> set l' \<Longrightarrow> l' = [ch]" if "nc_subscribers s txID = Some l'" for l'
      using assms(4) Rollback(1,3) that unfolding abandons_def by blast
    then have "nc_subscribers s txID = Some l \<and> ch \<notin> set l"
      using that True unfolding t rollback_def
      by (auto simp: Let_def split: option.splits if_splits)
    then show ?thesis using True ok unfolding table_ok_def by (metis hd_in_set)
  next
    case False
    then show ?thesis
      using that unfolding t rollback_def by (auto simp: Let_def split: option.splits if_splits)
  qed
  then show ?thesis using assms(2) old t(2) unfolding served_def by metis
qed

lemma served_step:
  assumes "nc_inv s" "served s" "nc_step s a t" "\<not> abandons s a"
  shows "served t"
  using assms(3)
proof cases
  case 1
  then show ?thesis using served_subscribe assms by blast
next
  case 2
  then show ?thesis
  proof cases
    case (Wait c d ch)
    then show ?thesis using assms(2) pending_set_call [of s _ _ c t] unfolding served_def by (auto 4 3)
  next
    case (Wait_proceed c ch)
    then show ?thesis using assms(2) pending_set_call [of s _ _ c t] unfolding served_def by (auto 4 3)
  next
    case (Wait_deadline c ch e)
    then show ?thesis using assms(2) pending_set_call [of s _ _ c t] unfolding served_def by (auto 4 3)
  next
    case (Status c ch v)
    then show ?thesis using assms(2) pending_set_call [of s _ _ c t] unfolding served_def by (auto 4 3)
  qed
next
  case 3
  then show ?thesis by cases (auto intro!: served_same [OF assms(2)])
next
  case 4
  then show ?thesis by cases (auto intro!: served_same [OF assms(2)])
next
  case 5
  then show ?thesis
  proof cases
    case (Take resp res ns subs)
    have "subs = nc_subscribers s |` (- fst ` set res)"
      using Take(4,5) take_receivers_eq [of res "nc_subscribers s"] by (simp add: range_of_def)
    then have "nc_subscribers s tx = Some l" if "subs tx = Some l" for tx l
      using that by (auto simp: restrict_map_def split: if_splits)
    moreover have "in_progress t = in_progress s" by (rule pending_cong) (simp add: Take(2))
    ultimately show ?thesis using assms(2) unfolding served_def Take(2) by simp
  qed (auto intro!: served_same [OF assms(2)])
next
  case 6
  then show ?thesis
  proof cases
    case (Clear err)
    then show ?thesis by (simp add: served_def)
  qed (auto intro!: served_same [OF assms(2)])
qed

interpretation shared: step_invariant polite_step "\<lambda>s. \<exists>t. s = nc_init t" "\<lambda>s. nc_inv s \<and> served s"
proof
  show "nc_inv s \<and> served s" if "\<exists>t. s = nc_init t" for s
    using that nc_inv_init by (auto simp: served_def nc_init_def)
  show "nc_inv t \<and> served t" if "nc_inv s \<and> served s" "polite_step s a t" for s a t
    using that notify.step_inv served_step unfolding polite_step_def by blast
qed

section \<open>A failed stream\<close>

text \<open>A listener that ended with an error other than a cancellation has published it.\<close>

definition failure_published :: "nc_state \<Rightarrow> bool" where
  "failure_published s \<longleftrightarrow>
     (\<forall>e. nc_listener s \<in> {L_Cleanup (Some e), L_Exited (Some e)} \<and> \<not> errors_Is e Context_Canceled
        \<longrightarrow> nc_streamErr s = Some e)"

interpretation failing: step_invariant nc_step "\<lambda>s. \<exists>t. s = nc_init t" failure_published
proof
  show "failure_published s" if "\<exists>t. s = nc_init t" for s
    using that by (auto simp: failure_published_def nc_init_def)
  show "failure_published t" if inv: "failure_published s" and "nc_step s a t" for s a t
    using that(2)
  proof cases
    case 6
    then show ?thesis using inv by cases (auto simp: failure_published_def)
  qed (use inv in \<open>auto simp: failure_published_def elim!: subscribe_step.cases wait_step.cases
      receiver_step.cases sender_step.cases dispatcher_step.cases\<close>)
qed

section \<open>Sample runs\<close>

text \<open>One transaction, subscribed to, reported with status 3, up to the dispatcher's delivery.\<close>

definition sample_response :: notification_response where
  "sample_response = \<lparr>resp_TimeoutTxIds = [''U''], resp_TxStatusEvents = [(''T'', 3)]\<rparr>"

definition sample_run :: "nc_action list" where
  "sample_run = [A_OpenStream (Ok ()), A_Subscribe 1 ''T'', A_Check 1, A_Register 1, A_Proceed 1,
     A_Push 1, A_Send (Ok ()), A_Recv (Ok sample_response), A_Respond, A_Take [(''U'', 0), (''T'', 3)]]"

definition sample_table :: subscribers where
  "sample_table = [''T'' \<mapsto> [0]]"

lemmas sample_run_simps = sample_run_def sample_response_def nc_init_def add_subscriber_def
  status_request_def response_range_def response_ids_def parseResponse_def STATUS_UNSPECIFIED_def
  deliver_def Let_def

lemma sample_run_delivers:
  "\<exists>s. run nc_step (nc_init 5) sample_run s \<and> nc_dispatcher s = D_Deliver [(0, 3)] \<and> nc_buffer s 0 = None"
  by (intro exI conjI, rule nc_execs_run, simp add: sample_run_simps insert_commute) simp_all

lemma sample_run_returns:
  "\<exists>s. run nc_step (nc_init 5) (sample_run @ [A_Deliver, A_Deliver_End, A_Wait 2 1, A_Proceed 2, A_Status 2]) s
     \<and> nc_calls s 2 = Some (Wait_Return 0 (Ok 3)) \<and> h_owner (nc_history s) 0 = Some ''T''"
  by (intro exI conjI, rule nc_execs_run, simp add: sample_run_simps insert_commute) simp_all

section \<open>Properties\<close>

text \<open>
  C17: in every run, a status that \<open>WaitForEvent\<close> returns for a channel was reported by the service
  for the transaction the channel was subscribed to (as an event, or as a timeout), and no other
  call ever gets a status from that channel: a subscription yields one status at most.
\<close>

theorem status_is_the_reported_one:
  assumes "run nc_step (nc_init w) ls s" "nc_calls s c = Some (Wait_Return ch (Ok v))"
  shows "(\<exists>txID. h_owner (nc_history s) ch = Some txID \<and>
      (\<exists>resp \<in> set (h_received (nc_history s)). parseResponse resp txID = Some v))
    \<and> (\<forall>d v'. nc_calls s d = Some (Wait_Return ch (Ok v')) \<longrightarrow> d = c \<and> v' = v)"
proof -
  have inv: "nc_inv s" using notify.reachable_inv assms(1) by blast
  have "v' = v" if "nc_calls s c = Some (Wait_Return ch (Ok v'))" for v'
    using that assms(2) by simp
  then show ?thesis using inv_call [OF inv assms(2)] unfolding reported_def by blast
qed

theorem status_is_the_reported_one_witness:
  "\<exists>(s :: nc_state) resp. nc_calls s 2 = Some (Wait_Return 0 (Ok 3)) \<and> h_owner (nc_history s) 0 = Some ''T''
     \<and> resp \<in> set (h_received (nc_history s)) \<and> parseResponse resp ''T'' = Some 3"
proof -
  obtain s where s: "run nc_step (nc_init 5) (sample_run @ [A_Deliver, A_Deliver_End, A_Wait 2 1, A_Proceed 2, A_Status 2]) s"
    "nc_calls s 2 = Some (Wait_Return 0 (Ok 3))" "h_owner (nc_history s) 0 = Some ''T''"
    using sample_run_returns by blast
  obtain resp where "resp \<in> set (h_received (nc_history s))" "parseResponse resp ''T'' = Some 3"
    using status_is_the_reported_one [OF s(1,2)] s(3) by auto
  then show ?thesis using s(2,3) by blast
qed

text \<open>
  C6: the branch of the dispatcher that drops a status because the channel is full is never taken:
  whenever the dispatcher sends to a channel, the channel is empty, no longer in the table, and
  holds the status afterwards.
\<close>

theorem no_status_dropped:
  assumes "run nc_step (nc_init w) ls s" "nc_step s A_Deliver t"
  shows "\<exists>ch v ns. nc_dispatcher s = D_Deliver ((ch, v) # ns) \<and> nc_buffer s ch = None
    \<and> \<not> listed (nc_subscribers s) ch \<and> nc_buffer t = (nc_buffer s)(ch \<mapsto> v)"
proof -
  have inv: "nc_inv s" using notify.reachable_inv assms(1) by blast
  have "dispatcher_step s A_Deliver t"
    using assms(2) by cases (auto elim: subscribe_step.cases wait_step.cases receiver_step.cases
        sender_step.cases listen_step.cases)
  then show ?thesis
  proof cases
    case (Deliver ch v ns)
    then show ?thesis using inv_transit [OF inv, of ch v] by (auto simp: deliver_def)
  qed
qed

theorem no_status_dropped_witness:
  "\<exists>s t. nc_step s A_Deliver t \<and> nc_buffer s 0 = None \<and> nc_buffer t 0 = Some 3"
proof -
  obtain s where s: "run nc_step (nc_init 5) sample_run s" "nc_dispatcher s = D_Deliver [(0, 3)]"
    using sample_run_delivers by blast
  then obtain t where t: "nc_step s A_Deliver t" using nc_exec_sound [of s A_Deliver] by auto
  show ?thesis using no_status_dropped [OF s(1) t] s(2) t by (intro exI [of _ s] exI [of _ t]) auto
qed

text \<open>
  C28: taking the receivers of a response gives every channel listed under a transaction of the
  response that transaction's status, and nothing to anybody else, and removes exactly these
  transactions from the table; a different order of the range statement only permutes the calls.
\<close>

theorem dispatch_complete:
  assumes "range_of (parseResponse resp) res" "take_receivers res subs = (ns, subs')"
  shows "set ns = {(ch, v). \<exists>txID. parseResponse resp txID = Some v \<and> ch \<in> set (receivers_of subs txID)}
    \<and> subs' = subs |` (- dom (parseResponse resp))
    \<and> (\<forall>res' ns' subs''. range_of (parseResponse resp) res' \<longrightarrow>
         take_receivers res' subs = (ns', subs'') \<longrightarrow> mset ns' = mset ns \<and> subs'' = subs')"
proof -
  have eq: "take_receivers r subs = (concat (map (calls_for subs) r), subs |` (- dom (parseResponse resp)))"
    if "range_of (parseResponse resp) r" for r
    using take_receivers_eq [of r subs] range_of_dom [OF that] that by (simp add: range_of_def)
  have ns: "ns = concat (map (calls_for subs) res)" "subs' = subs |` (- dom (parseResponse resp))"
    using eq [OF assms(1)] assms(2) by auto
  have "mset ns' = mset ns \<and> subs'' = subs'"
    if "range_of (parseResponse resp) r" "take_receivers r subs = (ns', subs'')" for r ns' subs''
    using eq [OF that(1)] that(2) ns range_of_perm [OF that(1) assms(1)]
    by (auto simp: mset_concat_map)
  then show ?thesis using ns(2) range_of_set [OF assms(1)] unfolding ns(1) set_calls_for by blast
qed

theorem dispatch_complete_witness:
  "take_receivers [(''U'', 0), (''T'', 3)] sample_table = ([(0, 3)], Map.empty)
   \<and> set [(0 :: channel, 3 :: int)] =
       {(ch, v). \<exists>txID. parseResponse sample_response txID = Some v \<and> ch \<in> set (receivers_of sample_table txID)}"
proof -
  have r: "range_of (parseResponse sample_response) [(''U'', 0), (''T'', 3)]"
    unfolding response_range_iff [symmetric] by (auto simp: sample_run_simps)
  have t: "take_receivers [(''U'', 0), (''T'', 3)] sample_table = ([(0, 3)], Map.empty)"
    by (simp add: sample_table_def fun_eq_iff)
  show ?thesis using dispatch_complete [OF r t] t by simp
qed

text \<open>
  C18: in every run in which no subscriber that has to give up leaves others of its transaction
  behind, each transaction in the table is served: the channel at the head of its list has handed
  its request to the stream's sender, or its call is still about to; or this call is giving up at
  the moment, and then its next step, where the run allows it, takes the transaction out of the table.
\<close>

theorem subscribers_served:
  assumes "run polite_step (nc_init w) ls s" "nc_subscribers s txID = Some l"
  shows "(hd l \<in> h_requested (nc_history s) \<or> request_pending s txID (hd l) \<or> giving_up s txID (hd l))
    \<and> (\<forall>c e t. nc_calls s c = Some (Sub_Rollback txID (hd l) e) \<longrightarrow> polite_step s (A_Rollback c) t \<longrightarrow>
         nc_subscribers t txID = None)"
proof -
  have inv: "nc_inv s" "served s" using shared.reachable_inv [OF exI [of _ w] assms(1)] by auto
  have "l \<noteq> []" using inv_table [OF inv(1)] assms(2) unfolding table_ok_def by blast
  have "nc_subscribers t txID = None"
    if "nc_calls s c = Some (Sub_Rollback txID (hd l) e)" "polite_step s (A_Rollback c) t" for c e t
  proof -
    have "l = [hd l]" using that assms(2) \<open>l \<noteq> []\<close> hd_in_set unfolding polite_step_def abandons_def by blast
    then obtain ch where "l = [ch]" by blast
    have "subscribe_step s (A_Rollback c) t"
      using that(2) unfolding polite_step_def
      by (auto elim: nc_step.cases wait_step.cases receiver_step.cases sender_step.cases dispatcher_step.cases listen_step.cases)
    then show ?thesis
      by cases (use that(1) assms(2) \<open>l = [ch]\<close> in \<open>auto simp: rollback_def Let_def\<close>)
  qed
  then show ?thesis using inv(2) assms(2) by (auto simp: served_def in_progress_iff)
qed

theorem subscribers_served_witness:
  "\<exists>s. run polite_step (nc_init 5) [A_Subscribe 1 ''T'', A_Check 1, A_Register 1] s
     \<and> nc_subscribers s ''T'' = Some [0] \<and> request_pending s ''T'' 0"
proof -
  obtain s where s: "run nc_step (nc_init 5) [A_Subscribe 1 ''T'', A_Check 1, A_Register 1] s"
    "nc_subscribers s ''T'' = Some [0]" "h_requested (nc_history s) = {}" "nc_calls s = [1 \<mapsto> Sub_Request ''T'' 0]"
  proof -
    have "\<exists>s. run nc_step (nc_init 5) [A_Subscribe 1 ''T'', A_Check 1, A_Register 1] s
      \<and> nc_subscribers s ''T'' = Some [0] \<and> h_requested (nc_history s) = {} \<and> nc_calls s = [1 \<mapsto> Sub_Request ''T'' 0]"
      by (intro exI conjI, rule nc_execs_run, simp add: sample_run_simps) simp_all
    then show thesis using that by blast
  qed
  have p: "run polite_step (nc_init 5) [A_Subscribe 1 ''T'', A_Check 1, A_Register 1] s"
    by (rule run_polite [OF s(1)]) (auto simp: abandons_def)
  show ?thesis using subscribers_served [OF p s(2)] p s(2,3,4) by (auto simp: giving_up_def split: if_splits)
qed

text \<open>
  C19: the proviso is needed. There is a run on a working stream after which \<open>Subscribe\<close> has returned
  a channel without an error, the channel is in the table, and no request was made for it, none is
  under way, and no call is left that would make one: the first subscriber's deadline struck
  between its registration and its request, after the second had found the entry.
\<close>

theorem subscriber_stranded:
  "\<exists>ls s. run nc_step (nc_init 5) ls s
     \<and> nc_calls s 2 = Some (Sub_Return (Ok 1)) \<and> nc_subscribers s ''T'' = Some [1]
     \<and> nc_streamErr s = None \<and> nc_listener s = L_Group \<and> nc_sender s = S_Wait
     \<and> h_sent (nc_history s) = [] \<and> h_requested (nc_history s) = {}
     \<and> (\<forall>txID ch. \<not> request_pending s txID ch \<and> \<not> giving_up s txID ch)"
proof (intro exI)
  let ?ls = "[A_OpenStream (Ok ()), A_Subscribe 1 ''T'', A_Check 1, A_Register 1,
    A_Subscribe 2 ''T'', A_Check 2, A_Register 2, A_Deadline 1 Context_DeadlineExceeded, A_Rollback 1]"
  let ?s = "(nc_init 5)\<lparr>nc_listener := L_Group, nc_receiver := R_Recv, nc_sender := S_Wait,
    nc_dispatcher := D_Wait, nc_next := 2, nc_subscribers := [''T'' \<mapsto> [1]],
    nc_calls := [1 \<mapsto> Sub_Return (Err Context_DeadlineExceeded), 2 \<mapsto> Sub_Return (Ok 1)],
    nc_history := \<lparr>h_owner = [0 \<mapsto> ''T'', 1 \<mapsto> ''T''], h_requested = {}, h_sent = [], h_received = []\<rparr>\<rparr>"
  have "run nc_step (nc_init 5) ?ls ?s"
    by (rule nc_execs_run)
      (simp add: nc_init_def add_subscriber_def rollback_def context_errors_def Let_def fun_upd_twist)
  then show "run nc_step (nc_init 5) ?ls ?s
     \<and> nc_calls ?s 2 = Some (Sub_Return (Ok 1)) \<and> nc_subscribers ?s ''T'' = Some [1]
     \<and> nc_streamErr ?s = None \<and> nc_listener ?s = L_Group \<and> nc_sender ?s = S_Wait
     \<and> h_sent (nc_history ?s) = [] \<and> h_requested (nc_history ?s) = {}
     \<and> (\<forall>txID ch. \<not> request_pending ?s txID ch \<and> \<not> giving_up ?s txID ch)"
    by (simp add: nc_init_def request_pending_def giving_up_def)
qed

text \<open>
  After the listener has ended with an error that is not a cancellation, every \<open>Subscribe\<close> that
  starts returns this error at once, and changes neither the table nor the channels.
\<close>

theorem subscribe_fails_fast:
  assumes "run nc_step (nc_init w) ls s" "nc_listener s = L_Exited (Some e)"
    and "\<not> errors_Is e Context_Canceled"
    and "nc_step s (A_Check c) t"
  shows "t = set_call c (Sub_Return (Err e)) s"
proof -
  have "failure_published s" using failing.reachable_inv assms(1) by blast
  then have "nc_streamErr s = Some e" using assms(2,3) by (auto simp: failure_published_def)
  moreover have "subscribe_step s (A_Check c) t"
    using assms(4) by cases (auto elim: wait_step.cases receiver_step.cases sender_step.cases
        dispatcher_step.cases listen_step.cases)
  ultimately show ?thesis by (auto elim: subscribe_step.cases)
qed


theorem subscribe_fails_fast_witness:
  "\<exists>s t. run nc_step (nc_init 5) [A_OpenStream (Err (Error_Ext ''down'')), A_Subscribe 1 ''T''] s
     \<and> nc_step s (A_Check 1) t \<and> nc_calls t 1 = Some (Sub_Return (Err (Error_Ext ''down'')))"
proof -
  let ?e = "Error_Ext ''down''"
  have "\<exists>s. run nc_step (nc_init 5) [A_OpenStream (Err ?e), A_Subscribe 1 ''T''] s
      \<and> nc_listener s = L_Exited (Some ?e) \<and> nc_calls s 1 = Some (Sub_Start ''T'')"
    by (intro exI conjI, rule nc_execs_run, simp add: nc_init_def) simp_all
  then obtain s where s: "run nc_step (nc_init 5) [A_OpenStream (Err ?e), A_Subscribe 1 ''T''] s"
    "nc_listener s = L_Exited (Some ?e)" "nc_calls s 1 = Some (Sub_Start ''T'')" by blast
  obtain t where t: "nc_step s (A_Check 1) t" using nc_exec_sound [of s "A_Check 1"] s(3) by simp
  have "t = set_call 1 (Sub_Return (Err ?e)) s"
    by (rule subscribe_fails_fast [OF s(1,2) _ t]) simp
  then have "nc_calls t 1 = Some (Sub_Return (Err ?e))" by simp
  then show ?thesis using s(1) t by blast
qed
end
