(* ===== verification/Notifications_Spec.thy ===== *)
theory Notifications_Spec
  imports Notifications_Inv
begin

text \<open>
  The notification client against its contract: an abstract publish and subscribe service, in which
  a report reaches all subscribers of its transactions at once. Every run of the client's
  interleaved steps is a run of the service (a forward simulation), and the calls of the client
  return: each has a bounded number of steps of its own, and always one to take.
\<close>

section \<open>Simulations\<close>

text \<open>
  The steps of an executable machine, with what an observer sees of them; a step without an
  observation leaves the abstract state alone.
\<close>

fun traced ::
    "('s \<Rightarrow> 'l \<Rightarrow> 's option) \<Rightarrow> ('s \<Rightarrow> 'l \<Rightarrow> 'e option) \<Rightarrow> 's \<Rightarrow> 'l list \<Rightarrow> ('e list \<times> 's) option" where
  "traced exec observe s [] = Some ([], s)"
| "traced exec observe s (l # ls) =
     (case exec s l of None \<Rightarrow> None
      | Some t \<Rightarrow>
          (case traced exec observe t ls of None \<Rightarrow> None
           | Some (es, u) \<Rightarrow> Some ((case observe s l of None \<Rightarrow> es | Some e \<Rightarrow> e # es), u)))"

locale simulation =
  fixes exec :: "'s \<Rightarrow> 'l \<Rightarrow> 's option"
    and observe :: "'s \<Rightarrow> 'l \<Rightarrow> 'e option"
    and abs_step :: "'a \<Rightarrow> 'e \<Rightarrow> 'a \<Rightarrow> bool"
    and abs :: "'s \<Rightarrow> 'a"
    and inv :: "'s \<Rightarrow> bool"
  assumes exec_inv: "inv s \<Longrightarrow> exec s l = Some t \<Longrightarrow> inv t"
    and exec_sim: "inv s \<Longrightarrow> exec s l = Some t \<Longrightarrow>
      (case observe s l of None \<Rightarrow> abs t = abs s | Some e \<Rightarrow> abs_step (abs s) e (abs t))"
begin

lemma simulated: "inv s \<Longrightarrow> traced exec observe s ls = Some (es, t) \<Longrightarrow> run abs_step (abs s) es (abs t)"
proof (induction ls arbitrary: s es)
  case Nil
  then show ?case by auto
next
  case (Cons l ls)
  then obtain u fs where u: "exec s l = Some u" "traced exec observe u ls = Some (fs, t)"
    and es: "es = (case observe s l of None \<Rightarrow> fs | Some e \<Rightarrow> e # fs)"
    by (auto split: option.splits)
  have "run abs_step (abs u) fs (abs t)" using Cons.IH [OF exec_inv [OF Cons.prems(1) u(1)] u(2)] .
  then show ?case
    using exec_sim [OF Cons.prems(1) u(1)] unfolding es by (cases "observe s l") (auto intro: run_Cons)
qed

end

section \<open>The publish and subscribe service\<close>

record pubsub =
  ps_waiting :: "channel \<rightharpoonup> string"
  ps_status :: "channel \<rightharpoonup> int"

definition ps_empty :: pubsub where
  "ps_empty = \<lparr>ps_waiting = Map.empty, ps_status = Map.empty\<rparr>"

datatype ps_event =
    P_Subscribe channel string
  | P_Unsubscribe channel
  | P_Report "string \<rightharpoonup> int"
  | P_Read channel int
  | P_Close

text \<open>
  A report gives every channel that waits for one of its transactions this transaction's status,
  and ends its wait; a status is read once.
\<close>

inductive ps_step :: "pubsub \<Rightarrow> ps_event \<Rightarrow> pubsub \<Rightarrow> bool" where
  Subscribe: "ps_waiting s ch = None \<Longrightarrow> ps_status s ch = None \<Longrightarrow>
    ps_step s (P_Subscribe ch txID) (s\<lparr>ps_waiting := (ps_waiting s)(ch \<mapsto> txID)\<rparr>)"
| Unsubscribe: "ps_step s (P_Unsubscribe ch) (s\<lparr>ps_waiting := (ps_waiting s)(ch := None)\<rparr>)"
| Report: "ps_step s (P_Report m)
    \<lparr>ps_waiting = (\<lambda>ch. case ps_waiting s ch of None \<Rightarrow> None
        | Some txID \<Rightarrow> if m txID = None then Some txID else None),
     ps_status = (\<lambda>ch. case ps_waiting s ch of None \<Rightarrow> ps_status s ch
        | Some txID \<Rightarrow> (case m txID of None \<Rightarrow> ps_status s ch | Some v \<Rightarrow> Some v))\<rparr>"
| Read: "ps_status s ch = Some v \<Longrightarrow>
    ps_step s (P_Read ch v) (s\<lparr>ps_status := (ps_status s)(ch := None)\<rparr>)"
| Close: "ps_step s P_Close (s\<lparr>ps_waiting := Map.empty\<rparr>)"

section \<open>The client refines it\<close>

text \<open>
  A channel waits while the table lists it; its status is in the dispatcher's hands or in the
  channel. The observable actions are the critical sections and the read.
\<close>

definition ps_abs :: "nc_state \<Rightarrow> pubsub" where
  "ps_abs s =
     \<lparr>ps_waiting = (\<lambda>ch. if listed (nc_subscribers s) ch then h_owner (nc_history s) ch else None),
      ps_status = nc_buffer s ++ map_of (in_transit (nc_dispatcher s))\<rparr>"

fun nc_observe :: "nc_state \<Rightarrow> nc_action \<Rightarrow> ps_event option" where
  "nc_observe s (A_Register c) =
     (case nc_calls s c of Some (Sub_Register txID) \<Rightarrow> Some (P_Subscribe (nc_next s) txID) | _ \<Rightarrow> None)"
| "nc_observe s (A_Rollback c) =
     (case nc_calls s c of Some (Sub_Rollback txID ch e) \<Rightarrow> Some (P_Unsubscribe ch) | _ \<Rightarrow> None)"
| "nc_observe s (A_Take res) =
     (case nc_dispatcher s of D_Take resp \<Rightarrow> Some (P_Report (parseResponse resp)) | _ \<Rightarrow> None)"
| "nc_observe s (A_Status c) =
     (case nc_calls s c of
        Some (Wait_Recv ch) \<Rightarrow> (case nc_buffer s ch of Some v \<Rightarrow> Some (P_Read ch v) | None \<Rightarrow> None)
      | _ \<Rightarrow> None)"
| "nc_observe s A_Clear = Some P_Close"
| "nc_observe s _ = None"

definition simulates :: "nc_state \<Rightarrow> nc_action \<Rightarrow> nc_state \<Rightarrow> bool" where
  "simulates s a t \<longleftrightarrow>
     (case nc_observe s a of None \<Rightarrow> ps_abs t = ps_abs s | Some e \<Rightarrow> ps_step (ps_abs s) e (ps_abs t))"

lemma ps_abs_cong:
  "nc_subscribers t = nc_subscribers s \<Longrightarrow> h_owner (nc_history t) = h_owner (nc_history s) \<Longrightarrow>
     nc_buffer t = nc_buffer s \<Longrightarrow> in_transit (nc_dispatcher t) = in_transit (nc_dispatcher s) \<Longrightarrow>
     ps_abs t = ps_abs s"
  by (simp add: ps_abs_def cong: if_cong)

text \<open>A call that has registered a channel but not returned it works for the channel's transaction.\<close>

fun working_for :: "call \<Rightarrow> (string \<times> channel) option" where
  "working_for (Sub_Request txID ch) = Some (txID, ch)"
| "working_for (Sub_Push txID ch) = Some (txID, ch)"
| "working_for (Sub_Rollback txID ch e) = Some (txID, ch)"
| "working_for _ = None"

definition calls_own :: "nc_state \<Rightarrow> bool" where
  "calls_own s \<longleftrightarrow> (\<forall>c k txID ch. nc_calls s c = Some k \<longrightarrow> working_for k = Some (txID, ch)
     \<longrightarrow> h_owner (nc_history s) ch = Some txID)"

lemma calls_own_cong:
  "calls_own s \<Longrightarrow> nc_calls t = nc_calls s \<Longrightarrow> h_owner (nc_history t) = h_owner (nc_history s) \<Longrightarrow> calls_own t"
  by (simp add: calls_own_def)

lemma calls_own_upd:
  assumes "calls_own s" "nc_calls t = (nc_calls s)(c \<mapsto> k)"
    and "\<And>ch txID. h_owner (nc_history s) ch = Some txID \<Longrightarrow> h_owner (nc_history t) ch = Some txID"
    and "\<And>txID ch. working_for k = Some (txID, ch) \<Longrightarrow> h_owner (nc_history t) ch = Some txID"
  shows "calls_own t"
  using assms by (auto simp: calls_own_def split: if_splits)

lemma calls_ownD:
  "calls_own s \<Longrightarrow> nc_calls s c = Some k \<Longrightarrow> working_for k = Some (txID, ch) \<Longrightarrow>
     h_owner (nc_history s) ch = Some txID"
  by (auto simp: calls_own_def)

lemma calls_own_step:
  assumes "nc_inv s" "calls_own s" "nc_step s a t"
  shows "calls_own t"
  using assms(3)
proof cases
  case 1
  then show ?thesis
  proof cases
    case (Register c txID subs isFirst)
    have "h_owner (nc_history s) (nc_next s) = None"
      using inv_owner [OF assms(1)] by (metis domIff lessThan_iff less_irrefl)
    then show ?thesis
      unfolding Register(2) by (intro calls_own_upd [OF assms(2)]) (auto split: if_splits)
  qed (auto intro!: calls_own_upd [OF assms(2)] dest: calls_ownD [OF assms(2)])
next
  case 2
  then show ?thesis by cases (auto intro!: calls_own_upd [OF assms(2)])
qed (auto elim!: receiver_step.cases sender_step.cases dispatcher_step.cases listen_step.cases
    intro!: calls_own_cong [OF assms(2)])

lemma sim_subscribe:
  assumes "nc_inv s" "calls_own s" "subscribe_step s a t"
  shows "simulates s a t"
  using assms(3)
proof cases
  case (Register c txID subs isFirst)
  let ?o = "h_owner (nc_history s)"
  have fresh: "?o (nc_next s) = None" using inv_owner [OF assms(1)] by (metis domIff lessThan_iff less_irrefl)
  note add = add_subscriber_ok [OF inv_table [OF assms(1)] fresh Register(4)]
  have not_listed: "\<not> listed (nc_subscribers s) (nc_next s)"
    using listed_owner [OF inv_table [OF assms(1)], of "nc_next s"] fresh by auto
  have no_status: "(nc_buffer s ++ map_of (in_transit (nc_dispatcher s))) (nc_next s) = None"
    using inv_transit [OF assms(1), of "nc_next s"] inv_buffer [OF assms(1), of "nc_next s"] fresh
    by (cases "nc_buffer s (nc_next s)") (auto simp: reported_def map_add_None map_of_eq_None_iff)
  have "ps_abs t = (ps_abs s)\<lparr>ps_waiting := (ps_waiting (ps_abs s))(nc_next s \<mapsto> txID)\<rparr>"
    unfolding ps_abs_def Register(2) by (auto simp: add(2) fun_eq_iff)
  moreover have "ps_waiting (ps_abs s) (nc_next s) = None" "ps_status (ps_abs s) (nc_next s) = None"
    using not_listed no_status by (simp_all add: ps_abs_def)
  ultimately have "ps_step (ps_abs s) (P_Subscribe (nc_next s) txID) (ps_abs t)"
    by (metis ps_step.Subscribe)
  then show ?thesis using Register(1,3) by (simp add: simulates_def)
next
  case (Rollback c txID ch e)
  have "h_owner (nc_history s) ch = Some txID" by (rule calls_ownD [OF assms(2) Rollback(3)]) simp
  note gone = rollback_ok(3) [OF inv_table [OF assms(1)] this]
  have "ps_abs t = (ps_abs s)\<lparr>ps_waiting := (ps_waiting (ps_abs s))(ch := None)\<rparr>"
    unfolding ps_abs_def Rollback(2) by (auto simp: gone fun_eq_iff)
  then show ?thesis using Rollback(1,3) by (simp add: simulates_def ps_step.Unsubscribe)
qed (auto simp: simulates_def intro!: ps_abs_cong)

lemma sim_wait:
  assumes "nc_inv s" "wait_step s a t"
  shows "simulates s a t"
  using assms(2)
proof cases
  case (Status c ch v)
  have "map_of (in_transit (nc_dispatcher s)) ch = None"
    using inv_transit [OF assms(1), of ch] Status(4) by (force simp: map_of_eq_None_iff)
  then have "ps_abs t = (ps_abs s)\<lparr>ps_status := (ps_status (ps_abs s))(ch := None)\<rparr>"
    "ps_status (ps_abs s) ch = Some v"
    using Status(4) unfolding ps_abs_def Status(2)
    by (auto simp: map_add_def fun_eq_iff split: option.split)
  then show ?thesis using Status(1,3,4) by (simp add: simulates_def ps_step.Read)
qed (auto simp: simulates_def intro!: ps_abs_cong)

lemma sim_others:
  "receiver_step s a t \<Longrightarrow> simulates s a t" "sender_step s a t \<Longrightarrow> simulates s a t"
  by (auto simp: simulates_def elim!: receiver_step.cases sender_step.cases intro!: ps_abs_cong)

lemma sim_listen:
  assumes "listen_step s a t" "nc_listener s = L_Open \<longrightarrow> in_transit (nc_dispatcher s) = []"
  shows "simulates s a t"
  using assms(1)
proof cases
  case (Clear err)
  have "ps_abs t = (ps_abs s)\<lparr>ps_waiting := Map.empty\<rparr>" unfolding ps_abs_def Clear(2) by simp
  then show ?thesis using Clear(1) by (simp add: simulates_def ps_step.Close)
qed (use assms(2) in \<open>auto simp: simulates_def intro!: ps_abs_cong\<close>)

lemma sim_dispatcher:
  assumes "nc_inv s" "dispatcher_step s a t"
  shows "simulates s a t"
  using assms(2)
proof cases
  case (Take resp res ns subs)
  let ?o = "h_owner (nc_history s)" and ?subs = "nc_subscribers s" and ?m = "parseResponse resp"
  note ok = inv_table [OF assms(1)]
  have d: "distinct (map fst res)" using Take(4) by (simp add: range_of_def)
  have ns: "ns = concat (map (calls_for ?subs) res)" and subs: "subs = ?subs |` (- dom ?m)"
    using Take(5) take_receivers_eq [OF d] range_of_dom [OF Take(4)] by auto
  have dns: "distinct (map fst ns)" unfolding ns by (rule distinct_calls_for [OF ok d])
  have wait: "listed subs ch \<longleftrightarrow> listed ?subs ch \<and> (\<forall>txID. ?o ch = Some txID \<longrightarrow> ?m txID = None)" for ch
  proof -
    have "listed subs ch \<longleftrightarrow> (\<exists>txID. ?m txID = None \<and> ch \<in> set (receivers_of ?subs txID))"
      unfolding subs restrict_ok(2) [OF ok] by (auto simp: domIff)
    moreover have "txID = tx" if "?o ch = Some tx" "ch \<in> set (receivers_of ?subs txID)" for tx txID
      using that receivers_owner [OF ok, of ch txID] by simp
    ultimately show ?thesis
      using receivers_owner [OF ok, of ch] unfolding listed_receivers by blast
  qed
  have status: "map_of ns ch = Some v \<longleftrightarrow> listed ?subs ch \<and> (\<exists>txID. ?o ch = Some txID \<and> ?m txID = Some v)"
    for ch v
    unfolding map_of_eq_Some_iff [OF dns] using range_of_set [OF Take(4)] receivers_owner [OF ok, of ch]
    by (auto simp: ns set_calls_for listed_receivers simp del: set_concat)
  have "ps_step (ps_abs s) (P_Report ?m) (ps_abs t)"
  proof -
    have "ps_abs t = \<lparr>ps_waiting = (\<lambda>ch. case ps_waiting (ps_abs s) ch of None \<Rightarrow> None
          | Some txID \<Rightarrow> if ?m txID = None then Some txID else None),
        ps_status = (\<lambda>ch. case ps_waiting (ps_abs s) ch of None \<Rightarrow> ps_status (ps_abs s) ch
          | Some txID \<Rightarrow> (case ?m txID of None \<Rightarrow> ps_status (ps_abs s) ch | Some v \<Rightarrow> Some v))\<rparr>"
    proof -
      have "ps_waiting (ps_abs t) ch = (case ps_waiting (ps_abs s) ch of None \<Rightarrow> None
          | Some txID \<Rightarrow> if ?m txID = None then Some txID else None)" for ch
        unfolding ps_abs_def Take(2) by (auto simp: wait split: option.split)
      moreover have "ps_status (ps_abs t) ch = (case ps_waiting (ps_abs s) ch of None \<Rightarrow> ps_status (ps_abs s) ch
          | Some txID \<Rightarrow> (case ?m txID of None \<Rightarrow> ps_status (ps_abs s) ch | Some v \<Rightarrow> Some v))" for ch
      proof (cases "map_of ns ch")
        case None
        then have "\<not> (listed ?subs ch \<and> (\<exists>txID. ?o ch = Some txID \<and> ?m txID = Some v))" for v
          using status [of ch v] by simp
        then show ?thesis
          using None Take(3) unfolding ps_abs_def Take(2) by (auto simp: map_add_def split: option.split)
      next
        case (Some v)
        then show ?thesis
          using status [of ch v] Take(3) unfolding ps_abs_def Take(2) by (auto simp: map_add_def)
      qed
      ultimately show ?thesis by (cases "ps_abs t") auto
    qed
    then show ?thesis using ps_step.Report [of "ps_abs s" ?m] by simp
  qed
  then show ?thesis using Take(1,3) by (simp add: simulates_def)
next
  case (Deliver ch v ns)
  have "nc_buffer s ch = None" using inv_transit [OF assms(1), of ch v] Deliver(3) by simp
  moreover have "map_of ns ch = None" using inv_distinct [OF assms(1)] Deliver(3) by (simp add: map_of_eq_None_iff)
  ultimately have "ps_abs t = ps_abs s"
    using Deliver(3) unfolding ps_abs_def Deliver(2)
    by (auto simp: deliver_def map_add_def fun_eq_iff split: option.split)
  then show ?thesis using Deliver(1) by (simp add: simulates_def)
qed (auto simp: simulates_def intro!: ps_abs_cong)

text \<open>The dispatcher does not run before the stream is open.\<close>

definition unopened :: "nc_state \<Rightarrow> bool" where
  "unopened s \<longleftrightarrow> (nc_listener s = L_Open \<longrightarrow> nc_dispatcher s = D_Done)"

lemma unopened_step: "unopened s \<Longrightarrow> nc_step s a t \<Longrightarrow> unopened t"
  by (erule nc_step.cases)
    (auto simp: unopened_def elim!: subscribe_step.cases wait_step.cases receiver_step.cases
      sender_step.cases dispatcher_step.cases listen_step.cases split: if_splits)

definition spec_inv :: "nc_state \<Rightarrow> bool" where
  "spec_inv s \<longleftrightarrow> nc_inv s \<and> calls_own s \<and> unopened s"

lemma spec_inv_init: "spec_inv (nc_init w)"
  by (simp add: spec_inv_def nc_inv_init) (simp add: calls_own_def unopened_def nc_init_def)

interpretation client: simulation nc_exec nc_observe ps_step ps_abs spec_inv
proof
  fix s a t assume inv: "spec_inv s" and e: "nc_exec s a = Some t"
  have step: "nc_step s a t" using e by (rule nc_exec_sound)
  show "spec_inv t"
    using inv step notify.step_inv calls_own_step unopened_step unfolding spec_inv_def by blast
  have "simulates s a t"
    using step inv unfolding spec_inv_def
    by cases (auto intro: sim_subscribe sim_wait sim_others sim_dispatcher sim_listen simp: unopened_def)
  then show "case nc_observe s a of None \<Rightarrow> ps_abs t = ps_abs s | Some e \<Rightarrow> ps_step (ps_abs s) e (ps_abs t)"
    by (simp add: simulates_def)
qed

section \<open>The calls return\<close>

text \<open>The call whose step an action is, and how many steps a call has before it at most.\<close>

fun actor :: "nc_action \<Rightarrow> nat option" where
  "actor (A_Subscribe c _) = Some c"
| "actor (A_Check c) = Some c"
| "actor (A_Register c) = Some c"
| "actor (A_Proceed c) = Some c"
| "actor (A_Deadline c _) = Some c"
| "actor (A_Push c) = Some c"
| "actor (A_Rollback c) = Some c"
| "actor (A_Wait c _) = Some c"
| "actor (A_Status c) = Some c"
| "actor _ = None"

fun steps_left :: "call \<Rightarrow> nat" where
  "steps_left (Sub_Start _) = 5"
| "steps_left (Sub_Register _) = 4"
| "steps_left (Sub_Request _ _) = 3"
| "steps_left (Sub_Push _ _) = 2"
| "steps_left (Sub_Rollback _ _ _) = 1"
| "steps_left (Sub_Return _) = 0"
| "steps_left (Wait_Start _) = 2"
| "steps_left (Wait_Recv _) = 1"
| "steps_left (Wait_Return _ _) = 0"

lemma own_step:
  assumes "nc_step s a t" "nc_calls s c = Some k"
  shows "\<exists>k'. nc_calls t c = Some k' \<and> (if actor a = Some c then steps_left k' < steps_left k else k' = k)"
  using assms
  by (cases; (elim subscribe_step.cases wait_step.cases receiver_step.cases sender_step.cases
      dispatcher_step.cases listen_step.cases)?) (auto split: if_splits)

lemma own_enabled:
  assumes "nc_calls s c = Some k" "steps_left k \<noteq> 0"
  shows "\<exists>a t. actor a = Some c \<and> nc_step s a t"
proof -
  have "nc_exec s (A_Check c) \<noteq> None \<or> nc_exec s (A_Register c) \<noteq> None \<or> nc_exec s (A_Proceed c) \<noteq> None
      \<or> nc_exec s (A_Deadline c Context_DeadlineExceeded) \<noteq> None \<or> nc_exec s (A_Rollback c) \<noteq> None"
    using assms by (cases k) (auto simp: context_errors_def split: prod.split)
  then show ?thesis using nc_exec_sound by (metis actor.simps(2-5,7) option.exhaust)
qed

lemma own_run:
  "nc_calls s c = Some k \<Longrightarrow> \<exists>ls t k'. run nc_step s ls t \<and> length ls \<le> steps_left k
     \<and> list_all (\<lambda>a. actor a = Some c) ls \<and> nc_calls t c = Some k' \<and> steps_left k' = 0"
proof (induction "steps_left k" arbitrary: s k rule: less_induct)
  case less
  show ?case
  proof (cases "steps_left k = 0")
    case True
    then show ?thesis using less.prems by (intro exI [of _ "[]"] exI [of _ s]) auto
  next
    case False
    obtain a t where a: "actor a = Some c" "nc_step s a t" using own_enabled [OF less.prems False] by blast
    obtain k' where k': "nc_calls t c = Some k'" "steps_left k' < steps_left k"
      using own_step [OF a(2) less.prems] a(1) by auto
    obtain ls u k'' where "run nc_step t ls u" "length ls \<le> steps_left k'"
      "list_all (\<lambda>a. actor a = Some c) ls" "nc_calls u c = Some k''" "steps_left k'' = 0"
      using less.hyps [OF k'(2,1)] by blast
    then show ?thesis
      using a k'(2) run_Cons [of nc_step s a t] by (intro exI [of _ "a # ls"] exI [of _ u]) auto
  qed
qed

lemma own_bounded:
  "run nc_step s ls t \<Longrightarrow> nc_calls s c = Some k \<Longrightarrow>
     \<exists>k'. nc_calls t c = Some k' \<and> length (filter (\<lambda>a. actor a = Some c) ls) + steps_left k' \<le> steps_left k"
proof (induction rule: run.induct)
  case (run_snoc ls u l t)
  then obtain k' where k': "nc_calls u c = Some k'"
    "length (filter (\<lambda>a. actor a = Some c) ls) + steps_left k' \<le> steps_left k" by blast
  then show ?case using own_step [OF run_snoc.hyps(2) k'(1)] by (auto split: if_splits)
qed auto

section \<open>Properties\<close>

lemma run_execs: "run nc_step s ls t \<Longrightarrow> \<exists>es. traced nc_exec nc_observe s ls = Some (es, t)"
proof (induction rule: run.induct)
  case (run_snoc ls u l t)
  have "traced nc_exec nc_observe v ls = Some (fs, u) \<Longrightarrow> nc_exec u l = Some t \<Longrightarrow>
      \<exists>es. traced nc_exec nc_observe v (ls @ [l]) = Some (es, t)" for v fs
    by (induction ls arbitrary: v fs) (fastforce split: option.splits)+
  then show ?case using run_snoc nc_exec_complete by blast
qed simp

text \<open>
  C5: the notification client refines the abstract service. In every run, of any calls interleaved
  in any way with the stream, what the client does to its table, channels and dispatcher is what the
  service does on the observed subscriptions, roll-backs, reports and reads, in this order: each
  report reaches all the subscribers of its transactions as if at once, although the client hands
  out the statuses one by one after it has released the lock.
\<close>

theorem client_refines_service:
  assumes "run nc_step (nc_init w) ls s"
  shows "\<exists>es. traced nc_exec nc_observe (nc_init w) ls = Some (es, s) \<and> run ps_step ps_empty es (ps_abs s)"
proof -
  obtain es where es: "traced nc_exec nc_observe (nc_init w) ls = Some (es, s)" using run_execs [OF assms] by blast
  have "ps_abs (nc_init w) = ps_empty" by (simp add: ps_abs_def ps_empty_def nc_init_def)
  then show ?thesis using client.simulated [OF spec_inv_init es] es by auto
qed

theorem client_refines_service_witness:
  "\<exists>s es. traced nc_exec nc_observe (nc_init 5) sample_run = Some (es, s)
     \<and> es = [P_Subscribe 0 ''T'', P_Report (parseResponse sample_response)]
     \<and> run ps_step ps_empty es (ps_abs s) \<and> ps_status (ps_abs s) 0 = Some 3"
proof -
  obtain s where s: "run nc_step (nc_init 5) sample_run s" "nc_dispatcher s = D_Deliver [(0, 3)]"
    using sample_run_delivers by blast
  obtain es where es: "traced nc_exec nc_observe (nc_init 5) sample_run = Some (es, s)"
    "run ps_step ps_empty es (ps_abs s)"
    using client_refines_service [OF s(1)] by blast
  have "es = [P_Subscribe 0 ''T'', P_Report (parseResponse sample_response)]"
    using es(1) by (simp add: sample_run_simps insert_commute)
  moreover have "ps_status (ps_abs s) 0 = Some 3" using s(2) by (simp add: ps_abs_def)
  ultimately show ?thesis using es by blast
qed

text \<open>
  C13: the calls of the client return. From any state a call of \<open>Subscribe\<close> takes at most five steps of
  its own and one of \<open>WaitForEvent\<close> two, whatever the other calls and the stream do; as long as it has
  not returned one of its own steps is enabled (its deadline, if nothing else), whatever the others
  have done before; and its own steps alone bring it to return.
\<close>

theorem calls_return:
  assumes "run nc_step s ls t" "nc_calls s c = Some k"
  shows "\<exists>k'. nc_calls t c = Some k'
    \<and> length (filter (\<lambda>a. actor a = Some c) ls) + steps_left k' \<le> steps_left k
    \<and> (steps_left k' = 0 \<or> (\<exists>a u. actor a = Some c \<and> nc_step t a u))
    \<and> (\<exists>ms u k''. run nc_step t ms u \<and> length ms \<le> steps_left k' \<and> list_all (\<lambda>a. actor a = Some c) ms
         \<and> nc_calls u c = Some k'' \<and> steps_left k'' = 0)"
  using own_bounded [OF assms] own_enabled own_run by meson

theorem calls_return_witness:
  "\<exists>s ms u k. run nc_step (nc_init 5) [A_Subscribe 1 ''T''] s \<and> run nc_step s ms u \<and> length ms \<le> 5
     \<and> list_all (\<lambda>a. actor a = Some 1) ms \<and> nc_calls u 1 = Some k \<and> steps_left k = 0"
proof -
  have "\<exists>s. run nc_step (nc_init 5) [A_Subscribe 1 ''T''] s \<and> nc_calls s 1 = Some (Sub_Start ''T'')"
    by (intro exI conjI, rule nc_execs_run, simp add: nc_init_def) simp_all
  then obtain s where s: "run nc_step (nc_init 5) [A_Subscribe 1 ''T''] s" "nc_calls s 1 = Some (Sub_Start ''T'')"
    by blast
  show ?thesis using calls_return [OF run_Nil s(2)] s by fastforce
qed

end
