(* ===== verification/Notifications_Live.thy ===== *)
theory Notifications_Live
  imports Notifications_Spec
begin

text \<open>
  Progress of the listener of the notification client: a response that has arrived is delivered by the
  listener's own steps, to everyone who was subscribed to one of its transactions.
\<close>

section \<open>The steps of a dispatch\<close>

text \<open>The response's entries, in the order in which the response mentions their transactions first.\<close>

definition response_entries :: "notification_response \<Rightarrow> (string \<times> int) list" where
  "response_entries resp = map (\<lambda>txID. (txID, the (parseResponse resp txID))) (remdups (response_ids resp))"

definition dispatch_steps :: "notification_response \<Rightarrow> subscribers \<Rightarrow> nc_action list" where
  "dispatch_steps resp subs =
     [A_Respond, A_Take (response_entries resp)]
       @ replicate (length (fst (take_receivers (response_entries resp) subs))) A_Deliver @ [A_Deliver_End]"

lemma response_entries_range: "range_of (parseResponse resp) (response_entries resp)"
proof -
  have "parseResponse resp txID = Some (the (parseResponse resp txID))" if "txID \<in> set (response_ids resp)" for txID
    using that unfolding dom_parseResponse [symmetric] by auto
  then have "response_range resp (response_entries resp)"
    by (auto simp: response_range_def response_entries_def list_all_iff comp_def)
  then show ?thesis by (simp add: response_range_iff)
qed

lemma map_add_Cons: "map_of ns k = None \<Longrightarrow> m(k \<mapsto> v) ++ map_of ns = m ++ map_of ((k, v) # ns)"
  by (auto simp: map_add_def fun_eq_iff split: option.split)

lemma deliver_all:
  assumes "nc_dispatcher s = D_Deliver ns" "distinct (map fst ns)" "list_all (\<lambda>(ch, v). nc_buffer s ch = None) ns"
  shows "run nc_step s (replicate (length ns) A_Deliver @ [A_Deliver_End])
    (s\<lparr>nc_buffer := nc_buffer s ++ map_of ns, nc_dispatcher := D_Wait\<rparr>)"
  using assms
proof (induction ns arbitrary: s)
  case Nil
  have "nc_execs s [A_Deliver_End] = Some (s\<lparr>nc_dispatcher := D_Wait\<rparr>)" using Nil.prems by simp
  then show ?case using nc_execs_run by fastforce
next
  case (Cons x ns)
  obtain ch v where x: "x = (ch, v)" by (cases x)
  let ?t = "s\<lparr>nc_buffer := (nc_buffer s)(ch \<mapsto> v), nc_dispatcher := D_Deliver ns\<rparr>"
  have ch: "nc_buffer s ch = None" "map_of ns ch = None"
    using Cons.prems(2,3) by (simp_all add: x map_of_eq_None_iff)
  have step: "nc_step s A_Deliver ?t"
    using Cons.prems(1) ch(1) by (intro nc_exec_sound) (simp add: x deliver_def)
  have "list_all (\<lambda>(q, w). nc_buffer ?t q = None) ns"
    using Cons.prems(2,3) by (force simp: x list_all_iff image_iff split: prod.splits)
  then have "run nc_step ?t (replicate (length ns) A_Deliver @ [A_Deliver_End])
      (?t\<lparr>nc_buffer := nc_buffer ?t ++ map_of ns, nc_dispatcher := D_Wait\<rparr>)"
    using Cons.prems(2) by (intro Cons.IH) simp_all
  then show ?case
    using run_Cons [of nc_step, OF step] map_add_Cons [OF ch(2), of "nc_buffer s" v] by (simp add: x del: fun_upd_apply map_of.simps)
qed

lemma status_step:
  assumes "nc_calls t c = Some (Wait_Recv ch)" "nc_buffer t ch = Some v"
  shows "\<exists>u. nc_step t (A_Status c) u \<and> nc_calls u c = Some (Wait_Return ch (Ok v))"
proof -
  let ?u = "set_call c (Wait_Return ch (Ok v)) (t\<lparr>nc_buffer := (nc_buffer t)(ch := None)\<rparr>)"
  have "nc_step t (A_Status c) ?u" using assms by (intro nc_exec_sound) simp
  then show ?thesis by (intro exI [of _ ?u]) simp
qed

section \<open>Properties\<close>

text \<open>
  C12: a response that the client has received is delivered. Once the dispatcher is free, the listener's own
  steps, one for each subscriber and three more, bring it back to receive the next response, and then every channel
  that was subscribed to a transaction of the response holds the status it reports, a call that waits on the
  channel can return that status at once, these transactions have left the table and the others have not.
\<close>

theorem report_delivered:
  assumes "run nc_step (nc_init w) ls s" "nc_receiver s = R_Push resp" "nc_dispatcher s = D_Wait"
  shows "\<exists>t. run nc_step s (dispatch_steps resp (nc_subscribers s)) t
    \<and> nc_receiver t = R_Recv \<and> nc_dispatcher t = D_Wait
    \<and> (\<forall>txID v ch. parseResponse resp txID = Some v \<longrightarrow> ch \<in> set (receivers_of (nc_subscribers s) txID) \<longrightarrow>
         nc_buffer t ch = Some v
         \<and> (\<forall>c. nc_calls s c = Some (Wait_Recv ch) \<longrightarrow>
              (\<exists>u. nc_step t (A_Status c) u \<and> nc_calls u c = Some (Wait_Return ch (Ok v)))))
    \<and> nc_subscribers t = nc_subscribers s |` (- dom (parseResponse resp))"
proof -
  let ?res = "response_entries resp"
  obtain ns subs where take: "take_receivers ?res (nc_subscribers s) = (ns, subs)"
    by (cases "take_receivers ?res (nc_subscribers s)")
  let ?s1 = "s\<lparr>nc_receiver := R_Recv, nc_dispatcher := D_Take resp\<rparr>"
  let ?s2 = "?s1\<lparr>nc_subscribers := subs, nc_dispatcher := D_Deliver ns\<rparr>"
  let ?t = "?s2\<lparr>nc_buffer := nc_buffer ?s2 ++ map_of ns, nc_dispatcher := D_Wait\<rparr>"
  have range: "response_range resp ?res" using response_entries_range by (simp add: response_range_iff)
  have "nc_execs s [A_Respond, A_Take ?res] = Some ?s2" using assms(2,3) range take by simp
  then have two: "run nc_step s [A_Respond, A_Take ?res] ?s2" by (rule nc_execs_run)
  have "nc_inv ?s2" using notify.reachable_inv run_append [OF two assms(1)] by blast
  then have fresh: "distinct (map fst ns)" "list_all (\<lambda>(ch, v). nc_buffer ?s2 ch = None) ns"
    using inv_distinct [of ?s2] inv_transit [of ?s2] by (auto simp: list_all_iff)
  have run: "run nc_step s (dispatch_steps resp (nc_subscribers s)) ?t"
    using run_append [OF deliver_all [OF _ fresh] two] take by (simp add: dispatch_steps_def)
  have given: "set ns = {(ch, v). \<exists>txID. parseResponse resp txID = Some v \<and> ch \<in> set (receivers_of (nc_subscribers s) txID)}"
    and subs: "subs = nc_subscribers s |` (- dom (parseResponse resp))"
    using take_receivers_eq [of ?res "nc_subscribers s"] take range_of_dom [OF response_entries_range [of resp]]
      range_of_set [OF response_entries_range [of resp]] response_entries_range [of resp]
      set_calls_for [of "nc_subscribers s" ?res]
    by (auto simp: range_of_def)
  have "nc_buffer ?t ch = Some v \<and> (\<forall>c. nc_calls s c = Some (Wait_Recv ch) \<longrightarrow>
        (\<exists>u. nc_step ?t (A_Status c) u \<and> nc_calls u c = Some (Wait_Return ch (Ok v))))"
    if "parseResponse resp txID = Some v" "ch \<in> set (receivers_of (nc_subscribers s) txID)" for txID v ch
  proof -
    have "map_of ns ch = Some v" using that given fresh(1) by auto
    then have buf: "nc_buffer ?t ch = Some v" by (simp add: map_add_def)
    moreover have "\<exists>u. nc_step ?t (A_Status c) u \<and> nc_calls u c = Some (Wait_Return ch (Ok v))"
      if "nc_calls s c = Some (Wait_Recv ch)" for c
      by (rule status_step [OF _ buf]) (use that in simp)
    ultimately show ?thesis by blast
  qed
  then show ?thesis using run subs by (intro exI [of _ ?t]) auto
qed

theorem report_delivered_witness:
  "\<exists>s t. run nc_step (nc_init 5) [A_OpenStream (Ok ()), A_Subscribe 1 ''T'', A_Check 1, A_Register 1, A_Recv (Ok sample_response)] s
     \<and> run nc_step s (dispatch_steps sample_response (nc_subscribers s)) t \<and> nc_buffer t 0 = Some 3"
proof -
  let ?ls = "[A_OpenStream (Ok ()), A_Subscribe 1 ''T'', A_Check 1, A_Register 1, A_Recv (Ok sample_response)]"
  have "\<exists>s. run nc_step (nc_init 5) ?ls s \<and> nc_receiver s = R_Push sample_response \<and> nc_dispatcher s = D_Wait
      \<and> nc_subscribers s ''T'' = Some [0]"
    by (intro exI conjI, rule nc_execs_run, simp add: nc_init_def add_subscriber_def) simp_all
  then obtain s where s: "run nc_step (nc_init 5) ?ls s" "nc_receiver s = R_Push sample_response" "nc_dispatcher s = D_Wait"
    "nc_subscribers s ''T'' = Some [0]"
    by blast
  have "parseResponse sample_response ''T'' = Some 3" "0 \<in> set (receivers_of (nc_subscribers s) ''T'')"
    using s(4) by (simp_all add: sample_run_simps receivers_of_def)
  then show ?thesis using report_delivered [OF s(1-3)] s(1) by blast
qed

end
