(* ===== verification/Load.thy ===== *)
theory Load
  imports Config
begin

text \<open>
  \<open>tools/fxconfig/internal/config/load.go\<close>: loading the configuration. \<open>registerStructKeys\<close> walks the
  struct type of the configuration by reflection; a \<open>reflect.Type\<close> is a value of \<open>go_type\<close>, with the
  two struct tags the walk reads. \<open>viper\<close> is a library: the record \<open>viper_api\<close> holds the methods
  the loader calls, on an arbitrary state, and what the last property relies on of them is the
  hypothesis \<open>viper_documented\<close>.
\<close>

section \<open>Values and types\<close>

text \<open>Kinds that the loader does not support are \<open>T_Other\<close>; \<open>time.Duration\<close> is told apart by its type.\<close>

datatype go_type =
    T_String | T_Int | T_Bool | T_Duration
  | T_Slice go_type
  | T_Pointer go_type
  | T_Struct "struct_field list"
  | T_Other string
and struct_field =
  Field (fd_IsExported: bool) (fd_mapstructure: string) (fd_default: string) (fd_Type: go_type)

datatype conf_value =
    V_String string | V_Int int | V_Bool bool | V_Duration int
  | V_Strings "string list" | V_Ints "int list" | V_Bools "bool list"

definition int64_range :: "int set" where
  "int64_range = {- (2 ^ 63) ..< 2 ^ 63}"

text \<open>The values of a type: what a field of this type can hold.\<close>

fun has_type :: "conf_value \<Rightarrow> go_type \<Rightarrow> bool" where
  "has_type (V_String _) T \<longleftrightarrow> T = T_String"
| "has_type (V_Int i) T \<longleftrightarrow> T = T_Int \<and> i \<in> int64_range"
| "has_type (V_Bool _) T \<longleftrightarrow> T = T_Bool"
| "has_type (V_Duration d) T \<longleftrightarrow> T = T_Duration \<and> d \<in> int64_range"
| "has_type (V_Strings _) T \<longleftrightarrow> T = T_Slice T_String"
| "has_type (V_Ints is) T \<longleftrightarrow> T = T_Slice T_Int \<and> set is \<subseteq> int64_range"
| "has_type (V_Bools _) T \<longleftrightarrow> T = T_Slice T_Bool"

definition pointed :: "go_type \<Rightarrow> go_type" where
  "pointed T = (case T of T_Pointer U \<Rightarrow> U | _ \<Rightarrow> T)"

section \<open>The parsers of the standard library\<close>

definition is_digit :: "char \<Rightarrow> bool" where
  "is_digit c \<longleftrightarrow> CHR ''0'' \<le> c \<and> c \<le> CHR ''9''"

definition digit_value :: "char \<Rightarrow> nat" where
  "digit_value c = of_char c - 48"

text \<open>
  \<open>strconv.Atoi\<close> with its error dropped: zero for a text that is no number, and the nearest bound for
  one out of range, as soon as the digits read so far are out of range.
\<close>

fun parse_uint :: "nat \<Rightarrow> string \<Rightarrow> nat option" where
  "parse_uint n [] = Some n"
| "parse_uint n (c # s) =
     (if \<not> is_digit c then None
      else (let n' = 10 * n + digit_value c
            in if n' \<ge> 2 ^ 64 then Some (2 ^ 64 - 1) else parse_uint n' s))"

definition strconv_Atoi :: "string \<Rightarrow> int" where
  "strconv_Atoi s =
     (let neg = (s \<noteq> [] \<and> hd s = CHR ''-'');
          body = (if s \<noteq> [] \<and> (hd s = CHR ''-'' \<or> hd s = CHR ''+'') then tl s else s)
      in if body = [] then 0
         else case parse_uint 0 body of
                None \<Rightarrow> 0
              | Some n \<Rightarrow> if neg then - int (min n (2 ^ 63)) else int (min n (2 ^ 63 - 1)))"

definition strconv_ParseBool :: "string \<Rightarrow> bool" where
  "strconv_ParseBool s \<longleftrightarrow> s \<in> set [''1'', ''t'', ''T'', ''TRUE'', ''true'', ''True'']"

text \<open>
  \<open>time.ParseDuration\<close>: a sign, then terms of a number and a unit. The floating point product of a
  fraction (its digits, their number) and a unit is the parameter \<open>frac\<close>.
\<close>

type_synonym fraction = "nat \<Rightarrow> nat \<Rightarrow> nat \<Rightarrow> nat"

definition unit_ns :: "string \<Rightarrow> nat option" where
  "unit_ns u = map_of
     [(''ns'', 1), (''us'', 1000), ([CHR 0xC2, CHR 0xB5, CHR ''s''], 1000),
      ([CHR 0xCE, CHR 0xBC, CHR ''s''], 1000), (''ms'', 1000000), (''s'', 1000000000),
      (''m'', 60000000000), (''h'', 3600000000000)] u"

fun leadingInt :: "nat \<Rightarrow> string \<Rightarrow> (nat \<times> string) option" where
  "leadingInt x [] = Some (x, [])"
| "leadingInt x (c # s) =
     (if \<not> is_digit c then Some (x, c # s)
      else if x > 2 ^ 63 div 10 then None
      else (let x' = 10 * x + digit_value c in if x' > 2 ^ 63 then None else leadingInt x' s))"

fun leadingFraction :: "bool \<Rightarrow> nat \<Rightarrow> nat \<Rightarrow> string \<Rightarrow> nat \<times> nat \<times> string" where
  "leadingFraction overflow x k [] = (x, k, [])"
| "leadingFraction overflow x k (c # s) =
     (if \<not> is_digit c then (x, k, c # s)
      else if overflow \<or> x > (2 ^ 63 - 1) div 10 \<or> 10 * x + digit_value c > 2 ^ 63
           then leadingFraction True x k s
      else leadingFraction False (10 * x + digit_value c) (Suc k) s)"

definition unit_char :: "char \<Rightarrow> bool" where
  "unit_char c \<longleftrightarrow> c \<noteq> CHR ''.'' \<and> \<not> is_digit c"

text \<open>One term: its value in nanoseconds and the rest of the text.\<close>

definition duration_term :: "fraction \<Rightarrow> string \<Rightarrow> (nat \<times> string) option" where
  "duration_term frac s =
     (if unit_char (hd s) then None
      else case leadingInt 0 s of
        None \<Rightarrow> None
      | Some (v, s1) \<Rightarrow>
          (let pre = (length s1 \<noteq> length s);
               point = (s1 \<noteq> [] \<and> hd s1 = CHR ''.'');
               (f, k, s2) = (if point then leadingFraction False 0 0 (tl s1) else (0, 0, s1));
               post = (point \<and> length s2 \<noteq> length (tl s1));
               u = takeWhile unit_char s2
           in if \<not> pre \<and> \<not> post then None
              else case unit_ns u of
                None \<Rightarrow> None
              | Some unit \<Rightarrow>
                  if v > 2 ^ 63 div unit then None
                  else (let w = (if f > 0 then (v * unit + frac f k unit) mod 2 ^ 64 else v * unit)
                        in if w > 2 ^ 63 then None else Some (w, dropWhile unit_char s2))))"

lemma leadingInt_rest: "leadingInt x s = Some (v, r) \<Longrightarrow> length r \<le> length s"
  by (induction x s rule: leadingInt.induct) (auto simp: Let_def split: if_splits)

lemma leadingFraction_rest: "leadingFraction b x k s = (f, j, r) \<Longrightarrow> length r \<le> length s"
  by (induction b x k s rule: leadingFraction.induct) (auto split: if_splits)

lemma unit_not_Nil: "unit_ns u = Some n \<Longrightarrow> u \<noteq> []"
  by (auto simp: unit_ns_def)

lemma duration_term_rest:
  assumes "duration_term frac s = Some (w, r)"
  shows "length r < length s \<or> s = []"
proof -
  have drop: "length (dropWhile unit_char s2) < length s2" if "takeWhile unit_char s2 \<noteq> []" for s2
    using that by (cases s2) (auto simp: length_dropWhile_le less_Suc_eq_le split: if_splits)
  have "length r < length s" if "s \<noteq> []"
    using assms that unfolding duration_term_def Let_def
    by (auto split: if_splits option.splits prod.splits dest!: leadingInt_rest leadingFraction_rest
        unit_not_Nil drop)
  then show ?thesis by blast
qed

function duration_terms :: "fraction \<Rightarrow> nat \<Rightarrow> string \<Rightarrow> nat option" where
  "duration_terms frac d s =
     (if s = [] then Some d
      else case duration_term frac s of
        None \<Rightarrow> None
      | Some (w, r) \<Rightarrow>
          (let d' = (d + w) mod 2 ^ 64 in if d' > 2 ^ 63 then None else duration_terms frac d' r))"
  by pat_completeness auto
termination
  by (relation "measure (\<lambda>(frac, d, s). length s)") (auto dest: duration_term_rest)

declare duration_terms.simps [simp del]

definition time_ParseDuration :: "fraction \<Rightarrow> string \<Rightarrow> int" where
  "time_ParseDuration frac s =
     (let neg = (s \<noteq> [] \<and> hd s = CHR ''-'');
          body = (if s \<noteq> [] \<and> (hd s = CHR ''-'' \<or> hd s = CHR ''+'') then tl s else s)
      in if body = ''0'' \<or> body = [] then 0
         else case duration_terms frac 0 body of
                None \<Rightarrow> 0
              | Some d \<Rightarrow> if neg then - int d else if d > 2 ^ 63 - 1 then 0 else int d)"

section \<open>Registering the keys\<close>

definition joinViperKey :: "string \<Rightarrow> string \<Rightarrow> string" where
  "joinViperKey prefix key = (if prefix = [] then key else prefix @ ''.'' @ key)"

definition isDuration :: "go_type \<Rightarrow> bool" where
  "isDuration T \<longleftrightarrow> T = T_Duration"

definition registerSingleFlag ::
    "fraction \<Rightarrow> (string \<Rightarrow> conf_value \<Rightarrow> 'v \<Rightarrow> 'v) \<Rightarrow> go_type \<Rightarrow> string \<Rightarrow> string \<Rightarrow> 'v \<Rightarrow> 'v" where
  "registerSingleFlag frac setDefault fieldType viperKey defaultValue v =
     (case fieldType of
        T_String \<Rightarrow> setDefault viperKey (V_String defaultValue) v
      | T_Int \<Rightarrow> setDefault viperKey (V_Int (strconv_Atoi defaultValue)) v
      | T_Bool \<Rightarrow> setDefault viperKey (V_Bool (strconv_ParseBool defaultValue)) v
      | T_Duration \<Rightarrow> setDefault viperKey (V_Duration (time_ParseDuration frac defaultValue)) v
      | T_Slice elem \<Rightarrow>
          (case elem of
             T_String \<Rightarrow> setDefault viperKey (V_Strings []) v
           | T_Int \<Rightarrow> setDefault viperKey (V_Ints []) v
           | T_Bool \<Rightarrow> setDefault viperKey (V_Bools []) v
           | _ \<Rightarrow> v)
      | _ \<Rightarrow> v)"

text \<open>
  The loop over the fields, and its body for one field. Asking for the fields of a type that is
  neither a struct nor a pointer to one panics.
\<close>

fun registerStructKeys ::
    "fraction \<Rightarrow> (string \<Rightarrow> conf_value \<Rightarrow> 'v \<Rightarrow> 'v) \<Rightarrow> string \<Rightarrow> go_type \<Rightarrow> 'v \<Rightarrow> 'v result"
  and register_fields ::
    "fraction \<Rightarrow> (string \<Rightarrow> conf_value \<Rightarrow> 'v \<Rightarrow> 'v) \<Rightarrow> string \<Rightarrow> struct_field list \<Rightarrow> 'v \<Rightarrow> 'v result"
  and register_field ::
    "fraction \<Rightarrow> (string \<Rightarrow> conf_value \<Rightarrow> 'v \<Rightarrow> 'v) \<Rightarrow> string \<Rightarrow> struct_field \<Rightarrow> 'v \<Rightarrow> 'v result" where
  "registerStructKeys F sd prefix (T_Struct fs) v = register_fields F sd prefix fs v"
| "registerStructKeys F sd prefix (T_Pointer (T_Struct fs)) v = register_fields F sd prefix fs v"
| "registerStructKeys F sd prefix T v = Panic ''reflect: NumField of non-struct type''"
| "register_fields F sd prefix [] v = Ok v"
| "register_fields F sd prefix (f # fs) v =
     res_bind (register_field F sd prefix f v) (register_fields F sd prefix fs)"
| "register_field F sd prefix (Field exported tag dflt T) v =
     (if \<not> exported then Ok v
      else if tag = [] \<or> tag = ''-'' then Ok v
      else if tag = '',squash'' then registerStructKeys F sd prefix T v
      else
        (let viperKey = joinViperKey prefix tag
         in case T of
              T_Pointer (T_Struct _) \<Rightarrow> Ok v
            | T_Pointer ft \<Rightarrow> Ok (registerSingleFlag F sd ft viperKey dflt v)
            | T_Struct fs \<Rightarrow> registerStructKeys F sd viperKey T v
            | ft \<Rightarrow> Ok (registerSingleFlag F sd ft viperKey dflt v)))"

text \<open>The struct type of the configuration, with the tags of \<open>config.go\<close>.\<close>

definition leaf :: "string \<Rightarrow> go_type \<Rightarrow> string \<Rightarrow> struct_field" where
  "leaf tag T dflt = Field True tag dflt T"

definition LoggingConfig_type :: go_type where
  "LoggingConfig_type = T_Struct [leaf ''level'' T_String ''error'', leaf ''format'' T_String []]"

definition MSPConfig_type :: go_type where
  "MSPConfig_type = T_Struct [leaf ''localMspID'' T_String [], leaf ''configPath'' T_String []]"

definition TLSConfig_type :: go_type where
  "TLSConfig_type = T_Struct
     [leaf ''enabled'' (T_Pointer T_Bool) ''false'', leaf ''clientKey'' T_String [],
      leaf ''clientCert'' T_String [], leaf ''rootCerts'' (T_Slice T_String) [],
      leaf ''serverNameOverride'' T_String []]"

definition EndpointServiceConfig_type :: go_type where
  "EndpointServiceConfig_type = T_Struct
     [leaf ''address'' T_String [], leaf ''connectionTimeout'' T_Duration ''30s'',
      leaf ''tls'' (T_Pointer TLSConfig_type) []]"

definition OrdererConfig_type :: go_type where
  "OrdererConfig_type = T_Struct
     [leaf '',squash'' EndpointServiceConfig_type [], leaf ''channel'' T_String ''mychannel'']"

definition QueriesConfig_type :: go_type where
  "QueriesConfig_type = T_Struct [leaf '',squash'' EndpointServiceConfig_type []]"

definition NotificationsConfig_type :: go_type where
  "NotificationsConfig_type = T_Struct
     [leaf '',squash'' EndpointServiceConfig_type [], leaf ''waitingTimeout'' T_Duration ''30s'']"

definition Config_type :: go_type where
  "Config_type = T_Struct
     [leaf ''logging'' LoggingConfig_type [], leaf ''msp'' MSPConfig_type [],
      leaf ''tls'' TLSConfig_type [], leaf ''orderer'' OrdererConfig_type [],
      leaf ''queries'' QueriesConfig_type [], leaf ''notifications'' NotificationsConfig_type []]"

lemmas Config_type_defs = Config_type_def LoggingConfig_type_def MSPConfig_type_def TLSConfig_type_def
  OrdererConfig_type_def QueriesConfig_type_def NotificationsConfig_type_def EndpointServiceConfig_type_def
  leaf_def

section \<open>What is registered\<close>

text \<open>The fields that have a value of their own, with the tags that lead to them.\<close>

definition keyed :: "struct_field \<Rightarrow> bool" where
  "keyed f \<longleftrightarrow> fd_IsExported f \<and> fd_mapstructure f \<notin> {[], ''-'', '',squash''}"

definition struct_type :: "go_type \<Rightarrow> bool" where
  "struct_type T \<longleftrightarrow> (\<exists>fs. T = T_Struct fs)"

inductive reaches :: "go_type \<Rightarrow> string list \<Rightarrow> struct_field \<Rightarrow> bool" where
  own: "f \<in> set fs \<Longrightarrow> keyed f \<Longrightarrow> \<not> struct_type (pointed (fd_Type f)) \<Longrightarrow>
    reaches (T_Struct fs) [fd_mapstructure f] f"
| squashed: "f \<in> set fs \<Longrightarrow> fd_IsExported f \<Longrightarrow> fd_mapstructure f = '',squash'' \<Longrightarrow>
    reaches (pointed (fd_Type f)) path g \<Longrightarrow> reaches (T_Struct fs) path g"
| nested: "f \<in> set fs \<Longrightarrow> keyed f \<Longrightarrow> struct_type (fd_Type f) \<Longrightarrow> reaches (fd_Type f) path g \<Longrightarrow>
    reaches (T_Struct fs) (fd_mapstructure f # path) g"

text \<open>The types that have a default.\<close>

definition supported :: "go_type \<Rightarrow> bool" where
  "supported T \<longleftrightarrow> T \<in> {T_String, T_Int, T_Bool, T_Duration, T_Slice T_String, T_Slice T_Int, T_Slice T_Bool}"

text \<open>The default of a field, when its type has one.\<close>

definition default_of :: "fraction \<Rightarrow> go_type \<Rightarrow> string \<Rightarrow> conf_value option" where
  "default_of F T dflt =
     (if supported T
      then Some (case T of T_String \<Rightarrow> V_String dflt | T_Int \<Rightarrow> V_Int (strconv_Atoi dflt)
        | T_Bool \<Rightarrow> V_Bool (strconv_ParseBool dflt)
        | T_Duration \<Rightarrow> V_Duration (time_ParseDuration F dflt)
        | T_Slice T_Int \<Rightarrow> V_Ints [] | T_Slice T_Bool \<Rightarrow> V_Bools [] | _ \<Rightarrow> V_Strings [])
      else None)"

lemma registerSingleFlag_eq:
  "registerSingleFlag F sd T k dflt v = (case default_of F T dflt of None \<Rightarrow> v | Some d \<Rightarrow> sd k d v)"
  by (simp add: registerSingleFlag_def default_of_def supported_def split: go_type.split)

lemma duration_terms_le:
  "duration_terms frac d s = Some n \<Longrightarrow> d \<le> 2 ^ 63 \<Longrightarrow> n \<le> 2 ^ 63"
proof (induction frac d s rule: duration_terms.induct)
  case (1 frac d s)
  from "1.prems" show ?case
    by (subst (asm) duration_terms.simps)
      (auto simp: Let_def split: if_splits option.splits prod.splits dest!: "1.IH")
qed

lemma ParseDuration_range: "time_ParseDuration F s \<in> int64_range"
  by (auto simp: time_ParseDuration_def int64_range_def Let_def split: option.split
      dest!: duration_terms_le)

lemma Atoi_range: "strconv_Atoi s \<in> int64_range"
  by (auto simp: strconv_Atoi_def int64_range_def Let_def split: option.split)

lemma default_has_type: "default_of F T dflt = Some d \<Longrightarrow> has_type d T"
  using Atoi_range ParseDuration_range
  by (auto simp: default_of_def supported_def split: if_splits)

lemma default_of_supported: "supported T \<Longrightarrow> \<exists>d. default_of F T dflt = Some d"
  by (simp add: default_of_def)

abbreviation setting :: "(string \<Rightarrow> conf_value \<Rightarrow> 'v \<Rightarrow> 'v) \<Rightarrow> 'v \<Rightarrow> (string \<times> conf_value) list \<Rightarrow> 'v" where
  "setting sd v calls \<equiv> fold (\<lambda>(k, d). sd k d) calls v"

text \<open>The same walk, as the list of the calls it makes.\<close>

fun registered :: "fraction \<Rightarrow> string \<Rightarrow> go_type \<Rightarrow> (string \<times> conf_value) list result"
  and registered_fields :: "fraction \<Rightarrow> string \<Rightarrow> struct_field list \<Rightarrow> (string \<times> conf_value) list result"
  and registered_field :: "fraction \<Rightarrow> string \<Rightarrow> struct_field \<Rightarrow> (string \<times> conf_value) list result" where
  "registered F p (T_Struct fs) = registered_fields F p fs"
| "registered F p (T_Pointer (T_Struct fs)) = registered_fields F p fs"
| "registered F p T = Panic ''reflect: NumField of non-struct type''"
| "registered_fields F p [] = Ok []"
| "registered_fields F p (f # fs) =
     res_bind (registered_field F p f) (\<lambda>cs. res_map (\<lambda>ds. cs @ ds) (registered_fields F p fs))"
| "registered_field F p (Field exported tag dflt T) =
     (if keyed (Field exported tag dflt T)
      then if struct_type T then registered F (joinViperKey p tag) T
           else Ok (if struct_type (pointed T) then []
             else case default_of F (pointed T) dflt of None \<Rightarrow> [] | Some d \<Rightarrow> [(joinViperKey p tag, d)])
      else if exported \<and> tag = '',squash'' then registered F p T
      else Ok [])"

lemma register_field_eq:
  "register_field F sd p (Field exported tag dflt T) v =
     (if keyed (Field exported tag dflt T)
      then if struct_type T then registerStructKeys F sd (joinViperKey p tag) T v
           else Ok (if struct_type (pointed T) then v
             else case default_of F (pointed T) dflt of None \<Rightarrow> v | Some d \<Rightarrow> sd (joinViperKey p tag) d v)
      else if exported \<and> tag = '',squash'' then registerStructKeys F sd p T v
      else Ok v)"
  by (auto simp: keyed_def struct_type_def pointed_def registerSingleFlag_eq Let_def split: go_type.split)

lemma registered_calls:
  "registerStructKeys F sd p T v = res_map (setting sd v) (registered F p T)"
  "register_fields F sd p fs v = res_map (setting sd v) (registered_fields F p fs)"
  "register_field F sd p f v = res_map (setting sd v) (registered_field F p f)"
proof (induction F sd p T v and F sd p fs v and F sd p f v
    rule: registerStructKeys_register_fields_register_field.induct)
  case (5 F sd p f fs v)
  then show ?case
    by (cases "registered_field F p f"; cases "registered_fields F p fs") auto
next
  case (6 F sd p exported tag dflt T v)
  then show ?case
    unfolding register_field_eq
    by (auto simp: keyed_def struct_type_def split: option.split)
qed auto
lemma pointed_simps [simp]: "pointed (T_Pointer T) = T" "pointed (T_Struct fs) = T_Struct fs"
  by (simp_all add: pointed_def)

inductive_simps reaches_struct: "reaches (T_Struct fs) path g"

lemma reaches_fields: "reaches (T_Struct fs) path g \<longleftrightarrow> (\<exists>f \<in> set fs. reaches (T_Struct [f]) path g)"
  by (subst reaches_struct, subst reaches_struct) auto

lemma reaches_field:
  "reaches (T_Struct [f]) path g \<longleftrightarrow>
     keyed f \<and> (\<not> struct_type (pointed (fd_Type f)) \<and> path = [fd_mapstructure f] \<and> g = f
       \<or> struct_type (fd_Type f) \<and> (\<exists>rest. path = fd_mapstructure f # rest \<and> reaches (fd_Type f) rest g))
   \<or> fd_IsExported f \<and> fd_mapstructure f = '',squash'' \<and> reaches (pointed (fd_Type f)) path g"
  by (subst reaches_struct) auto

definition gives :: "fraction \<Rightarrow> string \<Rightarrow> go_type \<Rightarrow> string \<Rightarrow> conf_value \<Rightarrow> bool" where
  "gives F p T k d \<longleftrightarrow> (\<exists>path g. reaches T path g \<and> k = foldl joinViperKey p path
     \<and> default_of F (pointed (fd_Type g)) (fd_default g) = Some d)"

lemma gives_fields: "gives F p (T_Struct fs) k d \<longleftrightarrow> (\<exists>f \<in> set fs. gives F p (T_Struct [f]) k d)"
  unfolding gives_def by (subst reaches_fields) blast

lemma gives_field:
  "gives F p (T_Struct [f]) k d \<longleftrightarrow>
     keyed f \<and> (\<not> struct_type (pointed (fd_Type f)) \<and> k = joinViperKey p (fd_mapstructure f)
         \<and> default_of F (pointed (fd_Type f)) (fd_default f) = Some d
       \<or> struct_type (fd_Type f) \<and> gives F (joinViperKey p (fd_mapstructure f)) (fd_Type f) k d)
   \<or> fd_IsExported f \<and> fd_mapstructure f = '',squash'' \<and> gives F p (pointed (fd_Type f)) k d"
proof -
  have "(\<exists>path g. (P path g \<or> Q path g \<or> R path g) \<and> S path g) \<longleftrightarrow>
      (\<exists>path g. P path g \<and> S path g) \<or> (\<exists>path g. Q path g \<and> S path g) \<or> (\<exists>path g. R path g \<and> S path g)"
    for P Q R S :: "string list \<Rightarrow> struct_field \<Rightarrow> bool" by blast
  note split = this [of "\<lambda>path g. keyed f \<and> \<not> struct_type (pointed (fd_Type f)) \<and> path = [fd_mapstructure f] \<and> g = f"
      "\<lambda>path g. keyed f \<and> struct_type (fd_Type f) \<and> (\<exists>rest. path = fd_mapstructure f # rest \<and> reaches (fd_Type f) rest g)"
      "\<lambda>path g. fd_IsExported f \<and> fd_mapstructure f = '',squash'' \<and> reaches (pointed (fd_Type f)) path g"]
  show ?thesis
    unfolding gives_def reaches_field conj_disj_distribL disj_assoc conj_assoc split [unfolded conj_assoc]
    by (intro arg_cong2 [of _ _ _ _ "(\<or>)"]) (auto, blast, (metis foldl_Cons))
qed

lemma registered_iff:
  "registered F p T = Ok cs \<Longrightarrow> (k, d) \<in> set cs \<longleftrightarrow> gives F p (pointed T) k d"
  "registered_fields F p fs = Ok ds \<Longrightarrow> (k, d) \<in> set ds \<longleftrightarrow> gives F p (T_Struct fs) k d"
  "registered_field F p f = Ok es \<Longrightarrow> (k, d) \<in> set es \<longleftrightarrow> gives F p (T_Struct [f]) k d"
proof (induction F p T and F p fs and F p f arbitrary: cs and ds and es
    rule: registered_registered_fields_registered_field.induct)
  case (4 F p)
  then show ?case by (subst gives_fields) simp
next
  case (5 F p f fs)
  then show ?case by (subst gives_fields) (auto simp: res_simps gives_fields [of F p fs])
next
  case (6 F p exported tag dflt T)
  have "pointed T = T" if "struct_type T" using that by (auto simp: struct_type_def)
  then show ?case
    using 6 by (subst gives_field) (auto simp: keyed_def split: if_splits option.splits)
qed auto

section \<open>Loading\<close>

text \<open>
  The methods of \<open>*viper.Viper\<close> that the loader calls, on an arbitrary state; the file system and the
  environment variables are behind them. \<open>vp_IsNotFound\<close> is the type assertion to
  \<open>viper.ConfigFileNotFoundError\<close>.
\<close>

record 'v viper_api =
  vp_New :: 'v
  vp_SetDefault :: "string \<Rightarrow> conf_value \<Rightarrow> 'v \<Rightarrow> 'v"
  vp_SetEnvPrefix :: "string \<Rightarrow> 'v \<Rightarrow> 'v"
  vp_SetEnvKeyReplacer :: "(string \<times> string) list \<Rightarrow> 'v \<Rightarrow> 'v"
  vp_AutomaticEnv :: "'v \<Rightarrow> 'v"
  vp_SetConfigName :: "string \<Rightarrow> 'v \<Rightarrow> 'v"
  vp_SetConfigType :: "string \<Rightarrow> 'v \<Rightarrow> 'v"
  vp_AddConfigPath :: "string \<Rightarrow> 'v \<Rightarrow> 'v"
  vp_SetConfigFile :: "string \<Rightarrow> 'v \<Rightarrow> 'v"
  vp_Set :: "string \<Rightarrow> conf_value \<Rightarrow> 'v \<Rightarrow> 'v"
  vp_MergeInConfig :: "(unit, 'v) io"
  vp_ReadInConfig :: "(unit, 'v) io"
  vp_ConfigFileUsed :: "'v \<Rightarrow> string"
  vp_Unmarshal :: "'v \<Rightarrow> config result"
  vp_IsNotFound :: "go_error \<Rightarrow> bool"

type_synonym 'v load_option = "'v viper_api \<Rightarrow> 'v \<Rightarrow> 'v"

definition WithConfigFile :: "string \<Rightarrow> 'v load_option" where
  "WithConfigFile path = (\<lambda>V. vp_SetConfigFile V path)"

definition WithOverride :: "string \<Rightarrow> conf_value \<Rightarrow> 'v load_option" where
  "WithOverride key value = (\<lambda>V. vp_Set V key value)"

text \<open>A configuration file that is not there is skipped, any other error ends the loading.\<close>

definition merge_file :: "'v viper_api \<Rightarrow> string \<Rightarrow> string \<Rightarrow> (unit, 'v) io" where
  "merge_file V what dir = (\<lambda>v.
     case vp_MergeInConfig V (vp_AddConfigPath V dir v) of
       (Err e, v') \<Rightarrow> (if vp_IsNotFound V e then Ok () else Err (Error_Wrap what e), v')
     | (r, v') \<Rightarrow> (r, v'))"

definition read_explicit :: "'v viper_api \<Rightarrow> (unit, 'v) io" where
  "read_explicit V = (\<lambda>v.
     if vp_ConfigFileUsed V v \<noteq> []
     then (case vp_ReadInConfig V v of
         (r, v') \<Rightarrow> (res_wrap (''error reading config file '' @ vp_ConfigFileUsed V v' @ '': '') r, v'))
     else (Ok (), v))"

definition load_setup :: "'v viper_api \<Rightarrow> 'v \<Rightarrow> 'v" where
  "load_setup V v =
     (let v = vp_SetEnvPrefix V ''FXCONFIG'' v;
          v = vp_SetEnvKeyReplacer V [(''-'', ''_''), (''.'', ''_'')] v;
          v = vp_AutomaticEnv V v;
          v = vp_SetConfigName V ''config'' v
      in vp_SetConfigType V ''yaml'' v)"

text \<open>\<open>Load\<close>; the home directory is \<^term>\<open>None\<close> when it cannot be found, which is not an error.\<close>

definition Load :: "fraction \<Rightarrow> 'v viper_api \<Rightarrow> string option \<Rightarrow> 'v load_option list \<Rightarrow> config result" where
  "Load F V home opts =
     res_bind (registerStructKeys F (vp_SetDefault V) [] Config_type (vp_New V)) (\<lambda>v.
       fst (io_bind
         (case home of
            Some home \<Rightarrow> merge_file V ''error loading user config: '' (filepath_Join [home, ''.fxconfig''])
          | None \<Rightarrow> io_return ())
         (\<lambda>_. io_bind (merge_file V ''error loading project config: '' ''.fxconfig'')
         (\<lambda>_ v. io_bind (read_explicit V)
         (\<lambda>_ v. (res_map ResolveTLS (vp_Unmarshal V v), v))
            (fold (\<lambda>opt v. opt V v) opts v)))
         (load_setup V v)))"

section \<open>The keys of the configuration\<close>

definition config_defaults :: "(string \<times> conf_value) list" where
  "config_defaults =
     [(''logging.level'', V_String ''error''), (''logging.format'', V_String []),
      (''msp.localMspID'', V_String []), (''msp.configPath'', V_String []),
      (''tls.enabled'', V_Bool False), (''tls.clientKey'', V_String []),
      (''tls.clientCert'', V_String []), (''tls.rootCerts'', V_Strings []),
      (''tls.serverNameOverride'', V_String []),
      (''orderer.address'', V_String []), (''orderer.connectionTimeout'', V_Duration 30000000000),
      (''orderer.channel'', V_String ''mychannel''),
      (''queries.address'', V_String []), (''queries.connectionTimeout'', V_Duration 30000000000),
      (''notifications.address'', V_String []),
      (''notifications.connectionTimeout'', V_Duration 30000000000),
      (''notifications.waitingTimeout'', V_Duration 30000000000)]"

lemma duration_30s: "time_ParseDuration F ''30s'' = 30000000000"
  by (simp add: time_ParseDuration_def duration_terms.simps duration_term_def Let_def unit_char_def
      is_digit_def digit_value_def unit_ns_def less_eq_char_def)

lemma config_registered: "registered F [] Config_type = Ok config_defaults"
  by (simp add: Config_type_defs config_defaults_def keyed_def struct_type_def pointed_def
      default_of_def supported_def joinViperKey_def duration_30s strconv_ParseBool_def)

section \<open>Properties\<close>

text \<open>
  C21: walking a struct type registers a default for exactly its exported, tagged leaf fields of a
  supported type, each under the dotted path of its tags (a squashed struct adds none, a pointer to
  a struct is not entered), and every default is a value of its field's type, whatever its
  \<open>default\<close> tag says; the calls do not depend on the registry they are made on.
\<close>

theorem defaults_conform:
  assumes "registerStructKeys F sd p T v = Ok v'"
  shows "\<exists>calls.
      (\<forall>sd v. registerStructKeys F sd p T v = Ok (fold (\<lambda>(k, d). sd k d) calls (v :: 'v)))
    \<and> (\<forall>(k, d) \<in> set calls. \<exists>path f. reaches (pointed T) path f \<and> k = foldl joinViperKey p path
         \<and> has_type d (pointed (fd_Type f)))
    \<and> (\<forall>path f. reaches (pointed T) path f \<longrightarrow> supported (pointed (fd_Type f)) \<longrightarrow>
         (\<exists>d. (foldl joinViperKey p path, d) \<in> set calls))"
proof -
  obtain calls where calls: "registered F p T = Ok calls"
    using assms by (auto simp: registered_calls(1) res_simps)
  note iff = registered_iff(1) [OF calls, unfolded gives_def]
  have "\<exists>d. (foldl joinViperKey p path, d) \<in> set calls"
    if "reaches (pointed T) path f" "supported (pointed (fd_Type f))" for path f
    unfolding iff using that default_of_supported by blast
  moreover have "\<exists>path f. reaches (pointed T) path f \<and> k = foldl joinViperKey p path \<and> has_type d (pointed (fd_Type f))"
    if "(k, d) \<in> set calls" for k d
    using that unfolding iff by (blast dest: default_has_type)
  ultimately show ?thesis
    unfolding registered_calls(1) calls by (intro exI [of _ calls]) auto
qed

theorem defaults_conform_witness:
  "list_all (\<lambda>(k, d). \<exists>path f. reaches Config_type path f \<and> k = foldl joinViperKey [] path
     \<and> has_type d (pointed (fd_Type f))) config_defaults"
proof -
  let ?sd = "\<lambda>k d cs. cs @ [(k, d)]"
  have fold: "setting ?sd cs calls = cs @ calls" for cs calls :: "(string \<times> conf_value) list"
    by (induction calls arbitrary: cs) auto
  have r: "registerStructKeys (\<lambda>_ _ _. 0) ?sd [] Config_type [] = Ok config_defaults"
    unfolding registered_calls(1) config_registered by (simp add: fold)
  obtain calls :: "(string \<times> conf_value) list" where
    all: "\<forall>sd (v :: (string \<times> conf_value) list). registerStructKeys (\<lambda>_ _ _. 0) sd [] Config_type v = Ok (setting sd v calls)"
    and typed: "\<forall>(k, d) \<in> set calls. \<exists>path f. reaches (pointed Config_type) path f
        \<and> k = foldl joinViperKey [] path \<and> has_type d (pointed (fd_Type f))"
    using defaults_conform [OF r] by (elim exE conjE) rule
  have "calls = config_defaults" using all [THEN spec, of ?sd] r by (simp add: fold)
  then show ?thesis using typed by (simp add: Config_type_def list_all_iff)
qed

end
