(* ===== verification/Load_Props.thy ===== *)
theory Load_Props
  imports Load
begin

text \<open>
  The registry behind the configuration loader as its documentation describes it, and the course of a
  loading over any such registry: which states it goes through, and where it can fail.
\<close>

section \<open>The registry\<close>

text \<open>
  The state of a \<open>*viper.Viper\<close> as the documentation speaks of it: the explicit settings, the settings
  read from files and the defaults, by key; the prefix, the replacer and the switch of the environment
  variables; the name and the type of the configuration file, the directories it is searched in, and the
  file in use, which is empty until one is set or found.
\<close>

record viper_state =
  vs_override :: "string \<Rightarrow> conf_value option"
  vs_files :: "string \<Rightarrow> conf_value option"
  vs_default :: "string \<Rightarrow> conf_value option"
  vs_prefix :: string
  vs_replacer :: "(string \<times> string) list"
  vs_env_on :: bool
  vs_name :: string
  vs_type :: string
  vs_paths :: "string list"
  vs_file :: string

definition viper_empty :: viper_state where
  "viper_empty = \<lparr>vs_override = Map.empty, vs_files = Map.empty, vs_default = Map.empty, vs_prefix = [],
     vs_replacer = [], vs_env_on = False, vs_name = ''config'', vs_type = [], vs_paths = [], vs_file = []\<rparr>"

text \<open>
  The outside: the environment variables that are set and not empty; the files that exist, and the
  settings read from one as a given type, \<^term>\<open>None\<close> for a file that cannot be read or decoded; the
  absolute form of a search path; and the file names searched for under a configuration name and type.
  Values are as they are after conversion to the type of their field, and the sections of a file are
  mappings. Directories that exist can be searched.
\<close>

record viper_outside =
  vo_environ :: "string \<Rightarrow> conf_value option"
  vo_exists :: "string \<Rightarrow> bool"
  vo_disk :: "string \<Rightarrow> string \<Rightarrow> (string \<Rightarrow> conf_value option) option"
  vo_abs :: "string \<Rightarrow> string"
  vo_names :: "string \<Rightarrow> string \<Rightarrow> string list"

text \<open>
  The variable of a key: the prefix, an underscore and the key, in upper case (the fifth bit of a letter is
  cleared), rewritten by the replacer, here one of single bytes. Keys are ASCII texts.
\<close>

definition ascii_upper :: "char \<Rightarrow> char" where
  "ascii_upper c = (if 97 \<le> (of_char c :: nat) \<and> (of_char c :: nat) \<le> 122
     then case c of Char b0 b1 b2 b3 b4 b5 b6 b7 \<Rightarrow> Char b0 b1 b2 b3 b4 False b6 b7 else c)"

definition replacer_Replace :: "(string \<times> string) list \<Rightarrow> string \<Rightarrow> string" where
  "replacer_Replace ps s = concat (map (\<lambda>c. case map_of ps [c] of Some w \<Rightarrow> w | None \<Rightarrow> [c]) s)"

definition env_name :: "viper_state \<Rightarrow> string \<Rightarrow> string" where
  "env_name s k = replacer_Replace (vs_replacer s)
     (map ascii_upper (if vs_prefix s = [] then k else vs_prefix s @ ''_'' @ k))"

definition section_of :: "string \<Rightarrow> string" where
  "section_of k = takeWhile (\<lambda>c. c \<noteq> CHR ''.'') k"

definition first_set :: "'a option list \<Rightarrow> 'a option" where
  "first_set xs = (case filter (\<lambda>x. x \<noteq> None) xs of [] \<Rightarrow> None | x # _ \<Rightarrow> x)"

lemma first_set_simps [simp]:
  "first_set [] = None" "first_set (Some x # xs) = Some x" "first_set (None # xs) = first_set xs"
  by (simp_all add: first_set_def)

text \<open>The value of a key: explicit setting, environment, file, default.\<close>

definition effective :: "viper_outside \<Rightarrow> viper_state \<Rightarrow> string \<Rightarrow> conf_value option" where
  "effective X s k = first_set [vs_override s k,
     if vs_env_on s then vo_environ X (env_name s k) else None, vs_files s k, vs_default s k]"

text \<open>
  The file a merge or a reading is about: the one in use, or else the first that exists in the order of the
  directories.
\<close>

definition candidates :: "viper_outside \<Rightarrow> string \<Rightarrow> string \<Rightarrow> string list \<Rightarrow> string list" where
  "candidates X name type dirs = concat (map (\<lambda>d. map (\<lambda>n. d @ ''/'' @ n) (vo_names X name type)) dirs)"

definition sought :: "viper_outside \<Rightarrow> viper_state \<Rightarrow> string option" where
  "sought X s = (if vs_file s \<noteq> [] then Some (vs_file s)
     else find (vo_exists X) (candidates X (vs_name s) (vs_type s) (vs_paths s)))"

text \<open>The value of the field that a key of the configuration stands for.\<close>

definition config_value :: "config \<Rightarrow> string \<Rightarrow> conf_value option" where
  "config_value c k =
     (if k = ''tls.enabled'' then map_option V_Bool (tls_Enabled (cfg_TLS c))
      else map_of
        [(''logging.level'', V_String (log_Level (cfg_Logging c))),
         (''logging.format'', V_String (log_Format (cfg_Logging c))),
         (''msp.localMspID'', V_String (LocalMspID (cfg_MSP c))),
         (''msp.configPath'', V_String (ConfigPath (cfg_MSP c))),
         (''tls.clientKey'', V_String (ClientKeyPath (cfg_TLS c))),
         (''tls.clientCert'', V_String (ClientCertPath (cfg_TLS c))),
         (''tls.rootCerts'', V_Strings (RootCertPaths (cfg_TLS c))),
         (''tls.serverNameOverride'', V_String (ServerNameOverride (cfg_TLS c))),
         (''orderer.address'', V_String (Address (cfg_Orderer c))),
         (''orderer.connectionTimeout'', V_Duration (ConnectionTimeout (cfg_Orderer c))),
         (''orderer.channel'', V_String (Channel (cfg_Orderer c))),
         (''queries.address'', V_String (Address (cfg_Queries c))),
         (''queries.connectionTimeout'', V_Duration (ConnectionTimeout (cfg_Queries c))),
         (''notifications.address'', V_String (Address (cfg_Notifications c))),
         (''notifications.connectionTimeout'', V_Duration (ConnectionTimeout (cfg_Notifications c))),
         (''notifications.waitingTimeout'', V_Duration (WaitingTimeout (cfg_Notifications c)))] k)"

definition config_keys :: "string set" where
  "config_keys = fst ` set config_defaults"

text \<open>
  What is relied on, one law for each method. A merge adds the settings of the file to those read so far and
  makes the file the one in use; a reading replaces them. The law of \<open>Unmarshal\<close> is about the keys of the
  configuration, which all have a default, and for an environment in which no variable is named like a
  section (it would hide the keys below it).
\<close>

definition unmarshals :: "'v viper_api \<Rightarrow> viper_state \<Rightarrow> viper_outside \<Rightarrow> 'v \<Rightarrow> bool" where
  "unmarshals V s X v \<longleftrightarrow> (\<forall>c. vp_Unmarshal V v = Ok c \<longrightarrow>
     (\<forall>k \<in> config_keys. vs_default s k \<noteq> None \<and> vo_environ X (env_name s (section_of k)) = None) \<longrightarrow>
     (\<forall>p \<in> set (vs_replacer s). length (fst p) = 1) \<longrightarrow>
     (\<forall>k \<in> config_keys. config_value c k = effective X s k))"

definition merges :: "'v viper_api \<Rightarrow> ('v \<Rightarrow> viper_state) \<Rightarrow> viper_outside \<Rightarrow> 'v \<Rightarrow> bool" where
  "merges V A X v \<longleftrightarrow>
     (case sought X (A v) of
        None \<Rightarrow> (\<exists>e v'. vp_MergeInConfig V v = (Err e, v') \<and> vp_IsNotFound V e \<and> A v' = A v)
      | Some p \<Rightarrow> (case vo_disk X (vs_type (A v)) p of
          None \<Rightarrow> (\<exists>e v'. vp_MergeInConfig V v = (Err e, v') \<and> \<not> vp_IsNotFound V e \<and> A v' = (A v)\<lparr>vs_file := p\<rparr>)
        | Some c \<Rightarrow> (\<exists>v'. vp_MergeInConfig V v = (Ok (), v')
            \<and> A v' = (A v)\<lparr>vs_file := p, vs_files := vs_files (A v) ++ c\<rparr>)))"

definition reads :: "'v viper_api \<Rightarrow> ('v \<Rightarrow> viper_state) \<Rightarrow> viper_outside \<Rightarrow> 'v \<Rightarrow> bool" where
  "reads V A X v \<longleftrightarrow> vs_file (A v) \<noteq> [] \<longrightarrow>
     (case vo_disk X (vs_type (A v)) (vs_file (A v)) of
        None \<Rightarrow> (\<exists>e v'. vp_ReadInConfig V v = (Err e, v') \<and> A v' = A v)
      | Some c \<Rightarrow> (\<exists>v'. vp_ReadInConfig V v = (Ok (), v') \<and> A v' = (A v)\<lparr>vs_files := c\<rparr>))"

definition viper_documented :: "'v viper_api \<Rightarrow> ('v \<Rightarrow> viper_state) \<Rightarrow> viper_outside \<Rightarrow> bool" where
  "viper_documented V A X \<longleftrightarrow>
     A (vp_New V) = viper_empty
   \<and> (\<forall>k \<in> config_keys. \<forall>d v. A (vp_SetDefault V k d v) = (A v)\<lparr>vs_default := (vs_default (A v))(k \<mapsto> d)\<rparr>)
   \<and> (\<forall>k \<in> config_keys. \<forall>d v. A (vp_Set V k d v) = (A v)\<lparr>vs_override := (vs_override (A v))(k \<mapsto> d)\<rparr>)
   \<and> (\<forall>p v. p \<noteq> [] \<longrightarrow> A (vp_SetEnvPrefix V p v) = (A v)\<lparr>vs_prefix := p\<rparr>)
   \<and> (\<forall>r v. A (vp_SetEnvKeyReplacer V r v) = (A v)\<lparr>vs_replacer := r\<rparr>)
   \<and> (\<forall>v. A (vp_AutomaticEnv V v) = (A v)\<lparr>vs_env_on := True\<rparr>)
   \<and> (\<forall>n v. n \<noteq> [] \<longrightarrow> A (vp_SetConfigName V n v) = (A v)\<lparr>vs_name := n, vs_file := []\<rparr>)
   \<and> (\<forall>t v. t \<noteq> [] \<longrightarrow> A (vp_SetConfigType V t v) = (A v)\<lparr>vs_type := t\<rparr>)
   \<and> (\<forall>d v. d \<noteq> [] \<longrightarrow> A (vp_AddConfigPath V d v) =
        (A v)\<lparr>vs_paths := (if vo_abs X d \<in> set (vs_paths (A v)) then vs_paths (A v) else vs_paths (A v) @ [vo_abs X d])\<rparr>)
   \<and> (\<forall>p v. A (vp_SetConfigFile V p v) = (if p = [] then A v else (A v)\<lparr>vs_file := p\<rparr>))
   \<and> (\<forall>v. merges V A X v) \<and> (\<forall>v. reads V A X v)
   \<and> (\<forall>v. vp_ConfigFileUsed V v = vs_file (A v))
   \<and> (\<forall>v. unmarshals V (A v) X v)"

section \<open>The course of a loading\<close>

text \<open>The variable of a key of the configuration, and the settings the options leave.\<close>

definition variable :: "string \<Rightarrow> string" where
  "variable k = ''FXCONFIG_'' @ map (\<lambda>c. if c = CHR ''.'' then CHR ''_'' else ascii_upper c) k"

definition load_options :: "(string + string \<times> conf_value) list \<Rightarrow> 'v load_option list" where
  "load_options os = map (case_sum WithConfigFile (\<lambda>(k, x). WithOverride k x)) os"

definition overrides :: "(string + string \<times> conf_value) list \<Rightarrow> string \<Rightarrow> conf_value option" where
  "overrides os = map_of (rev (concat (map (case_sum (\<lambda>_. []) (\<lambda>kx. [kx])) os)))"

definition explicit_file :: "(string + string \<times> conf_value) list \<Rightarrow> string option" where
  "explicit_file os = (case filter (\<lambda>p. p \<noteq> []) (concat (map (case_sum (\<lambda>p. [p]) (\<lambda>_. [])) os)) of
     [] \<Rightarrow> None | ps \<Rightarrow> Some (last ps))"

text \<open>The file of the configuration in a list of directories.\<close>

definition first_file :: "viper_outside \<Rightarrow> string list \<Rightarrow> string option" where
  "first_file X dirs = find (vo_exists X) (candidates X ''config'' ''yaml'' dirs)"

definition user_dirs :: "viper_outside \<Rightarrow> string option \<Rightarrow> string list" where
  "user_dirs X home = (case home of None \<Rightarrow> [] | Some h \<Rightarrow> [vo_abs X (filepath_Join [h, ''.fxconfig''])])"

definition add_dir :: "string \<Rightarrow> string list \<Rightarrow> string list" where
  "add_dir d dirs = (if d \<in> set dirs then dirs else dirs @ [d])"

definition config_dirs :: "viper_outside \<Rightarrow> string option \<Rightarrow> string list" where
  "config_dirs X home = add_dir (vo_abs X ''.fxconfig'') (user_dirs X home)"

definition readable_dirs :: "viper_outside \<Rightarrow> string list \<Rightarrow> bool" where
  "readable_dirs X dirs \<longleftrightarrow> (\<forall>p. first_file X dirs = Some p \<longrightarrow> vo_disk X ''yaml'' p \<noteq> None)"

text \<open>The state after the setup, and after the search of a list of directories.\<close>

definition start_state :: viper_state where
  "start_state = viper_empty\<lparr>vs_default := map_of config_defaults, vs_prefix := ''FXCONFIG'',
     vs_replacer := [(''-'', ''_''), (''.'', ''_'')], vs_env_on := True, vs_name := ''config'', vs_type := ''yaml''\<rparr>"

definition searched :: "viper_outside \<Rightarrow> string list \<Rightarrow> viper_state" where
  "searched X dirs = start_state\<lparr>vs_paths := dirs,
     vs_file := (case first_file X dirs of None \<Rightarrow> [] | Some p \<Rightarrow> p),
     vs_files := (case first_file X dirs of None \<Rightarrow> Map.empty | Some p \<Rightarrow> the (vo_disk X ''yaml'' p))\<rparr>"

lemma ResolveTLS_sel:
  "cfg_Logging (ResolveTLS c) = cfg_Logging c" "cfg_MSP (ResolveTLS c) = cfg_MSP c"
  "cfg_TLS (ResolveTLS c) = tls_Normalize (cfg_TLS c)"
  "Address (cfg_Orderer (ResolveTLS c)) = Address (cfg_Orderer c)"
  "ConnectionTimeout (cfg_Orderer (ResolveTLS c)) = ConnectionTimeout (cfg_Orderer c)"
  "Channel (cfg_Orderer (ResolveTLS c)) = Channel (cfg_Orderer c)"
  "Address (cfg_Queries (ResolveTLS c)) = Address (cfg_Queries c)"
  "ConnectionTimeout (cfg_Queries (ResolveTLS c)) = ConnectionTimeout (cfg_Queries c)"
  "Address (cfg_Notifications (ResolveTLS c)) = Address (cfg_Notifications c)"
  "ConnectionTimeout (cfg_Notifications (ResolveTLS c)) = ConnectionTimeout (cfg_Notifications c)"
  "WaitingTimeout (cfg_Notifications (ResolveTLS c)) = WaitingTimeout (cfg_Notifications c)"
  by (simp_all add: ResolveTLS_def Let_def)

lemma config_value_ResolveTLS:
  assumes "tls_Enabled (cfg_TLS c) \<noteq> None"
  shows "config_value (ResolveTLS c) k = config_value c k"
proof -
  have "tls_Normalize (cfg_TLS c) = cfg_TLS c" using assms by (auto simp: tls_Normalize_def)
  then show ?thesis unfolding config_value_def ResolveTLS_sel by (rule arg_cong)
qed


lemma first_file_nonempty: "first_file X dirs = Some p \<Longrightarrow> p \<noteq> []"
  by (auto simp: first_file_def candidates_def find_Some_iff2 find_Some_iff in_set_conv_nth [symmetric]
      dest!: nth_mem)

lemma first_file_add:
  "first_file X (add_dir d dirs) = (case first_file X dirs of Some p \<Rightarrow> Some p | None \<Rightarrow> first_file X [d])"
proof -
  have app: "find P (ps @ qs) = (case find P ps of Some q \<Rightarrow> Some q | None \<Rightarrow> find P qs)" for P and ps qs :: "string list"
    by (induction ps) auto
  have "first_file X dirs = None \<Longrightarrow> d \<in> set dirs \<Longrightarrow> first_file X [d] = None"
    by (auto simp: first_file_def candidates_def find_None_iff)
  then show ?thesis
    by (auto simp: add_dir_def first_file_def candidates_def app split: option.split)
qed

lemma documentedD:
  assumes "viper_documented V A X"
  shows "merges V A X v" "reads V A X v" "vp_ConfigFileUsed V v = vs_file (A v)" "unmarshals V (A v) X v"
    "d \<noteq> [] \<Longrightarrow> A (vp_AddConfigPath V d v) = (A v)\<lparr>vs_paths := add_dir (vo_abs X d) (vs_paths (A v))\<rparr>"
  using assms by (simp_all add: viper_documented_def add_dir_def)

text \<open>One search: it fails exactly if the file it finds cannot be read.\<close>

lemma merge_file_searched:
  assumes law: "viper_documented V A X" and v: "A v = searched X dirs" "readable_dirs X dirs" and d: "d \<noteq> []"
  defines "dirs' \<equiv> add_dir (vo_abs X d) dirs"
  shows "if readable_dirs X dirs' then \<exists>v'. merge_file V what d v = (Ok (), v') \<and> A v' = searched X dirs'
    else \<exists>e v'. merge_file V what d v = (Err (Error_Wrap what e), v')"
proof -
  let ?v = "vp_AddConfigPath V d v"
  have add: "A ?v = (searched X dirs)\<lparr>vs_paths := dirs'\<rparr>"
    using documentedD(5) [OF law d, of v] v(1) by (simp add: dirs'_def searched_def)
  have found: "sought X (A ?v) = first_file X dirs'"
  proof (cases "first_file X dirs")
    case None
    then show ?thesis
      unfolding add by (simp add: sought_def searched_def start_state_def first_file_def [of X dirs'])
  next
    case (Some p)
    then show ?thesis
      unfolding add dirs'_def first_file_add
      using first_file_nonempty [OF Some] by (simp add: sought_def searched_def)
  qed
  have type: "vs_type (A ?v) = ''yaml''" by (simp add: add searched_def start_state_def)
  note law = documentedD(1) [OF law, of ?v, unfolded merges_def found type]
  show ?thesis
  proof (cases "first_file X dirs'")
    case None
    then obtain e v' where r: "vp_MergeInConfig V ?v = (Err e, v')" "vp_IsNotFound V e" "A v' = A ?v"
      using law by auto
    have "first_file X dirs = None" using None by (auto simp: dirs'_def first_file_add split: option.splits)
    then have "A v' = searched X dirs'" using None unfolding r(3) add by (simp add: searched_def)
    then show ?thesis using r(1,2) None by (simp add: merge_file_def readable_dirs_def)
  next
    case (Some p)
    show ?thesis
    proof (cases "vo_disk X ''yaml'' p")
      case None
      then obtain e v' where r: "vp_MergeInConfig V ?v = (Err e, v')" "\<not> vp_IsNotFound V e"
        using law Some by auto
      then show ?thesis using Some None by (simp add: merge_file_def readable_dirs_def)
    next
      case (Some c)
      then obtain v' where r: "vp_MergeInConfig V ?v = (Ok (), v')"
        and v': "A v' = (A ?v)\<lparr>vs_file := p, vs_files := vs_files (A ?v) ++ c\<rparr>"
        using law \<open>first_file X dirs' = Some p\<close> by auto
      have "m ++ m = m" for m :: "string \<Rightarrow> conf_value option"
        by (auto simp: map_add_def fun_eq_iff split: option.split)
      then have "A v' = searched X dirs'"
        unfolding v' add using \<open>first_file X dirs' = Some p\<close> Some
        by (cases "first_file X dirs") (auto simp: searched_def dirs'_def first_file_add)
      then show ?thesis using r \<open>first_file X dirs' = Some p\<close> Some by (simp add: merge_file_def readable_dirs_def)
    qed
  qed
qed

text \<open>The setup, the options and the explicit file.\<close>

lemma map_add_first: "map_of calls k = None \<Longrightarrow> m(k \<mapsto> d) ++ map_of calls = m ++ map_of ((k, d) # calls)"
  by (auto simp: map_add_def fun_eq_iff split: option.split)

lemma setting_documented:
  assumes "viper_documented V A X" "distinct (map fst calls)" "fst ` set calls \<subseteq> config_keys"
  shows "A (setting (vp_SetDefault V) v calls) = (A v)\<lparr>vs_default := vs_default (A v) ++ map_of calls\<rparr>"
  using assms(2,3)
proof (induction calls arbitrary: v)
  case (Cons c calls)
  obtain k d where c: "c = (k, d)" by (cases c)
  have k: "k \<in> config_keys" "map_of calls k = None" using Cons.prems by (auto simp: c map_of_eq_None_iff)
  have "A (vp_SetDefault V k d v) = (A v)\<lparr>vs_default := (vs_default (A v))(k \<mapsto> d)\<rparr>"
    using assms(1) k(1) by (simp add: viper_documented_def)
  moreover have "A (setting (vp_SetDefault V) (vp_SetDefault V k d v) calls) = (A (vp_SetDefault V k d v))
      \<lparr>vs_default := vs_default (A (vp_SetDefault V k d v)) ++ map_of calls\<rparr>"
    by (rule Cons.IH) (use Cons.prems in auto)
  ultimately show ?case
    using map_add_first [OF k(2), of "vs_default (A v)" d] by (simp add: c del: fun_upd_apply map_of.simps(2))
qed simp

definition load_start :: "'v viper_api \<Rightarrow> 'v" where
  "load_start V = load_setup V (setting (vp_SetDefault V) (vp_New V) config_defaults)"

lemma setup_documented:
  assumes "viper_documented V A X"
  shows "A (vp_SetEnvPrefix V ''FXCONFIG'' v) = (A v)\<lparr>vs_prefix := ''FXCONFIG''\<rparr>"
    "A (vp_SetEnvKeyReplacer V r v) = (A v)\<lparr>vs_replacer := r\<rparr>" "A (vp_AutomaticEnv V v) = (A v)\<lparr>vs_env_on := True\<rparr>"
    "A (vp_SetConfigName V ''config'' v) = (A v)\<lparr>vs_name := ''config'', vs_file := []\<rparr>"
    "A (vp_SetConfigType V ''yaml'' v) = (A v)\<lparr>vs_type := ''yaml''\<rparr>"
  using assms by (simp_all add: viper_documented_def)

lemma load_start_state:
  assumes "viper_documented V A X"
  shows "A (load_start V) = searched X []"
proof -
  have "A (setting (vp_SetDefault V) (vp_New V) config_defaults) = viper_empty\<lparr>vs_default := map_of config_defaults\<rparr>"
  proof -
    have "distinct (map fst config_defaults)" by (simp add: config_defaults_def)
    moreover have "A (vp_New V) = viper_empty" using assms by (simp add: viper_documented_def)
    ultimately show ?thesis
      using setting_documented [OF assms, of config_defaults "vp_New V"]
      by (simp only: config_keys_def) (simp add: viper_empty_def)
  qed
  then show ?thesis
    unfolding load_start_def load_setup_def Let_def searched_def start_state_def
    by (simp add: setup_documented [OF assms] first_file_def candidates_def viper_empty_def)
qed

lemma options_documented:
  fixes V :: "'v viper_api"
  assumes "viper_documented V A X" "\<forall>k x. Inr (k, x) \<in> set os \<longrightarrow> k \<in> config_keys"
  shows "A (fold (\<lambda>opt v. opt V v) (load_options os) v) = (A v)\<lparr>vs_override := vs_override (A v) ++ overrides os,
    vs_file := (case explicit_file os of None \<Rightarrow> vs_file (A v) | Some p \<Rightarrow> p)\<rparr>"
  using assms(2)
proof (induction os arbitrary: v)
  case (Cons a os)
  have over: "overrides (a # os) = overrides [a] ++ overrides os"
    by (simp add: overrides_def map_add_def fun_eq_iff split: option.split)
  have expl: "explicit_file (a # os) = (case explicit_file os of Some p \<Rightarrow> Some p
      | None \<Rightarrow> case a of Inl p \<Rightarrow> if p = [] then None else Some p | Inr _ \<Rightarrow> None)"
    by (cases a) (auto simp: explicit_file_def split: list.splits)
  obtain opt :: "'v load_option" where opt: "load_options (a # os) = opt # load_options os"
    and step: "A (opt V v) = (A v)\<lparr>vs_override := vs_override (A v) ++ overrides [a],
      vs_file := (case a of Inl p \<Rightarrow> if p = [] then vs_file (A v) else p | Inr _ \<Rightarrow> vs_file (A v))\<rparr>"
  proof (cases a)
    case (Inl p)
    then show thesis using assms(1)
      by (intro that [of "WithConfigFile p"]) (simp_all add: load_options_def WithConfigFile_def overrides_def viper_documented_def)
  next
    case (Inr kx)
    obtain k x where kx: "kx = (k, x)" by (cases kx)
    then have "k \<in> config_keys" using Cons.prems Inr by simp
    then show thesis using assms(1) Inr kx
      by (intro that [of "WithOverride k x"]) (simp_all add: load_options_def WithOverride_def overrides_def viper_documented_def)
  qed
  have "\<forall>k x. Inr (k, x) \<in> set os \<longrightarrow> k \<in> config_keys" using Cons.prems by auto
  from Cons.IH [OF this, of "opt V v"] show ?case
    unfolding opt over expl by (cases a; cases "explicit_file os") (simp_all add: step)
qed (simp add: load_options_def overrides_def explicit_file_def)

lemma read_explicit_documented:
  assumes "viper_documented V A X" "vs_type (A v) = ''yaml''"
  shows "if vs_file (A v) = [] then read_explicit V v = (Ok (), v)
    else case vo_disk X ''yaml'' (vs_file (A v)) of
        None \<Rightarrow> \<exists>e v'. read_explicit V v = (Err (Error_Wrap (''error reading config file '' @ vs_file (A v) @ '': '') e), v')
      | Some c \<Rightarrow> \<exists>v'. read_explicit V v = (Ok (), v') \<and> A v' = (A v)\<lparr>vs_files := c\<rparr>"
proof -
  have used: "vp_ConfigFileUsed V u = vs_file (A u)" for u by (rule documentedD(3) [OF assms(1)])
  note law = documentedD(2) [OF assms(1), of v, unfolded reads_def assms(2)]
  show ?thesis
  proof (cases "vs_file (A v) = []")
    case False
    then show ?thesis using law used
      by (cases "vo_disk X ''yaml'' (vs_file (A v))") (auto simp: read_explicit_def res_simps)
  qed (simp add: read_explicit_def used)
qed

text \<open>The keys have the variables one expects.\<close>

lemma upper_punctuation: "ascii_upper c = CHR ''-'' \<longleftrightarrow> c = CHR ''-''" "ascii_upper c = CHR ''.'' \<longleftrightarrow> c = CHR ''.''"
  by (cases c; auto simp: ascii_upper_def)+

lemma env_name_variable:
  assumes "vs_prefix s = ''FXCONFIG''" "vs_replacer s = [(''-'', ''_''), (''.'', ''_'')]" "k \<in> config_keys"
  shows "env_name s k = variable k" "env_name s (section_of k) = variable (section_of k)"
proof -
  have "map ascii_upper ''FXCONFIG_'' = ''FXCONFIG_''" by (simp add: ascii_upper_def)
  then have key: "env_name s l = variable l" if "CHR ''-'' \<notin> set l" for l
    using that assms(1,2)
    by (simp add: env_name_def variable_def replacer_Replace_def upper_punctuation)
      (induction l, auto simp: upper_punctuation)
  have "CHR ''-'' \<notin> set k" using assms(3) by (auto simp: config_keys_def config_defaults_def)
  moreover have "set (section_of k) \<subseteq> set k" by (auto simp: section_of_def dest: set_takeWhileD)
  ultimately show "env_name s k = variable k" "env_name s (section_of k) = variable (section_of k)"
    using key by blast+
qed

end
