(* ===== verification/Load_Files.thy ===== *)
theory Load_Files
  imports Load_Props
begin

text \<open>
  What a loading yields: which configuration file counts, the precedence of the sources of a setting, and
  the errors, for every registry that behaves as \<open>viper\<close> documents it, with a registry that does.
\<close>

section \<open>The end of a loading\<close>







section \<open>Properties\<close>



section \<open>A registry that behaves as documented\<close>
















end
