(* ===== verification/Orderer_Client.thy ===== *)
theory Orderer_Client
  imports Client_Conn
begin

text \<open>
  \<open>tools/fxconfig/internal/client/orderer.go\<close>: the signed envelope of a transaction and its
  submission over a broadcast stream. \<open>protoutil\<close> and the gRPC stubs are code outside the sources:
  headers are built and marshalled by the operations of \<open>protoutil_api\<close>, the stream's answers are
  those of \<open>broadcast_env\<close>.
\<close>

record channel_header =
  ch_Type :: int
  ch_Version :: int
  ch_ChannelId :: string
  ch_Epoch :: "64 word"
  ch_TxId :: string
  ch_rest :: bytes

datatype broadcast_status = Status_SUCCESS | Status_Other int

record protoutil_api =
  pu_NewSignatureHeader :: "bytes \<Rightarrow> trace \<Rightarrow> bytes result"
  pu_MakeChannelHeader :: "int \<Rightarrow> int \<Rightarrow> string \<Rightarrow> 64 word \<Rightarrow> trace \<Rightarrow> channel_header"
  pu_MakePayloadHeader :: "channel_header \<Rightarrow> bytes \<Rightarrow> bytes result"
  pu_Marshal_Tx :: "tx option \<Rightarrow> bytes result"
  pu_Marshal_Payload :: "bytes \<Rightarrow> bytes \<Rightarrow> bytes result"

record broadcast_env =
  be_Broadcast :: "conn \<Rightarrow> trace \<Rightarrow> stream result"
  be_Send :: "stream \<Rightarrow> envelope \<Rightarrow> trace \<Rightarrow> unit result"
  be_Recv :: "stream \<Rightarrow> trace \<Rightarrow> broadcast_status result"

text \<open>
  The constructors of the two headers draw a nonce and read the clock; a failure of the identity's
  serialisation or of the random source is a panic (\<open>NewSignatureHeaderOrPanic\<close>).
\<close>

definition NewSignatureHeaderOrPanic ::
    "protoutil_api \<Rightarrow> trace signing_identity \<Rightarrow> (bytes, trace) io" where
  "NewSignatureHeaderOrPanic pu signer =
     io_bind (io_lift (or_panic (si_Serialize signer))) (\<lambda>creator.
       ext_call (Ev_ReadRandom 24) (\<lambda>tr. or_panic (pu_NewSignatureHeader pu creator tr)))"

definition MakeChannelHeader ::
    "protoutil_api \<Rightarrow> int \<Rightarrow> int \<Rightarrow> string \<Rightarrow> 64 word \<Rightarrow> (channel_header, trace) io" where
  "MakeChannelHeader pu ty version channel epoch =
     ext_call Ev_Timestamp (\<lambda>tr. Ok (pu_MakeChannelHeader pu ty version channel epoch tr))"

definition HeaderType_MESSAGE :: int where
  "HeaderType_MESSAGE = 0"

section \<open>The client\<close>

record orderer_client_impl =
  oi_cfg :: orderer_config
  oi_client :: "conn option"
  oi_closeF :: "conn option"

definition NewOrdererClient :: "env \<Rightarrow> orderer_config \<Rightarrow> (orderer_client_impl, trace) io" where
  "NewOrdererClient E cfg =
     io_bind (io_wrap ''cannot get grpc client: '' (newClientConn E cfg)) (\<lambda>conn.
       io_return \<lparr>oi_cfg = cfg, oi_client = Some conn, oi_closeF = Some conn\<rparr>)"

definition orderer_Close :: "orderer_client_impl \<Rightarrow> (unit, trace) io" where
  "orderer_Close oc =
     (case oi_closeF oc of None \<Rightarrow> io_return ()
      | Some conn \<Rightarrow> ext_call (Ev_ConnClose conn) (\<lambda>_. Ok ()))"

definition createSignedEnvelope ::
    "protoutil_api \<Rightarrow> orderer_client_impl \<Rightarrow> trace signing_identity option \<Rightarrow> string \<Rightarrow> tx option
      \<Rightarrow> (envelope, trace) io" where
  "createSignedEnvelope pu oc signer txID t =
     (case signer of None \<Rightarrow> io_fail (Error_New ''require Signer'')
      | Some signer \<Rightarrow>
          io_bind (NewSignatureHeaderOrPanic pu signer) (\<lambda>signatureHdr.
          io_bind (MakeChannelHeader pu HeaderType_MESSAGE 0 (Channel (oi_cfg oc)) 0) (\<lambda>channelHdr.
          let channelHdr = channelHdr\<lparr>ch_TxId := txID\<rparr> in
          io_bind (io_lift (or_panic (pu_MakePayloadHeader pu channelHdr signatureHdr))) (\<lambda>payloadHdr.
          io_bind (io_lift (or_panic (pu_Marshal_Tx pu t))) (\<lambda>txBytes.
          io_bind (io_lift (or_panic (pu_Marshal_Payload pu payloadHdr txBytes))) (\<lambda>payloadBytes.
          io_bind (si_Sign signer payloadBytes) (\<lambda>sig.
            io_return \<lparr>env_Payload = payloadBytes, env_Signature = sig\<rparr>)))))))"

definition send :: "broadcast_env \<Rightarrow> orderer_client_impl \<Rightarrow> envelope \<Rightarrow> (unit, trace) io" where
  "send B oc env =
     (case oi_client oc of None \<Rightarrow> io_fail (Error_New ''require client'')
      | Some conn \<Rightarrow>
          io_bind (ext_call (Ev_OpenBroadcast conn) (be_Broadcast B conn)) (\<lambda>abc.
          io_bind (ext_call (Ev_Send abc env) (be_Send B abc env)) (\<lambda>_.
          io_bind (ext_call (Ev_Recv abc) (be_Recv B abc)) (\<lambda>status.
            case status of
              Status_SUCCESS \<Rightarrow> io_return ()
            | Status_Other n \<Rightarrow> io_fail (Error_New (''got error '' @ dec_of_int n))))))"

definition Broadcast ::
    "protoutil_api \<Rightarrow> broadcast_env \<Rightarrow> orderer_client_impl \<Rightarrow> trace signing_identity option
      \<Rightarrow> string \<Rightarrow> tx option \<Rightarrow> (unit, trace) io" where
  "Broadcast pu B oc signer txID t =
     io_bind (createSignedEnvelope pu oc signer txID t) (send B oc)"

text \<open>The client as a value of the adapter interface.\<close>

definition orderer_adapter ::
    "protoutil_api \<Rightarrow> broadcast_env \<Rightarrow> orderer_client_impl \<Rightarrow> trace orderer_client" where
  "orderer_adapter pu B oc =
     \<lparr>oc_Broadcast = Broadcast pu B oc, oc_Close = orderer_Close oc\<rparr>"

section \<open>Lemmas\<close>

text \<open>A signer that does nothing but sign: its only visible call is the one for these bytes.\<close>

definition pure_signer :: "trace signing_identity \<Rightarrow> bool" where
  "pure_signer s \<longleftrightarrow> (\<forall>b. emits (\<lambda>e. e = Ev_Sign b) (si_Sign s b))"

fun is_send :: "event \<Rightarrow> bool" where
  "is_send (Ev_Send _ _) = True"
| "is_send _ = False"

text \<open>The events of the envelope's construction: none of them sends anything.\<close>

lemma createSignedEnvelope_emits:
  assumes "\<And>s. signer = Some s \<Longrightarrow> pure_signer s"
  shows "emits (\<lambda>e. \<not> is_send e) (createSignedEnvelope pu oc signer txID t)"
proof (cases signer)
  case None
  then show ?thesis by (simp add: createSignedEnvelope_def emits_intros)
next
  case (Some s)
  have "emits (\<lambda>e. \<not> is_send e) (si_Sign s b)" for b
    using assms [OF Some] emits_mono [of "\<lambda>e. e = Ev_Sign b"] unfolding pure_signer_def by fastforce
  then show ?thesis
    unfolding createSignedEnvelope_def NewSignatureHeaderOrPanic_def MakeChannelHeader_def Some
      option.case Let_def
    by (intro emits_intros) auto
qed

text \<open>
  A successful construction: the payload is that of a header for the client's channel and the
  transaction's id, and the signature is the signer's answer for exactly this payload.
\<close>

definition payload_of ::
    "protoutil_api \<Rightarrow> string \<Rightarrow> string \<Rightarrow> tx option \<Rightarrow> bytes \<Rightarrow> bool" where
  "payload_of pu channel txID t payload \<longleftrightarrow>
     (\<exists>chdr shdr hdr txBytes tr.
        chdr = pu_MakeChannelHeader pu HeaderType_MESSAGE 0 channel 0 tr
        \<and> pu_MakePayloadHeader pu (chdr\<lparr>ch_TxId := txID\<rparr>) shdr = Ok hdr
        \<and> pu_Marshal_Tx pu t = Ok txBytes
        \<and> pu_Marshal_Payload pu hdr txBytes = Ok payload)"

lemma createSignedEnvelope_Ok:
  assumes "createSignedEnvelope pu oc signer txID t tr = (Ok env, tr')"
  obtains s tr1 where "signer = Some s"
    "payload_of pu (Channel (oi_cfg oc)) txID t (env_Payload env)"
    "si_Sign s (env_Payload env) tr1 = (Ok (env_Signature env), tr')"
proof -
  obtain s where s: "signer = Some s"
    using assms by (cases signer) (auto simp: createSignedEnvelope_def)
  from assms show thesis
    unfolding createSignedEnvelope_def s option.case Let_def
    by (auto simp: io_bind_def res_simps NewSignatureHeaderOrPanic_def MakeChannelHeader_def
        payload_of_def split: result.splits prod.splits intro!: that [OF s] exI)
qed

lemma send_cases:
  assumes "send B oc env tr = (r, tr')" "oi_client oc = Some conn"
  shows "tr' = tr @ [Ev_OpenBroadcast conn] \<and> \<not> is_ok r \<or>
    (\<exists>abc post. tr' = tr @ [Ev_OpenBroadcast conn, Ev_Send abc env] @ post
      \<and> filter is_send post = []
      \<and> (is_ok r \<longleftrightarrow> post = [Ev_Recv abc]
           \<and> be_Recv B abc (tr @ [Ev_OpenBroadcast conn, Ev_Send abc env]) = Ok Status_SUCCESS))"
proof (cases "be_Broadcast B conn tr")
  case (Ok abc)
  let ?tr = "tr @ [Ev_OpenBroadcast conn]"
  show ?thesis
  proof (cases "be_Send B abc env ?tr")
    case s: (Ok u)
    have "tr' = tr @ [Ev_OpenBroadcast conn, Ev_Send abc env] @ [Ev_Recv abc]
      \<and> (is_ok r \<longleftrightarrow> be_Recv B abc (tr @ [Ev_OpenBroadcast conn, Ev_Send abc env]) = Ok Status_SUCCESS)"
      using assms(1) s
      by (cases "be_Recv B abc (tr @ [Ev_OpenBroadcast conn, Ev_Send abc env])")
        (auto simp: send_def Ok assms(2) is_ok_iff split: broadcast_status.splits)
    then show ?thesis by (intro disjI2 exI [of _ abc] exI [of _ "[Ev_Recv abc]"]) simp
  next
    case (Err e)
    then have "tr' = tr @ [Ev_OpenBroadcast conn, Ev_Send abc env] @ [] \<and> r = Err e"
      using assms(1) by (simp add: send_def Ok assms(2))
    then show ?thesis by (intro disjI2 exI [of _ abc] exI [of _ "[]"]) simp
  next
    case (Panic q)
    then have "tr' = tr @ [Ev_OpenBroadcast conn, Ev_Send abc env] @ [] \<and> r = Panic q"
      using assms(1) by (simp add: send_def Ok assms(2))
    then show ?thesis by (intro disjI2 exI [of _ abc] exI [of _ "[]"]) simp
  qed
qed (use assms in \<open>auto simp: send_def\<close>)

section \<open>Properties\<close>

text \<open>
  C10: broadcasting a transaction, against every behaviour of the ordering service, sends at most
  one envelope. An envelope that is sent has a payload for the client's channel, this transaction
  id and this transaction, and the signature the signer gave for exactly that payload. The call
  succeeds exactly when the envelope was sent and the orderer answered it with status SUCCESS.
\<close>

theorem broadcast_signed_once:
  assumes "pure_signer s" "oi_client oc = Some conn"
    and "Broadcast pu B oc (Some s) txID t tr = (r, tr')"
  shows "\<exists>evs. tr' = tr @ evs \<and>
    (filter is_send evs = [] \<and> \<not> is_ok r \<or>
     (\<exists>abc env tr1 tr2 post. filter is_send evs = [Ev_Send abc env]
        \<and> payload_of pu (Channel (oi_cfg oc)) txID t (env_Payload env)
        \<and> si_Sign s (env_Payload env) tr1 = (Ok (env_Signature env), tr2)
        \<and> tr' = tr2 @ [Ev_OpenBroadcast conn, Ev_Send abc env] @ post
        \<and> (is_ok r \<longleftrightarrow> post = [Ev_Recv abc]
             \<and> be_Recv B abc (tr2 @ [Ev_OpenBroadcast conn, Ev_Send abc env]) = Ok Status_SUCCESS)))"
proof -
  let ?m = "createSignedEnvelope pu oc (Some s) txID t"
  obtain q tr2 where m: "?m tr = (q, tr2)" by (cases "?m tr")
  obtain evs where evs: "tr2 = tr @ evs" "list_all (\<lambda>e. \<not> is_send e) evs"
    using emitsD [OF createSignedEnvelope_emits m] assms(1) by auto
  then have none: "filter is_send evs = []" by (simp add: filter_empty_conv list_all_iff)
  show ?thesis
  proof (cases q)
    case (Ok env)
    obtain tr1 where env: "payload_of pu (Channel (oi_cfg oc)) txID t (env_Payload env)"
      "si_Sign s (env_Payload env) tr1 = (Ok (env_Signature env), tr2)"
      using createSignedEnvelope_Ok [OF m [unfolded Ok]] by (metis option.inject)
    have "send B oc env tr2 = (r, tr')" using assms(3) m Ok by (simp add: Broadcast_def)
    from send_cases [OF this assms(2)] show ?thesis
    proof (elim disjE exE conjE)
      assume "tr' = tr2 @ [Ev_OpenBroadcast conn]" "\<not> is_ok r"
      then show ?thesis using evs none by (intro exI [of _ "evs @ [Ev_OpenBroadcast conn]"]) simp
    next
      fix abc post
      assume *: "tr' = tr2 @ [Ev_OpenBroadcast conn, Ev_Send abc env] @ post"
        "filter is_send post = []"
        "is_ok r \<longleftrightarrow> post = [Ev_Recv abc]
           \<and> be_Recv B abc (tr2 @ [Ev_OpenBroadcast conn, Ev_Send abc env]) = Ok Status_SUCCESS"
      have "tr' = tr @ (evs @ [Ev_OpenBroadcast conn, Ev_Send abc env] @ post)
        \<and> filter is_send (evs @ [Ev_OpenBroadcast conn, Ev_Send abc env] @ post) = [Ev_Send abc env]"
        using * none evs(1) by simp
      then show ?thesis using * env by blast
    qed
  qed (use assms(3) m evs none in \<open>auto simp: Broadcast_def\<close>)
qed

text \<open>A signer that signs with the payload reversed, and an orderer that accepts.\<close>

definition sample_signer_tr :: "trace signing_identity" where
  "sample_signer_tr = \<lparr>si_Serialize = Ok ''id'',
     si_Sign = (\<lambda>b. ext_call (Ev_Sign b) (\<lambda>tr. Ok (rev b)))\<rparr>"

definition sample_protoutil :: protoutil_api where
  "sample_protoutil = \<lparr>pu_NewSignatureHeader = (\<lambda>c tr. Ok c),
     pu_MakeChannelHeader = (\<lambda>ty v c e tr. \<lparr>ch_Type = ty, ch_Version = v, ch_ChannelId = c,
       ch_Epoch = e, ch_TxId = [], ch_rest = []\<rparr>),
     pu_MakePayloadHeader = (\<lambda>ch sh. Ok (ch_ChannelId ch @ ch_TxId ch @ sh)),
     pu_Marshal_Tx = (\<lambda>t. Ok (concat (map ns_id (tx_GetNamespaces t)))),
     pu_Marshal_Payload = (\<lambda>h d. Ok (h @ d))\<rparr>"

definition sample_broadcast :: broadcast_env where
  "sample_broadcast = \<lparr>be_Broadcast = (\<lambda>c tr. Ok 7), be_Send = (\<lambda>st e tr. Ok ()),
     be_Recv = (\<lambda>st tr. Ok Status_SUCCESS)\<rparr>"

definition sample_orderer :: orderer_client_impl where
  "sample_orderer = \<lparr>oi_cfg = \<lparr>Address = ''h:1'', ConnectionTimeout = 5, ep_TLS = None,
     Channel = ''C''\<rparr>, oi_client = Some 0, oi_closeF = Some 0\<rparr>"

lemma sample_signer_pure: "pure_signer sample_signer_tr"
  by (simp add: pure_signer_def sample_signer_tr_def emits_intros)

theorem broadcast_signed_once_witness:
  "\<exists>evs. Broadcast sample_protoutil sample_broadcast sample_orderer (Some sample_signer_tr) ''T'' None []
     = (Ok (), evs) \<and> filter is_send evs = [Ev_Send 7 \<lparr>env_Payload = ''CTid'', env_Signature = ''diTC''\<rparr>]"
proof -
  let ?evs = "[Ev_ReadRandom 24, Ev_Timestamp, Ev_Sign ''CTid'', Ev_OpenBroadcast 0,
    Ev_Send 7 \<lparr>env_Payload = ''CTid'', env_Signature = ''diTC''\<rparr>, Ev_Recv 7]"
  have b: "Broadcast sample_protoutil sample_broadcast sample_orderer (Some sample_signer_tr) ''T'' None []
     = (Ok (), ?evs)"
    by (simp add: Broadcast_def createSignedEnvelope_def NewSignatureHeaderOrPanic_def Let_def
        MakeChannelHeader_def send_def sample_protoutil_def sample_broadcast_def sample_orderer_def
        sample_signer_tr_def)
  have "oi_client sample_orderer = Some 0" by (simp add: sample_orderer_def)
  from broadcast_signed_once [OF sample_signer_pure this b] show ?thesis
    using b by auto
qed

end
