(* ===== verification/Msp_Signer.thy ===== *)
theory Msp_Signer
  imports Adapters
begin

text \<open>
  \<open>tools/fxconfig/internal/msp/signer.go\<close>: the signing identity of an MSP directory. The operations of
  \<open>fabric-lib-go\<close> and \<open>fabric-x-common\<close> are the record \<open>msp_api\<close>, over the world the tool runs in; a
  configuration, a key store, a crypto provider and an MSP are values of arbitrary types.
\<close>

record ('c, 'k, 'p, 'm, 'w) msp_api =
  ma_GetLocalMspConfig :: "string \<Rightarrow> string \<Rightarrow> ('c, 'w) io"
  ma_NewFileBasedKeyStore :: "bytes \<Rightarrow> string \<Rightarrow> bool \<Rightarrow> ('k, 'w) io"
  ma_NewDefaultSecurityLevelWithKeystore :: "'k \<Rightarrow> ('p, 'w) io"
  ma_MSPv1_0 :: int
  ma_New :: "int \<Rightarrow> 'p \<Rightarrow> ('m, 'w) io"
  ma_Setup :: "'m \<Rightarrow> 'c \<Rightarrow> (unit, 'w) io"
  ma_GetDefaultSigningIdentity :: "'m \<Rightarrow> ('w signing_identity, 'w) io"

definition setupMSP :: "('c, 'k, 'p, 'm, 'w) msp_api \<Rightarrow> msp_config \<Rightarrow> ('m, 'w) io" where
  "setupMSP L mspCfg =
     io_bind (io_wrap (''error getting local msp config from '' @ ConfigPath mspCfg @ '': '')
       (ma_GetLocalMspConfig L (ConfigPath mspCfg) (LocalMspID mspCfg))) (\<lambda>conf.
     let dir = filepath_Join [ConfigPath mspCfg, ''keystore''] in
     io_bind (ma_NewFileBasedKeyStore L [] dir True) (\<lambda>ks.
     io_bind (ma_NewDefaultSecurityLevelWithKeystore L ks) (\<lambda>cp.
     io_bind (ma_New L (ma_MSPv1_0 L) cp) (\<lambda>thisMSP.
     io_bind (ma_Setup L thisMSP conf) (\<lambda>_.
       io_return thisMSP)))))"

definition GetSignerIdentityFromMSP ::
    "('c, 'k, 'p, 'm, 'w) msp_api \<Rightarrow> msp_config \<Rightarrow> ('w signing_identity, 'w) io" where
  "GetSignerIdentityFromMSP L cfg =
     io_bind (io_wrap ''msp setup error: '' (setupMSP L cfg)) (\<lambda>thisMSP.
     io_bind (io_wrap ''get signer identity error: '' (ma_GetDefaultSigningIdentity L thisMSP)) (\<lambda>sid.
       io_return sid))"

text \<open>
  Whatever the library calls do to the world, in the sense of a preorder, the whole construction
  does: it makes no other call.
\<close>

context effect
begin

definition lib_preserves :: "('c, 'k, 'p, 'm, 'w) msp_api \<Rightarrow> bool" where
  "lib_preserves L \<longleftrightarrow>
     (\<forall>d i. preserves R (ma_GetLocalMspConfig L d i))
   \<and> (\<forall>p d b. preserves R (ma_NewFileBasedKeyStore L p d b))
   \<and> (\<forall>k. preserves R (ma_NewDefaultSecurityLevelWithKeystore L k))
   \<and> (\<forall>v p. preserves R (ma_New L v p))
   \<and> (\<forall>m c. preserves R (ma_Setup L m c))
   \<and> (\<forall>m. preserves R (ma_GetDefaultSigningIdentity L m))"

lemma preserves_signer:
  "lib_preserves L \<Longrightarrow> preserves R (GetSignerIdentityFromMSP L cfg)"
  unfolding GetSignerIdentityFromMSP_def setupMSP_def Let_def lib_preserves_def
  by (intro preserves_intros) blast+

end

end
