(* ===== verification/Wiring.thy ===== *)
theory Wiring
  imports App_Props Orderer_Client Notifications Msp_Signer
begin

text \<open>
  \<open>tools/fxconfig/main.go\<close>: the application that \<open>run\<close> hands to the command tree, with the real
  clients behind its four providers. Beside the environment of the connections, the parameters are
  the libraries the clients and the validators use. The notification client is concurrent; towards
  the application a call of \<open>Subscribe\<close> or \<open>WaitForEvent\<close> is one event whose answer is any the
  runs of its state machine allow.
\<close>

section \<open>The clients as values of the adapter interfaces\<close>

record ('c, 'k, 'p, 'm) main_env =
  me_env :: env
  me_protoutil :: protoutil_api
  me_broadcast :: broadcast_env
  me_Subscribe :: "conn \<Rightarrow> string \<Rightarrow> trace \<Rightarrow> channel result"
  me_WaitForEvent :: "conn \<Rightarrow> channel \<Rightarrow> trace \<Rightarrow> int result"
  me_msp :: "('c, 'k, 'p, 'm, trace) msp_api"
  me_policy :: policy_api
  me_Stat :: file_system
  me_load_pair :: key_pair_loader

definition notification_adapter ::
    "('c, 'k, 'p, 'm) main_env \<Rightarrow> conn \<Rightarrow> notifications_config \<Rightarrow> trace notification_client" where
  "notification_adapter M conn cfg =
     \<lparr>nc_Subscribe = (\<lambda>txID. ext_call (Ev_Subscribe conn txID (WaitingTimeout cfg)) (me_Subscribe M conn txID)),
      nc_WaitForEvent = (\<lambda>ch. ext_call (Ev_WaitForEvent conn ch (WaitingTimeout cfg)) (me_WaitForEvent M conn ch)),
      nc_Close = notification_Close (Some conn)\<rparr>"

section \<open>The providers\<close>

definition msp_factory ::
    "('c, 'k, 'p, 'm) main_env \<Rightarrow> msp_config \<Rightarrow> (trace signing_identity, trace) io" where
  "msp_factory M cfg = GetSignerIdentityFromMSP (me_msp M) cfg"

definition query_factory :: "('c, 'k, 'p, 'm) main_env \<Rightarrow> queries_config \<Rightarrow> (trace query_client, trace) io" where
  "query_factory M cfg =
     io_bind (NewQueryClient (me_env M) cfg) (\<lambda>qc. io_return (query_adapter (me_env M) qc))"

definition orderer_factory ::
    "('c, 'k, 'p, 'm) main_env \<Rightarrow> orderer_config \<Rightarrow> (trace orderer_client, trace) io" where
  "orderer_factory M cfg =
     io_bind (NewOrdererClient (me_env M) cfg) (\<lambda>oc.
       io_return (orderer_adapter (me_protoutil M) (me_broadcast M) oc))"

definition notification_factory ::
    "('c, 'k, 'p, 'm) main_env \<Rightarrow> notifications_config \<Rightarrow> (trace notification_client, trace) io" where
  "notification_factory M cfg =
     io_bind (NewNotificationClient (me_env M) cfg) (\<lambda>(conn, _).
       io_return (notification_adapter M conn cfg))"

definition build_app :: "('c, 'k, 'p, 'm) main_env \<Rightarrow> config \<Rightarrow> trace \<Rightarrow> app" where
  "build_app M cfg tr =
     (let vctx = NewValidationContext (me_policy M) (me_Stat M)
      in \<lparr>MspProvider = provider_New (msp_factory M) (cfg_MSP cfg) msp_Validate vctx,
          QueryProvider = provider_New (query_factory M) (cfg_Queries cfg) (queries_Validate (me_load_pair M)) vctx,
          OrdererProvider = provider_New (orderer_factory M) (cfg_Orderer cfg) (orderer_Validate (me_load_pair M)) vctx,
          NotificationProvider = provider_New (notification_factory M) (cfg_Notifications cfg)
            (notifications_Validate (me_load_pair M)) vctx,
          app_trace = tr\<rparr>)"

text \<open>The operations of the application, and a process that runs several of them.\<close>

datatype app_call =
    Call_Deploy deploy_input
  | Call_Endorse string "tx option"
  | Call_Submit string "tx option"
  | Call_SubmitWithWait string "tx option"
  | Call_List
  | Call_Merge "tx option list"

definition app_step :: "app_env \<Rightarrow> app_call \<Rightarrow> app \<Rightarrow> app" where
  "app_step A call s =
     (case call of
        Call_Deploy input \<Rightarrow> (case DeployNamespace A input of None \<Rightarrow> s | Some m \<Rightarrow> snd (m s))
      | Call_Endorse txID t \<Rightarrow> snd (EndorseTransaction A txID t s)
      | Call_Submit txID t \<Rightarrow> snd (SubmitTransaction txID t s)
      | Call_SubmitWithWait txID t \<Rightarrow> snd (SubmitTransactionWithWait txID t s)
      | Call_List \<Rightarrow> snd (ListNamespaces s)
      | Call_Merge txs \<Rightarrow> snd (MergeTransactions A txs s))"

section \<open>Who dials\<close>

fun is_dial :: "event \<Rightarrow> bool" where
  "is_dial (Ev_Dial _ _ _) = True"
| "is_dial _ = False"

fun dial_key :: "event \<Rightarrow> string \<times> int" where
  "dial_key (Ev_Dial addr so timeout) = (addr, timeout)"
| "dial_key _ = ([], 0)"

text \<open>The endpoints dialled, with the connection timeouts.\<close>

definition dials :: "trace \<Rightarrow> (string \<times> int) multiset" where
  "dials tr = mset (map dial_key (filter is_dial tr))"

definition endpoint_key :: "'a endpoint_config_scheme \<Rightarrow> (string \<times> int) multiset" where
  "endpoint_key cfg = {#(Address cfg, ConnectionTimeout cfg)#}"

abbreviation quiet :: "('a, trace) io \<Rightarrow> bool" where
  "quiet \<equiv> emits (\<lambda>e. \<not> is_dial e)"

definition signer_emits :: "(event \<Rightarrow> bool) \<Rightarrow> trace signing_identity \<Rightarrow> bool" where
  "signer_emits ok sid \<longleftrightarrow> (\<forall>b. emits ok (si_Sign sid b))"

abbreviation quiet_signer :: "trace signing_identity \<Rightarrow> bool" where
  "quiet_signer \<equiv> signer_emits (\<lambda>e. \<not> is_dial e)"

definition quiet_query :: "trace query_client \<Rightarrow> bool" where
  "quiet_query qc \<longleftrightarrow> quiet (qc_GetNamespacePolicies qc) \<and> quiet (qc_GetConfigVersion qc) \<and> quiet (qc_Close qc)"

definition quiet_orderer :: "trace orderer_client \<Rightarrow> bool" where
  "quiet_orderer oc \<longleftrightarrow> quiet (oc_Close oc)
     \<and> (\<forall>sid txID t. (\<forall>s. sid = Some s \<longrightarrow> quiet_signer s) \<longrightarrow> quiet (oc_Broadcast oc sid txID t))"

definition quiet_notification :: "trace notification_client \<Rightarrow> bool" where
  "quiet_notification nc \<longleftrightarrow> (\<forall>txID. quiet (nc_Subscribe nc txID)) \<and> (\<forall>ch. quiet (nc_WaitForEvent nc ch))
     \<and> quiet (nc_Close nc)"

lemma quiet_dials: "quiet m \<Longrightarrow> m tr = (r, tr') \<Longrightarrow> dials tr' = dials tr"
proof -
  assume "quiet m" "m tr = (r, tr')"
  then obtain evs where "tr' = tr @ evs" "list_all (\<lambda>e. \<not> is_dial e) evs"
    using emitsD by metis
  then show ?thesis by (simp add: dials_def list_all_iff filter_False)
qed

lemma newClientConn_dials:
  assumes "newClientConn E cfg tr = (r, tr')"
  shows "dials tr' \<subseteq># dials tr + (endpoint_key cfg)"
proof -
  obtain q v where c: "createSecOpts (env_ReadFile E) (ep_TLS cfg) tr = (q, v)"
    by (cases "createSecOpts (env_ReadFile E) (ep_TLS cfg) tr")
  have "quiet (createSecOpts (env_ReadFile E) (ep_TLS cfg))"
    by (rule emits_mono [OF createSecOpts_emits]) simp
  then have v: "dials v = dials tr" using c by (rule quiet_dials)
  show ?thesis
  proof (cases q)
    case (Ok so)
    then have "tr' = v @ [Ev_Dial (Address cfg) so (ConnectionTimeout cfg)]"
      using assms c by (simp add: newClientConn_def)
    then show ?thesis using v by (simp add: dials_def endpoint_key_def)
  qed (use assms c v in \<open>simp_all add: newClientConn_def\<close>)
qed

text \<open>A factory that dials at most the endpoints \<open>K\<close>, and whose clients dial no more.\<close>

definition dials_once :: "('k \<Rightarrow> ('t, trace) io) \<Rightarrow> 'k \<Rightarrow> (string \<times> int) multiset \<Rightarrow> ('t \<Rightarrow> bool) \<Rightarrow> bool" where
  "dials_once factory cfg K Q \<longleftrightarrow>
     (\<forall>tr r tr'. factory cfg tr = (r, tr') \<longrightarrow> dials tr' \<subseteq># dials tr + K \<and> (\<forall>x. r = Ok x \<longrightarrow> Q x))"

lemma query_dials_once:
  "dials_once (query_factory M) cfg (endpoint_key cfg) quiet_query"
proof -
  have "quiet_query (query_adapter E qc)" for E qc
    unfolding quiet_query_def query_adapter_def query_GetNamespacePolicies_def
      query_GetConfigVersion_def query_Close_def
    by (auto intro!: emits_intros split: option.split)
  then show ?thesis
    using newClientConn_dials
    by (auto simp: dials_once_def query_factory_def NewQueryClient_def io_bind_def io_wrap_def
        split: prod.splits result.splits)
qed

lemma createSignedEnvelope_quiet:
  assumes "\<And>s. signer = Some s \<Longrightarrow> signer_emits ok s" "\<And>n. ok (Ev_ReadRandom n)" "ok Ev_Timestamp"
  shows "emits ok (createSignedEnvelope pu oc signer txID t)"
  using assms
  by (cases signer)
    (auto simp: createSignedEnvelope_def NewSignatureHeaderOrPanic_def MakeChannelHeader_def
      signer_emits_def Let_def intro!: emits_intros simp del: io_bind_return)

lemma orderer_dials_once:
  "dials_once (orderer_factory M) cfg (endpoint_key cfg) quiet_orderer"
proof -
  have "quiet (send B oc env)" for B oc env
    unfolding send_def by (auto intro!: emits_intros split: option.split broadcast_status.split)
  then have "quiet_orderer (orderer_adapter pu B oc)" for pu B oc
    unfolding quiet_orderer_def orderer_adapter_def Broadcast_def orderer_Close_def
    by (auto intro!: emits_intros createSignedEnvelope_quiet split: option.split)
  then show ?thesis
    using newClientConn_dials
    by (auto simp: dials_once_def orderer_factory_def NewOrdererClient_def io_bind_def io_wrap_def
        split: prod.splits result.splits)
qed

lemma notification_dials_once:
  "dials_once (notification_factory M) cfg (endpoint_key cfg) quiet_notification"
proof -
  have "quiet_notification (notification_adapter M conn cfg)" for conn
    unfolding quiet_notification_def notification_adapter_def by (auto intro!: emits_intros)
  then show ?thesis
    using newClientConn_dials
    by (auto simp: dials_once_def notification_factory_def NewNotificationClient_def io_bind_def io_wrap_def
        split: prod.splits result.splits)
qed

text \<open>
  What the libraries are relied on for: the events of an MSP on disk, of the identities it yields and of
  the random source are all of a kind; in particular they open no connection.
\<close>

definition libs_emit :: "(event \<Rightarrow> bool) \<Rightarrow> ('c, 'k, 'p, 'm) main_env \<Rightarrow> app_env \<Rightarrow> bool" where
  "libs_emit ok M A \<longleftrightarrow>
     emitting.lib_preserves ok (me_msp M)
   \<and> (\<forall>m tr sid tr'. ma_GetDefaultSigningIdentity (me_msp M) m tr = (Ok sid, tr') \<longrightarrow> signer_emits ok sid)
   \<and> (\<forall>n tr. emitted ok tr (snd (ae_random A n tr)))"

abbreviation quiet_libs :: "('c, 'k, 'p, 'm) main_env \<Rightarrow> app_env \<Rightarrow> bool" where
  "quiet_libs \<equiv> libs_emit (\<lambda>e. \<not> is_dial e)"

lemma msp_factory_emits:
  assumes "libs_emit ok M A"
  shows "emits ok (msp_factory M cfg)" "msp_factory M cfg tr = (Ok sid, tr') \<Longrightarrow> signer_emits ok sid"
proof -
  show "emits ok (msp_factory M cfg)"
    using assms emitting.preserves_signer by (auto simp: libs_emit_def msp_factory_def)
  assume "msp_factory M cfg tr = (Ok sid, tr')"
  then obtain m v where "ma_GetDefaultSigningIdentity (me_msp M) m v = (Ok sid, tr')"
    by (auto simp: msp_factory_def GetSignerIdentityFromMSP_def io_bind_Ok_iff io_wrap_Ok_iff)
  then show "signer_emits ok sid" using assms by (auto simp: libs_emit_def)
qed

lemma msp_dials_once:
  assumes "quiet_libs M A"
  shows "dials_once (msp_factory M) cfg {#} quiet_signer"
  using msp_factory_emits(2) [OF assms] quiet_dials [OF msp_factory_emits(1) [OF assms]]
  by (auto simp: dials_once_def)

text \<open>A provider as it was built, with a good instance; and what it has dialled at most.\<close>

definition pv_ok ::
    "('k \<Rightarrow> ('t, trace) io) \<Rightarrow> 'k \<Rightarrow> ('k \<Rightarrow> validation_context \<Rightarrow> unit result) \<Rightarrow> validation_context
      \<Rightarrow> ('t \<Rightarrow> bool) \<Rightarrow> ('t, 'k, trace) provider \<Rightarrow> bool" where
  "pv_ok factory cfg validate vctx Q p \<longleftrightarrow>
     pv_factory p = factory \<and> pv_cfg p = cfg \<and> pv_cfg_Validate p = validate \<and> pv_validationContext p = vctx
     \<and> (\<forall>x. pv_instance p = Some x \<longrightarrow> Q x)"

definition spent :: "('t, 'k, trace) provider \<Rightarrow> (string \<times> int) multiset \<Rightarrow> (string \<times> int) multiset" where
  "spent p K = (if pv_once p \<and> is_ok (provider_Validate p) then K else {#})"

lemma Get_dials:
  assumes "pv_ok factory cfg validate vctx Q p" "dials_once factory cfg K Q"
    and "provider_Get p tr = (r, p', tr')"
  shows "pv_ok factory cfg validate vctx Q p'" "\<forall>x. r = Ok (Some x) \<longrightarrow> Q x"
    "dials tr' + spent p K \<subseteq># dials tr + spent p' K"
proof -
  show "pv_ok factory cfg validate vctx Q p'" "\<forall>x. r = Ok (Some x) \<longrightarrow> Q x"
    using assms unfolding pv_ok_def dials_once_def
    by (auto simp: provider_Get_def provider_cached_def Let_def
        split: if_splits result.splits prod.splits option.splits)
  have same: "provider_Validate p' = provider_Validate p"
    using provider_Get_cfg [OF assms(3)] by (simp add: provider_Validate_def)
  show "dials tr' + spent p K \<subseteq># dials tr + spent p' K"
  proof (cases "pv_once p")
    case True
    then show ?thesis using provider.get_ready [OF True] assms(3) by simp
  next
    case False
    then have once: "spent p K = {#}" "spent p' K = (if is_ok (provider_Validate p) then K else {#})"
      using provider.ready_after [OF assms(3)] same by (simp_all add: spent_def)
    show ?thesis
    proof (cases "provider_Validate p")
      case (Ok u)
      then obtain fr where "factory cfg tr = (fr, tr')"
        using assms(1,3) False
        by (auto simp: pv_ok_def provider_Get_def provider_Validate_def provider_cached_def Let_def
            split: result.splits prod.splits)
      then show ?thesis using assms(2) Ok once by (auto simp: dials_once_def)
    qed (use assms(3) False once in \<open>auto simp: provider_Get_def provider_Validate_def Let_def\<close>)
  qed
qed

text \<open>The invariant of a running application, from the dials \<open>D\<close> made before it was built.\<close>

definition wired ::
    "('c, 'k, 'p, 'm) main_env \<Rightarrow> config \<Rightarrow> (string \<times> int) multiset \<Rightarrow> app \<Rightarrow> bool" where
  "wired M cfg D s \<longleftrightarrow>
     (let vctx = NewValidationContext (me_policy M) (me_Stat M); lp = me_load_pair M
      in pv_ok (msp_factory M) (cfg_MSP cfg) msp_Validate vctx quiet_signer (MspProvider s)
       \<and> pv_ok (query_factory M) (cfg_Queries cfg) (queries_Validate lp) vctx quiet_query (QueryProvider s)
       \<and> pv_ok (orderer_factory M) (cfg_Orderer cfg) (orderer_Validate lp) vctx quiet_orderer (OrdererProvider s)
       \<and> pv_ok (notification_factory M) (cfg_Notifications cfg) (notifications_Validate lp) vctx
           quiet_notification (NotificationProvider s)
       \<and> dials (app_trace s) \<subseteq># D
           + spent (QueryProvider s) (endpoint_key (cfg_Queries cfg))
           + spent (OrdererProvider s) (endpoint_key (cfg_Orderer cfg))
           + spent (NotificationProvider s) (endpoint_key (cfg_Notifications cfg)))"

lemma wired_trace: "wired M cfg D s \<Longrightarrow> dials tr = dials (app_trace s) \<Longrightarrow> wired M cfg D (s\<lparr>app_trace := tr\<rparr>)"
  by (simp add: wired_def Let_def)

lemma wired_quiet: "quiet m \<Longrightarrow> ensures (wired M cfg D) (\<lambda>_. True) (on_trace m)"
  by (auto simp: ensures_def on_trace_def split: prod.splits intro: wired_trace dest: quiet_dials)

lemma wired_budget:
  fixes a b E :: "(string \<times> int) multiset"
  assumes "dials tr' + a \<subseteq># dials tr + b" "dials tr \<subseteq># E + a"
  shows "dials tr' \<subseteq># E + b"
proof -
  have "dials tr' + a \<subseteq># E + a + b"
    by (rule subset_mset.order_trans [OF assms(1)]) (intro subset_mset.add_right_mono assms(2))
  then have "dials tr' + a \<subseteq># (E + b) + a" by (simp add: ac_simps)
  then show ?thesis by (rule subset_mset.add_le_imp_le_right)
qed

lemma wired_Get_signer:
  assumes "quiet_libs M A"
  shows "ensures (wired M cfg D) (\<lambda>sid. \<forall>s. sid = Some s \<longrightarrow> quiet_signer s) MspProvider_Get"
  unfolding ensures_def
proof (intro allI impI)
  fix s assume w: "wired M cfg D s"
  obtain r p tr where g: "provider_Get (MspProvider s) (app_trace s) = (r, p, tr)"
    by (cases "provider_Get (MspProvider s) (app_trace s)") auto
  have ok: "pv_ok (msp_factory M) (cfg_MSP cfg) msp_Validate
      (NewValidationContext (me_policy M) (me_Stat M)) quiet_signer (MspProvider s)"
    using w by (simp add: wired_def Let_def)
  note get = Get_dials [OF ok msp_dials_once [OF assms] g]
  have "dials tr \<subseteq># dials (app_trace s)" using get(3) by (simp add: spent_def)
  then show "case MspProvider_Get s of (r, s') \<Rightarrow> wired M cfg D s'
      \<and> (\<forall>x. r = Ok x \<longrightarrow> (\<forall>s. x = Some s \<longrightarrow> quiet_signer s))"
    using get(1,2) w g by (auto simp: MspProvider_Get_def wired_def Let_def intro: subset_mset.order_trans)
qed

lemma wired_Get_query: "ensures (wired M cfg D) (\<lambda>qc. quiet_query (the_query qc)) QueryProvider_Get"
  unfolding ensures_def
proof (intro allI impI)
  fix s assume w: "wired M cfg D s"
  obtain r p tr where g: "provider_Get (QueryProvider s) (app_trace s) = (r, p, tr)"
    by (cases "provider_Get (QueryProvider s) (app_trace s)") auto
  have ok: "pv_ok (query_factory M) (cfg_Queries cfg) (queries_Validate (me_load_pair M))
      (NewValidationContext (me_policy M) (me_Stat M)) quiet_query (QueryProvider s)"
    using w by (simp add: wired_def Let_def)
  note get = Get_dials [OF ok query_dials_once g]
  have "quiet_query (the_query None)" by (simp add: the_query_def quiet_query_def nil_call_def emits_intros)
  then have "quiet_query (the_query x)" if "r = Ok x" for x
    using get(2) that by (cases x) (simp_all add: the_query_def)
  moreover have "wired M cfg D (s\<lparr>QueryProvider := p, app_trace := tr\<rparr>)"
    using w get(1) wired_budget [OF get(3), of "D + spent (OrdererProvider s) (endpoint_key (cfg_Orderer cfg))
      + spent (NotificationProvider s) (endpoint_key (cfg_Notifications cfg))"]
    by (simp add: wired_def Let_def ac_simps)
  ultimately show "case QueryProvider_Get s of (r, s') \<Rightarrow> wired M cfg D s'
      \<and> (\<forall>x. r = Ok x \<longrightarrow> quiet_query (the_query x))"
    using g by (simp add: QueryProvider_Get_def)
qed

lemma wired_Get_orderer: "ensures (wired M cfg D) (\<lambda>oc. quiet_orderer (the_orderer oc)) OrdererProvider_Get"
  unfolding ensures_def
proof (intro allI impI)
  fix s assume w: "wired M cfg D s"
  obtain r p tr where g: "provider_Get (OrdererProvider s) (app_trace s) = (r, p, tr)"
    by (cases "provider_Get (OrdererProvider s) (app_trace s)") auto
  have ok: "pv_ok (orderer_factory M) (cfg_Orderer cfg) (orderer_Validate (me_load_pair M))
      (NewValidationContext (me_policy M) (me_Stat M)) quiet_orderer (OrdererProvider s)"
    using w by (simp add: wired_def Let_def)
  note get = Get_dials [OF ok orderer_dials_once g]
  have "quiet_orderer (the_orderer None)"
    by (simp add: the_orderer_def quiet_orderer_def nil_call_def emits_intros)
  then have "quiet_orderer (the_orderer x)" if "r = Ok x" for x
    using get(2) that by (cases x) (simp_all add: the_orderer_def)
  moreover have "wired M cfg D (s\<lparr>OrdererProvider := p, app_trace := tr\<rparr>)"
    using w get(1) wired_budget [OF get(3), of "D + spent (QueryProvider s) (endpoint_key (cfg_Queries cfg))
      + spent (NotificationProvider s) (endpoint_key (cfg_Notifications cfg))"]
    by (simp add: wired_def Let_def ac_simps)
  ultimately show "case OrdererProvider_Get s of (r, s') \<Rightarrow> wired M cfg D s'
      \<and> (\<forall>x. r = Ok x \<longrightarrow> quiet_orderer (the_orderer x))"
    using g by (simp add: OrdererProvider_Get_def)
qed

lemma wired_Get_notification:
  "ensures (wired M cfg D) (\<lambda>nc. quiet_notification (the_notification nc)) NotificationProvider_Get"
  unfolding ensures_def
proof (intro allI impI)
  fix s assume w: "wired M cfg D s"
  obtain r p tr where g: "provider_Get (NotificationProvider s) (app_trace s) = (r, p, tr)"
    by (cases "provider_Get (NotificationProvider s) (app_trace s)") auto
  have ok: "pv_ok (notification_factory M) (cfg_Notifications cfg) (notifications_Validate (me_load_pair M))
      (NewValidationContext (me_policy M) (me_Stat M)) quiet_notification (NotificationProvider s)"
    using w by (simp add: wired_def Let_def)
  note get = Get_dials [OF ok notification_dials_once g]
  have "quiet_notification (the_notification None)"
    by (simp add: the_notification_def quiet_notification_def nil_call_def emits_intros)
  then have "quiet_notification (the_notification x)" if "r = Ok x" for x
    using get(2) that by (cases x) (simp_all add: the_notification_def)
  moreover have "wired M cfg D (s\<lparr>NotificationProvider := p, app_trace := tr\<rparr>)"
    using w get(1) wired_budget [OF get(3), of "D + spent (QueryProvider s) (endpoint_key (cfg_Queries cfg))
      + spent (OrdererProvider s) (endpoint_key (cfg_Orderer cfg))"]
    by (simp add: wired_def Let_def ac_simps)
  ultimately show "case NotificationProvider_Get s of (r, s') \<Rightarrow> wired M cfg D s'
      \<and> (\<forall>x. r = Ok x \<longrightarrow> quiet_notification (the_notification x))"
    using g by (simp add: NotificationProvider_Get_def)
qed

text \<open>The operations of the application keep the invariant.\<close>

abbreviation wires :: "('c, 'k, 'p, 'm) main_env \<Rightarrow> config \<Rightarrow> (string \<times> int) multiset \<Rightarrow> ('a, app) io \<Rightarrow> bool" where
  "wires M cfg D m \<equiv> ensures (wired M cfg D) (\<lambda>_. True) m"

lemma wires_bind: "wires M cfg D m \<Longrightarrow> (\<And>x. wires M cfg D (f x)) \<Longrightarrow> wires M cfg D (io_bind m f)"
  by (rule ensures_bind [where P = "\<lambda>_. True"])

lemma quiet_GenerateTxID:
  assumes "libs_emit ok M A"
  shows "emits ok (GenerateTxID (ae_sha256 A) (ae_random A))"
proof -
  have "snd (readNonce (ae_random A) tr) = snd (ae_random A nonce_size tr)" for tr
    by (simp add: readNonce_def split: prod.split option.split)
  then have "emits ok (readNonce (ae_random A))" using assms by (simp add: preserves_def libs_emit_def)
  then show ?thesis unfolding GenerateTxID_def by (intro emits_intros)
qed

lemma wires_create:
  assumes "quiet_libs M A"
  shows "wires M cfg D (create_with A input pol)"
proof -
  have "wires M cfg D configVersion"
    unfolding configVersion_def
    by (rule ensures_bind [OF wired_Get_query]) (simp add: quiet_query_def ensures_defer wired_quiet)
  then show ?thesis
    unfolding create_with_def
    by (intro wires_bind ensures_wrap wired_quiet quiet_GenerateTxID [OF assms] ensures_pure TrueI)
qed

lemma quiet_endorse_from:
  assumes "signer_emits ok signer"
  shows "emits ok (endorse_from P signer txID sid k nss es)"
proof (induction nss arbitrary: k es)
  case (Cons ns nss)
  show ?case
    using assms unfolding endorse_from.simps Let_def signer_emits_def
    by (intro emitting.preserves_intros Cons) blast
qed (simp add: emits_intros)

lemma quiet_Endorse:
  assumes "signer_emits ok signer"
  shows "emits ok (Endorse P signer txID t)"
proof -
  have "emits ok (io_bind (io_lift (signer_identity P signer)) (\<lambda>sid.
      io_bind (endorse_from P signer txID sid 0 nss es) (\<lambda>es'. io_return (c\<lparr>endorsements := es'\<rparr>))))"
    for nss es c
    by (intro emitting.preserves_intros quiet_endorse_from assms)
  then show ?thesis
    unfolding Endorse_def Let_def by (auto split: option.split intro: emits_intros)
qed

lemma wires_endorse:
  assumes "quiet_libs M A"
  shows "wires M cfg D (EndorseTransaction A txID t)"
proof -
  have "quiet (Endorse P (the_signer sid) txID t)" if "\<forall>s. sid = Some s \<longrightarrow> quiet_signer s" for P sid
    using that by (cases sid) (auto simp: the_signer_def signer_emits_def nil_call_def intro!: quiet_Endorse emits_intros)
  then show ?thesis
    unfolding EndorseTransaction_def
    by (intro ensures_bind [OF wired_Get_signer [OF assms]] wired_quiet)
qed

lemma ensures_prepare:
  assumes "quiet_libs M A"
  shows "ensures (wired M cfg D)
    (\<lambda>(sid, oc). (\<forall>s. sid = Some s \<longrightarrow> quiet_signer s) \<and> quiet_orderer (the_orderer oc)) prepareSubmission"
  unfolding prepareSubmission_def
  by (rule ensures_bind [OF ensures_wrap [OF wired_Get_signer [OF assms]]],
      rule ensures_bind [OF ensures_wrap [OF wired_Get_orderer]]) (simp add: ensures_pure)

lemma wires_submit:
  assumes "quiet_libs M A"
  shows "wires M cfg D (SubmitTransaction txID t)"
  unfolding SubmitTransaction_def
  by (rule ensures_bind [OF ensures_wrap [OF ensures_prepare [OF assms]]])
    (auto simp: quiet_orderer_def intro!: ensures_defer ensures_wrap wired_quiet)

lemma wires_submit_wait:
  assumes "quiet_libs M A"
  shows "wires M cfg D (SubmitTransactionWithWait txID t)"
proof -
  have "wires M cfg D (submit_and_wait sid oc nc txID t)"
    if "\<forall>s. sid = Some s \<longrightarrow> quiet_signer s" "quiet_orderer oc" "quiet_notification nc" for sid oc nc
    using that unfolding submit_and_wait_def quiet_orderer_def quiet_notification_def
    by (intro wires_bind ensures_wrap wired_quiet) blast+
  then show ?thesis
    unfolding SubmitTransactionWithWait_def
    by (intro ensures_bind [OF ensures_wrap [OF ensures_prepare [OF assms]]] ensures_prod ensures_defer
        ensures_bind [OF ensures_wrap [OF wired_Get_notification]])
      (auto simp: quiet_orderer_def quiet_notification_def intro: wired_quiet)
qed

lemma wires_list: "wires M cfg D ListNamespaces"
  unfolding ListNamespaces_def
  by (rule ensures_bind [OF wired_Get_query])
    (auto simp: quiet_query_def intro!: ensures_defer wires_bind ensures_wrap wired_quiet ensures_pure)

lemma wires_deploy:
  assumes "quiet_libs M A" "DeployNamespace A input = Some m"
  shows "wires M cfg D m"
  using assms(2)
proof (cases rule: DeployNamespace_cases)
  case (valid p)
  have "wires M cfg D (deploy_rest A input out)" for out
    unfolding deploy_rest_def Let_def
    by (intro ensures_if wires_bind ensures_pure TrueI wires_endorse [OF assms(1)]
        wires_submit [OF assms(1)] wires_submit_wait [OF assms(1)])
  then show ?thesis
    unfolding valid(3) by (intro wires_bind wires_create assms(1) ensures_pure TrueI)
qed (simp_all add: ensures_pure)

lemma wires_snd: "wires M cfg D m \<Longrightarrow> wired M cfg D s \<Longrightarrow> wired M cfg D (snd (m s))"
  by (cases "m s") (auto simp: ensures_def)

lemma wired_step:
  assumes "quiet_libs M A" "wired M cfg D s"
  shows "wired M cfg D (app_step A call s)"
proof (cases call)
  case (Call_Deploy input)
  then show ?thesis
    using assms(2) wires_snd [OF wires_deploy [OF assms(1)] assms(2)]
    by (simp add: app_step_def split: option.split)
next
  case (Call_Merge txs)
  then show ?thesis using assms(2) by (simp add: app_step_def MergeTransactions_def)
qed (use assms in \<open>simp_all add: app_step_def wires_snd wires_endorse wires_submit wires_submit_wait wires_list\<close>)

text \<open>The endpoints of the services whose configuration validates.\<close>

definition validated_endpoints :: "('c, 'k, 'p, 'm) main_env \<Rightarrow> config \<Rightarrow> (string \<times> int) multiset" where
  "validated_endpoints M cfg =
     (let vctx = NewValidationContext (me_policy M) (me_Stat M); lp = me_load_pair M
      in (if is_ok (queries_Validate lp (cfg_Queries cfg) vctx) then endpoint_key (cfg_Queries cfg) else {#})
       + (if is_ok (orderer_Validate lp (cfg_Orderer cfg) vctx) then endpoint_key (cfg_Orderer cfg) else {#})
       + (if is_ok (notifications_Validate lp (cfg_Notifications cfg) vctx)
          then endpoint_key (cfg_Notifications cfg) else {#}))"

lemma spent_le: "spent p K \<subseteq># (if is_ok (provider_Validate p) then K else {#})"
  by (simp add: spent_def)

lemma wired_built: "wired M cfg (dials tr) (build_app M cfg tr)"
  by (simp add: wired_def build_app_def provider_New_def pv_ok_def Let_def spent_def)

lemma wired_bound:
  assumes "wired M cfg D s"
  shows "dials (app_trace s) \<subseteq># D + validated_endpoints M cfg"
proof -
  let ?q = "spent (QueryProvider s) (endpoint_key (cfg_Queries cfg))"
  let ?o = "spent (OrdererProvider s) (endpoint_key (cfg_Orderer cfg))"
  let ?n = "spent (NotificationProvider s) (endpoint_key (cfg_Notifications cfg))"
  have "?q + ?o + ?n \<subseteq># validated_endpoints M cfg"
    using assms spent_le [of "QueryProvider s"] spent_le [of "OrdererProvider s"]
      spent_le [of "NotificationProvider s"]
    unfolding validated_endpoints_def Let_def wired_def pv_ok_def provider_Validate_def
    by (intro subset_mset.add_mono) (simp_all del: is_ok.simps)
  moreover have "dials (app_trace s) \<subseteq># D + (?q + ?o + ?n)"
    using assms by (simp add: wired_def Let_def add.assoc)
  ultimately show ?thesis by (meson subset_mset.add_left_mono subset_mset.order_trans)
qed

section \<open>Properties\<close>

text \<open>
  C22: in a process that builds the application once and then runs any operations in any order, each
  service is dialled at most once, whatever fails; only a service whose configuration validates is
  dialled, at its configured address and with its configured timeout, and nothing else is.
\<close>

theorem services_dialled_once:
  assumes "quiet_libs M A"
  shows "dials (app_trace (fold (app_step A) calls (build_app M cfg tr)))
    \<subseteq># dials tr + validated_endpoints M cfg"
proof -
  have "wired M cfg D (fold (app_step A) calls s)" if "wired M cfg D s" for D s
    using that by (induction calls arbitrary: s) (simp_all add: wired_step [OF assms])
  then show ?thesis using wired_bound wired_built by blast
qed

text \<open>A configuration whose notification service has no address.\<close>

definition sample_main :: "(unit, unit, unit, unit) main_env" where
  "sample_main = \<lparr>me_env = sample_env, me_protoutil = sample_protoutil, me_broadcast = sample_broadcast,
     me_Subscribe = (\<lambda>c txID tr. Ok 0), me_WaitForEvent = (\<lambda>c ch tr. Ok 7),
     me_msp = \<lparr>ma_GetLocalMspConfig = (\<lambda>_ _. io_return ()), ma_NewFileBasedKeyStore = (\<lambda>_ _ _. io_return ()),
       ma_NewDefaultSecurityLevelWithKeystore = (\<lambda>_. io_return ()), ma_MSPv1_0 = 0,
       ma_New = (\<lambda>_ _. io_return ()), ma_Setup = (\<lambda>_ _. io_return ()),
       ma_GetDefaultSigningIdentity = (\<lambda>_. io_return sample_signer_tr)\<rparr>,
     me_policy = sample_policy_api, me_Stat = (\<lambda>p. Stat_Info (p = ''d'')), me_load_pair = (\<lambda>_ _. Ok ())\<rparr>"

definition sample_config :: config where
  "sample_config =
     \<lparr>cfg_Logging = \<lparr>log_Level = [], log_Format = []\<rparr>, cfg_MSP = \<lparr>LocalMspID = ''org'', ConfigPath = ''d''\<rparr>,
      cfg_TLS = empty_tls,
      cfg_Orderer = \<lparr>Address = ''h:2'', ConnectionTimeout = 5, ep_TLS = None, Channel = ''c''\<rparr>,
      cfg_Queries = \<lparr>Address = ''h:1'', ConnectionTimeout = 5, ep_TLS = None\<rparr>,
      cfg_Notifications = \<lparr>Address = [], ConnectionTimeout = 5, ep_TLS = None, WaitingTimeout = 5\<rparr>\<rparr>"

definition sample_calls :: "app_call list" where
  "sample_calls = [Call_List, Call_List]"

lemma sample_libs:
  assumes "\<And>b. ok (Ev_Sign b)" "\<And>n. ok (Ev_ReadRandom n)"
  shows "libs_emit ok sample_main sample_app_env"
proof -
  have "emitting.lib_preserves ok (me_msp sample_main)"
    by (simp add: emitting.lib_preserves_def sample_main_def emits_intros)
  moreover have "signer_emits ok sample_signer_tr"
    using assms by (simp add: signer_emits_def sample_signer_tr_def emits_intros)
  ultimately show ?thesis
    using assms(2) by (auto simp: libs_emit_def sample_main_def sample_app_env_def emitted_def)
qed

lemma sample_quiet: "quiet_libs sample_main sample_app_env"
  by (simp add: sample_libs)

lemma plain_validates:
  assumes "cfg_Queries cfg = \<lparr>Address = ''h:1'', ConnectionTimeout = 5, ep_TLS = t\<rparr>" "\<not> tls_IsEnabled t"
  shows "queries_Validate lp (cfg_Queries cfg) vctx = Ok ()"
proof -
  have "validateEndpoint ''h:1'' = Ok ()" by code_simp
  then show ?thesis
    using assms by (cases t) (simp_all add: queries_Validate_def endpoint_Validate_def errorIfZeroDuration_def tls_Validate_def)
qed

lemma plain_listing:
  assumes "cfg_Queries cfg = \<lparr>Address = ''h:1'', ConnectionTimeout = 5, ep_TLS = t\<rparr>" "\<not> tls_IsEnabled t"
  shows "\<exists>s. ListNamespaces (build_app sample_main cfg []) = (Ok [], s)
     \<and> app_trace s = [Ev_Dial ''h:1'' zero_secure_options 5, Ev_GetNamespacePolicies 0 5, Ev_ConnClose 0]
     \<and> app_trace (snd (ListNamespaces s)) = app_trace s @ [Ev_GetNamespacePolicies 0 5, Ev_ConnClose 0]
     \<and> fst (ListNamespaces s) = Ok []"
  using plain_validates [OF assms] assms
  by (simp add: ListNamespaces_def QueryProvider_Get_def build_app_def Let_def provider_Get_def provider_New_def
      provider_Validate_def provider_cached_def query_factory_def NewQueryClient_def newClientConn_def
      createSecOpts_def sample_main_def sample_env_def io_wrap_def io_defer_def io_bind_def
      on_trace_def the_query_def query_adapter_def query_GetNamespacePolicies_def query_Close_def
      zero_secure_options_def)

lemma sample_listing:
  "\<exists>s. ListNamespaces (build_app sample_main sample_config []) = (Ok [], s)
     \<and> app_trace s = [Ev_Dial ''h:1'' zero_secure_options 5, Ev_GetNamespacePolicies 0 5, Ev_ConnClose 0]
     \<and> app_trace (snd (ListNamespaces s)) = app_trace s @ [Ev_GetNamespacePolicies 0 5, Ev_ConnClose 0]
     \<and> fst (ListNamespaces s) = Ok []"
  by (rule plain_listing [where t = None]) (simp_all add: sample_config_def tls_IsEnabled_def)

theorem services_dialled_once_witness:
  "dials (app_trace (fold (app_step sample_app_env) sample_calls (build_app sample_main sample_config [])))
     = {#(''h:1'', 5)#}
   \<and> {#(''h:1'', 5)#} \<subseteq># validated_endpoints sample_main sample_config"
proof -
  have "dials (app_trace (fold (app_step sample_app_env) sample_calls (build_app sample_main sample_config [])))
      = {#(''h:1'', 5)#}"
    using sample_listing by (auto simp: dials_def sample_calls_def app_step_def)
  then show ?thesis
    using services_dialled_once [OF sample_quiet, of sample_calls sample_config "[]"] by (simp add: dials_def)
qed

text \<open>
  C23: an operation closes the client it used, and the provider keeps it: a second listing in the same
  process is made over the connection that the first one has closed.
\<close>

theorem second_listing_on_closed_connection:
  assumes "ListNamespaces (build_app M cfg tr) = (Ok r, s)" "ListNamespaces s = (r', s')"
  shows "\<exists>c evs. app_trace s = evs @ [Ev_GetNamespacePolicies c (ConnectionTimeout (cfg_Queries cfg)), Ev_ConnClose c]
    \<and> app_trace s' = app_trace s
        @ [Ev_GetNamespacePolicies c (ConnectionTimeout (cfg_Queries cfg)), Ev_ConnClose c]"
proof -
  let ?cfg = "cfg_Queries cfg"
  obtain qc s1 where get: "QueryProvider_Get (build_app M cfg tr) = (Ok qc, s1)"
    using assms(1) by (auto simp: ListNamespaces_def io_bind_Ok_iff)
  obtain p tr1 where g: "provider_Get (QueryProvider (build_app M cfg tr)) tr = (Ok qc, p, tr1)"
    and s1: "s1 = (build_app M cfg tr)\<lparr>QueryProvider := p, app_trace := tr1\<rparr>"
    using get by (auto simp: QueryProvider_Get_def build_app_def Let_def split: prod.splits)
  have "\<exists>c. query_factory M ?cfg tr = (Ok c, tr1) \<and> qc = Some c"
    using g by (auto simp: build_app_def Let_def provider_Get_def provider_New_def provider_Validate_def
        provider_cached_def split: result.splits prod.splits option.splits)
  then obtain conn where qc: "the_query qc = query_adapter (me_env M)
      \<lparr>qi_cfg = ?cfg, qi_client = Some conn, qi_closeF = Some conn\<rparr>"
    by (auto simp: query_factory_def NewQueryClient_def io_bind_Ok_iff the_query_def)
  have again: "QueryProvider_Get (s1\<lparr>app_trace := t\<rparr>) = (Ok qc, s1\<lparr>app_trace := t\<rparr>)" for t
    using provider.get_ready [OF provider.ready_after [OF g]] provider.cached_after [OF g] s1
    by (simp add: QueryProvider_Get_def)
  let ?evs = "[Ev_GetNamespacePolicies conn (ConnectionTimeout ?cfg), Ev_ConnClose conn]"
  have list: "app_trace v = app_trace u @ ?evs \<and> v = u\<lparr>app_trace := app_trace v\<rparr>"
    if "QueryProvider_Get w = (Ok qc, u)" "ListNamespaces w = (q, v)" for w u v q
    using that qc
    by (auto simp: ListNamespaces_def query_adapter_def query_GetNamespacePolicies_def query_Close_def
        io_bind_def io_defer_def io_wrap_def on_trace_def split: prod.splits result.splits)
  have s: "app_trace s = app_trace s1 @ ?evs" "s = s1\<lparr>app_trace := app_trace s\<rparr>"
    using list [OF get assms(1)] by blast+
  have "QueryProvider_Get s = (Ok qc, s)" using again [of "app_trace s"] s(2) by simp
  from list [OF this assms(2)] show ?thesis using s(1) by blast
qed

theorem second_listing_on_closed_connection_witness:
  "\<exists>s s'. ListNamespaces (build_app sample_main sample_config []) = (Ok [], s) \<and> ListNamespaces s = (Ok [], s')
     \<and> (\<exists>c. Ev_ConnClose c \<in> set (app_trace s) \<and> app_trace s' = app_trace s @ [Ev_GetNamespacePolicies c 5, Ev_ConnClose c])"
proof -
  obtain s where s: "ListNamespaces (build_app sample_main sample_config []) = (Ok [], s)"
    "fst (ListNamespaces s) = Ok []"
    using sample_listing by blast
  obtain s' where s': "ListNamespaces s = (Ok [], s')" using s(2) by (cases "ListNamespaces s") auto
  obtain c evs where "app_trace s = evs @ [Ev_GetNamespacePolicies c (ConnectionTimeout (cfg_Queries sample_config)), Ev_ConnClose c]"
    "app_trace s' = app_trace s @ [Ev_GetNamespacePolicies c (ConnectionTimeout (cfg_Queries sample_config)), Ev_ConnClose c]"
    using second_listing_on_closed_connection [OF s(1) s'] by blast
  then show ?thesis using s(1) s' by (auto simp: sample_config_def)
qed

end
