(* ===== verification/Cli_Info.thy ===== *)
theory Cli_Info
  imports Cli_Props
begin

text \<open>
  \<open>tools/fxconfig/internal/cli/v1/info.go\<close> and \<open>version.go\<close>: the display of the effective
  configuration. \<open>toEnv\<close> goes through the generic value that the YAML library makes of the
  configuration; a map of that value is a list of entries in the order in which the range statement
  happens to visit them, which is unspecified.
\<close>

datatype yaml =
    Y_Map "(string \<times> yaml) list"
  | Y_List "yaml list"
  | Y_Scalar string

text \<open>The \<open>%v\<close> format: lists in brackets, maps with their keys sorted.\<close>

fun fmt_v :: "yaml \<Rightarrow> string" where
  "fmt_v (Y_Scalar s) = s"
| "fmt_v (Y_List xs) = ''['' @ strings_Join (map fmt_v xs) '' '' @ '']''"
| "fmt_v (Y_Map es) = ''map['' @
     strings_Join (map (\<lambda>(k, s). k @ '':'' @ s) (sort_key fst (map (\<lambda>e. (fst e, fmt_v (snd e))) es))) '' '' @ '']''"

text \<open>
  \<open>strings.ReplaceAll(k, "-", "_")\<close> and \<open>strings.ToUpper\<close> on the keys of the configuration, which
  are the ASCII tags of its struct fields.
\<close>

definition upper_char :: "char \<Rightarrow> char" where
  "upper_char c = (if CHR ''a'' \<le> c \<and> c \<le> CHR ''z'' then char_of (of_char c - 32 :: nat) else c)"

definition env_key :: "string \<Rightarrow> string \<Rightarrow> string" where
  "env_key prefix k =
     (let key = map (\<lambda>c. upper_char (if c = CHR ''-'' then CHR ''_'' else c)) k
      in if prefix \<noteq> [] then prefix @ ''_'' @ key else key)"

text \<open>\<open>flatten\<close>: one line per leaf.\<close>

fun flatten_value :: "string \<Rightarrow> yaml \<Rightarrow> string list" where
  "flatten_value key (Y_Map es) = concat (map (\<lambda>e. flatten_value (env_key key (fst e)) (snd e)) es)"
| "flatten_value key (Y_List xs) = [key @ ''='' @ strings_Join (map fmt_v xs) '','']"
| "flatten_value key (Y_Scalar s) = [key @ ''='' @ s]"

definition flatten :: "string \<Rightarrow> (string \<times> yaml) list \<Rightarrow> string list" where
  "flatten prefix m = concat (map (\<lambda>(k, v). flatten_value (env_key prefix k) v) m)"

text \<open>
  The YAML library is a parameter: the text of the configuration, and the entries its map has when
  the text is read back.
\<close>

record 'c yaml_api =
  ya_Marshal :: "'c \<Rightarrow> bytes result"
  ya_Unmarshal :: "bytes \<Rightarrow> (string \<times> yaml) list result"

definition toEnv :: "'c yaml_api \<Rightarrow> string \<Rightarrow> 'c \<Rightarrow> string list result" where
  "toEnv Y prefix cfg =
     res_bind (ya_Marshal Y cfg) (\<lambda>out. res_map (flatten prefix) (ya_Unmarshal Y out))"

definition info_RunE ::
    "'j cli_context \<Rightarrow> 'c yaml_api \<Rightarrow> 'c \<Rightarrow> string \<Rightarrow> (unit, cli) io" where
  "info_RunE ctx Y cfg fmt =
     (if fmt = ''env'' then
        io_bind (io_lift (toEnv Y ''FXCONFIG'' cfg)) (\<lambda>env.
          cli_Print ctx (strings_Join (sort env) [CHR 0x0A] @ [CHR 0x0A]))
      else if fmt = ''yaml'' then
        io_bind (io_lift (ya_Marshal Y cfg)) (\<lambda>out. cli_Print ctx out)
      else io_fail (Error_New (''invalid --format: '' @ fmt @ '' (want yaml|env)'')))"

text \<open>The version command: \<open>%-16s\<close> pads with spaces on the right.\<close>

definition pad16 :: "string \<Rightarrow> string" where
  "pad16 s = s @ replicate (16 - length s) (CHR '' '')"

definition version_line :: "string \<Rightarrow> string \<Rightarrow> string" where
  "version_line label v = '' '' @ pad16 label @ '' '' @ v @ [CHR 0x0A]"

definition version_Run ::
    "print_api \<Rightarrow> string \<Rightarrow> string \<Rightarrow> string \<Rightarrow> string \<Rightarrow> string \<Rightarrow> (unit, streams) io" where
  "version_Run A version goVersion commit goos goarch =
     (let osArch = goos @ ''/'' @ goarch; p = Print (NewCLIPrinter A FormatTable)
      in io_bind (p (''fxconfig'' @ [CHR 0x0A])) (\<lambda>_.
         io_bind (p (version_line ''Version:'' version)) (\<lambda>_.
         io_bind (p (version_line ''Go Version:'' goVersion)) (\<lambda>_.
         io_bind (p (version_line ''Commit:'' commit)) (\<lambda>_.
           p (version_line ''OS/Arch:'' osArch))))))"

section \<open>The order of maps does not matter\<close>

text \<open>Two generic values that differ only in the order in which their maps are visited.\<close>

inductive same_value :: "yaml \<Rightarrow> yaml \<Rightarrow> bool"
  and same_entries :: "(string \<times> yaml) list \<Rightarrow> (string \<times> yaml) list \<Rightarrow> bool" where
  same_refl: "same_value v v"
| same_map: "same_entries es es' \<Longrightarrow> same_value (Y_Map es) (Y_Map es')"
| entries_Nil: "same_entries [] []"
| entries_Cons: "same_value v v' \<Longrightarrow> same_entries es es' \<Longrightarrow> same_entries ((k, v) # es) ((k, v') # es')"
| entries_perm: "mset es = mset es' \<Longrightarrow> same_entries es es'"
| entries_trans: "same_entries es es' \<Longrightarrow> same_entries es' es'' \<Longrightarrow> same_entries es es''"

lemma flatten_value_mset:
  "same_value v v' \<Longrightarrow> mset (flatten_value key v) = mset (flatten_value key v')"
  "same_entries es es' \<Longrightarrow> mset (flatten key es) = mset (flatten key es')"
proof (induction arbitrary: key and key rule: same_value_same_entries.inducts)
  case (same_map es es')
  have "flatten_value key (Y_Map l) = flatten key l" for l
    by (simp add: flatten_def case_prod_unfold)
  then show ?case using same_map by simp
next
  case (entries_perm es es')
  then show ?case by (simp add: flatten_def mset_concat_map)
qed (simp_all add: flatten_def)

section \<open>Properties\<close>

text \<open>
  What \<open>info --format env\<close> prints does not depend on the order in which the maps of the
  configuration are visited: for configurations that differ only in that order the command has the
  same result and leaves the same streams.
\<close>

theorem info_env_deterministic:
  assumes "ya_Marshal Y cfg = Ok d" "ya_Unmarshal Y d = Ok m"
    and "ya_Marshal Y' cfg' = Ok d'" "ya_Unmarshal Y' d' = Ok m'" "same_entries m m'"
  shows "info_RunE ctx Y cfg ''env'' = info_RunE ctx Y' cfg' ''env''"
proof -
  have "mset (flatten ''FXCONFIG'' m) = mset (flatten ''FXCONFIG'' m')"
    by (rule flatten_value_mset(2) [OF assms(5)])
  then have s: "sort (flatten ''FXCONFIG'' m) = sort (flatten ''FXCONFIG'' m')"
    by (intro properties_for_sort) simp_all
  have "toEnv Y ''FXCONFIG'' cfg = Ok (flatten ''FXCONFIG'' m)"
    "toEnv Y' ''FXCONFIG'' cfg' = Ok (flatten ''FXCONFIG'' m')"
    using assms(1-4) by (simp_all add: toEnv_def)
  then show ?thesis by (simp only: info_RunE_def simp_thms if_True io_bind_lift_Ok s)
qed

theorem info_env_deterministic_witness:
  "info_RunE sample_ctx \<lparr>ya_Marshal = Ok, ya_Unmarshal = (\<lambda>b. Ok [(''a'', Y_Scalar b), (''b-c'', Y_Map [])])\<rparr> ''x'' ''env''
   = info_RunE sample_ctx \<lparr>ya_Marshal = Ok, ya_Unmarshal = (\<lambda>b. Ok [(''b-c'', Y_Map []), (''a'', Y_Scalar b)])\<rparr> ''x'' ''env''"
proof (rule info_env_deterministic)
  show "same_entries [(''a'', Y_Scalar ''x''), (''b-c'', Y_Map [])] [(''b-c'', Y_Map []), (''a'', Y_Scalar ''x'')]"
    by (rule entries_perm) (simp add: add_mset_commute)
qed simp_all

end
