(* ===== verification/Command_Tree.thy ===== *)
theory Command_Tree
  imports Prelude
begin

text \<open>
  Trees of commands as \<open>cobra\<close> has them, and the flags that \<open>tools/fxconfig/internal/cli/v1/flags.go\<close>
  and \<open>cliio/io.go\<close> bind. A \<open>*cobra.Command\<close> is a record of the fields the sources set, with its
  flags and its subcommands; \<open>'r\<close> is what its \<open>RunE\<close> is, \<open>'h\<close> what the hook \<open>PersistentPreRunE\<close> is.
\<close>

section \<open>Flags\<close>

datatype flag_value = Flag_String string | Flag_Int int | Flag_Bool bool

record cobra_flag =
  cf_name :: string
  cf_default :: flag_value
  cf_usage :: string
  cf_required :: bool

text \<open>The variables that the flags are bound to, after parsing.\<close>

type_synonym flag_values = "string \<Rightarrow> flag_value"

fun flag_string :: "flag_value \<Rightarrow> string" where
  "flag_string (Flag_String s) = s"
| "flag_string _ = []"

fun flag_int :: "flag_value \<Rightarrow> int" where
  "flag_int (Flag_Int i) = i"
| "flag_int _ = 0"

fun flag_bool :: "flag_value \<Rightarrow> bool" where
  "flag_bool (Flag_Bool b) = b"
| "flag_bool _ = False"

fun same_kind :: "flag_value \<Rightarrow> flag_value \<Rightarrow> bool" where
  "same_kind (Flag_String _) (Flag_String _) = True"
| "same_kind (Flag_Int _) (Flag_Int _) = True"
| "same_kind (Flag_Bool _) (Flag_Bool _) = True"
| "same_kind _ _ = False"

section \<open>Commands\<close>

text \<open>The \<open>Args\<close> field: \<open>cobra.ExactArgs\<close> and \<open>cobra.MinimumNArgs\<close>.\<close>

datatype args_rule = ExactArgs nat | MinimumNArgs nat

fun args_accepted :: "args_rule \<Rightarrow> string list \<Rightarrow> bool" where
  "args_accepted (ExactArgs n) args \<longleftrightarrow> length args = n"
| "args_accepted (MinimumNArgs n) args \<longleftrightarrow> n \<le> length args"

record ('r, 'h) command_fields =
  cmd_Use :: string
  cmd_Short :: string
  cmd_Long :: string
  cmd_Args :: "args_rule option"
  cmd_RunE :: "'r option"
  cmd_PersistentPreRunE :: "'h option"

datatype ('r, 'h) command =
  Command (cmd_fields: "('r, 'h) command_fields") (cmd_Flags: "cobra_flag list")
    (cmd_PersistentFlags: "cobra_flag list") (cmd_Commands: "('r, 'h) command list")

definition cobra_Command :: "('r, 'h) command_fields \<Rightarrow> ('r, 'h) command" where
  "cobra_Command i = Command i [] [] []"

text \<open>A command that only groups others, and one that runs something.\<close>

definition group_fields :: "string \<Rightarrow> string \<Rightarrow> string \<Rightarrow> ('r, 'h) command_fields" where
  "group_fields use short long = \<lparr>cmd_Use = use, cmd_Short = short, cmd_Long = long, cmd_Args = None,
     cmd_RunE = None, cmd_PersistentPreRunE = None\<rparr>"

definition runs :: "string \<Rightarrow> string \<Rightarrow> string \<Rightarrow> args_rule option \<Rightarrow> 'r \<Rightarrow> ('r, 'h) command_fields" where
  "runs use short long args r = (group_fields use short long)\<lparr>cmd_Args := args, cmd_RunE := Some r\<rparr>"

definition flag_var :: "string \<Rightarrow> flag_value \<Rightarrow> string \<Rightarrow> cobra_flag" where
  "flag_var name d usage = \<lparr>cf_name = name, cf_default = d, cf_usage = usage, cf_required = False\<rparr>"

fun FlagVar :: "string \<Rightarrow> flag_value \<Rightarrow> string \<Rightarrow> ('r, 'h) command \<Rightarrow> ('r, 'h) command" where
  "FlagVar name d usage (Command i fs ps cs) = Command i (fs @ [flag_var name d usage]) ps cs"

fun MarkFlagRequired :: "string \<Rightarrow> ('r, 'h) command \<Rightarrow> ('r, 'h) command" where
  "MarkFlagRequired name (Command i fs ps cs) =
     Command i (map (\<lambda>f. if cf_name f = name then f\<lparr>cf_required := True\<rparr> else f) fs) ps cs"

fun PersistentFlagVar :: "string \<Rightarrow> flag_value \<Rightarrow> string \<Rightarrow> ('r, 'h) command \<Rightarrow> ('r, 'h) command" where
  "PersistentFlagVar name d usage (Command i fs ps cs) = Command i fs (ps @ [flag_var name d usage]) cs"

fun AddCommand :: "('r, 'h) command list \<Rightarrow> ('r, 'h) command \<Rightarrow> ('r, 'h) command" where
  "AddCommand subs (Command i fs ps cs) = Command i fs ps (cs @ subs)"

section \<open>The flags of the sources\<close>

definition outputFlag_bind :: "('r, 'h) command \<Rightarrow> ('r, 'h) command" where
  "outputFlag_bind cmd =
     FlagVar ''output'' (Flag_String []) ''Output file path (if not specified, writes to stdout)'' cmd"

definition policyFlag_bind :: "('r, 'h) command \<Rightarrow> ('r, 'h) command" where
  "policyFlag_bind cmd =
     MarkFlagRequired ''policy'' (FlagVar ''policy'' (Flag_String [])
       ''Endorsement policy (e.g., \"OR('Org1MSP.member')\" or \"AND('Org1MSP.member', 'Org2MSP.member')\")'' cmd)"

definition versionFlag_bind :: "('r, 'h) command \<Rightarrow> ('r, 'h) command" where
  "versionFlag_bind cmd =
     MarkFlagRequired ''version'' (FlagVar ''version'' (Flag_Int 0)
       ''Current namespace version (required for updates to prevent conflicts)'' cmd)"

definition namespaceDeployFlags_bind :: "('r, 'h) command \<Rightarrow> ('r, 'h) command" where
  "namespaceDeployFlags_bind cmd =
     (let cmd = FlagVar ''endorse'' (Flag_Bool False) ''Endorse transaction with local MSP before saving/submitting'' cmd;
          cmd = FlagVar ''submit'' (Flag_Bool False) ''Submit transaction to ordering service (requires --endorse)'' cmd
      in FlagVar ''wait'' (Flag_Bool False) ''Wait for transaction finalization (implies --submit)'' cmd)"

definition waitFlag_bind :: "('r, 'h) command \<Rightarrow> ('r, 'h) command" where
  "waitFlag_bind cmd =
     FlagVar ''wait'' (Flag_Bool False) ''Wait for transaction to be finalized and return status code'' cmd"

text \<open>The pair of flags of \<open>cliio\<close>, which no command binds.\<close>

definition IOFlags_Bind :: "('r, 'h) command \<Rightarrow> ('r, 'h) command" where
  "IOFlags_Bind cmd =
     FlagVar ''output'' (Flag_String []) ''Output file (optional, defaults to stdout)''
       (FlagVar ''input'' (Flag_String []) ''Input file (optional, defaults to stdin)'' cmd)"

text \<open>Binding flags leaves the other fields of a command alone.\<close>

lemma cmd_fields_bind [simp]:
  "cmd_fields (FlagVar name d usage cmd) = cmd_fields cmd" "cmd_fields (MarkFlagRequired name cmd) = cmd_fields cmd"
  "cmd_fields (PersistentFlagVar name d usage cmd) = cmd_fields cmd" "cmd_fields (AddCommand subs cmd) = cmd_fields cmd"
  "cmd_fields (cobra_Command i) = i"
  by (cases cmd; simp add: cobra_Command_def)+

lemma cmd_fields_flags [simp]:
  "cmd_fields (outputFlag_bind cmd) = cmd_fields cmd" "cmd_fields (policyFlag_bind cmd) = cmd_fields cmd"
  "cmd_fields (versionFlag_bind cmd) = cmd_fields cmd" "cmd_fields (waitFlag_bind cmd) = cmd_fields cmd"
  "cmd_fields (namespaceDeployFlags_bind cmd) = cmd_fields cmd" "cmd_fields (IOFlags_Bind cmd) = cmd_fields cmd"
  by (simp_all add: outputFlag_bind_def policyFlag_bind_def versionFlag_bind_def waitFlag_bind_def
      namespaceDeployFlags_bind_def IOFlags_Bind_def)

lemma runs_fields [simp]: "cmd_RunE (runs use short long args r) = Some r" "cmd_Args (runs use short long args r) = args"
  "cmd_PersistentPreRunE (runs use short long args r) = None"
  by (simp_all add: runs_def group_fields_def)

section \<open>Finding a command\<close>

text \<open>
  The name of a command is the first word of its use line. The words of a command line that are not
  flags lead from the root down as long as they name a subcommand: the chain of the commands on the way,
  and the words that are left, the arguments.
\<close>

definition cmd_Name :: "('r, 'h) command \<Rightarrow> string" where
  "cmd_Name cmd = takeWhile (\<lambda>c. c \<noteq> CHR '' '') (cmd_Use (cmd_fields cmd))"

primrec find_chain :: "string list \<Rightarrow> ('r, 'h) command \<Rightarrow> ('r, 'h) command list \<times> string list" where
  "find_chain [] cmd = ([cmd], [])"
| "find_chain (w # ws) cmd =
     (case find (\<lambda>c. cmd_Name c = w) (cmd_Commands cmd) of
        None \<Rightarrow> ([cmd], w # ws)
      | Some c \<Rightarrow> (case find_chain ws c of (chain, args) \<Rightarrow> (cmd # chain, args)))"

text \<open>The flags the last command of a chain sees, and the hook it inherits.\<close>

definition chain_flags :: "('r, 'h) command list \<Rightarrow> cobra_flag list" where
  "chain_flags chain = cmd_Flags (last chain) @ concat (map cmd_PersistentFlags chain)"

definition chain_hook :: "('r, 'h) command list \<Rightarrow> 'h option" where
  "chain_hook chain =
     (case List.map_filter (\<lambda>c. cmd_PersistentPreRunE (cmd_fields c)) (rev chain) of [] \<Rightarrow> None | h # _ \<Rightarrow> Some h)"

fun subtree :: "('r, 'h) command \<Rightarrow> ('r, 'h) command list" where
  "subtree (Command i fs ps cs) = Command i fs ps cs # concat (map subtree cs)"

lemma subtree_self: "c \<in> set (subtree c)"
  by (cases c) simp

lemma subtree_sub: "c \<in> set (cmd_Commands cmd) \<Longrightarrow> d \<in> set (subtree c) \<Longrightarrow> d \<in> set (subtree cmd)"
  by (cases cmd) auto

lemma find_chain_subtree: "find_chain ws cmd = (chain, args) \<Longrightarrow> chain \<noteq> [] \<and> last chain \<in> set (subtree cmd)"
proof (induction ws arbitrary: cmd chain)
  case (Cons w ws)
  show ?case
  proof (cases "find (\<lambda>c. cmd_Name c = w) (cmd_Commands cmd)")
    case None
    then show ?thesis using Cons.prems subtree_self by auto
  next
    case (Some c)
    then obtain ch where ch: "find_chain ws c = (ch, args)" "chain = cmd # ch"
      using Cons.prems by (auto split: prod.splits)
    have "c \<in> set (cmd_Commands cmd)" using Some by (auto simp: find_Some_iff)
    then show ?thesis using Cons.IH [OF ch(1)] subtree_sub ch(2) by auto
  qed
qed (simp add: subtree_self)

section \<open>Parsing flags\<close>

text \<open>
  What \<open>cobra\<close> makes of the flags given on the command line: each has to be one the command sees, with
  a value of its kind; the last value given counts, else the default.
\<close>

definition flags_known :: "cobra_flag list \<Rightarrow> (string \<times> flag_value) list \<Rightarrow> bool" where
  "flags_known fs given = list_all (\<lambda>(n, v). \<exists>f \<in> set fs. cf_name f = n \<and> same_kind (cf_default f) v) given"

definition flags_complete :: "cobra_flag list \<Rightarrow> (string \<times> flag_value) list \<Rightarrow> bool" where
  "flags_complete fs given = list_all (\<lambda>f. cf_required f \<longrightarrow> cf_name f \<in> fst ` set given) fs"

definition flag_lookup :: "cobra_flag list \<Rightarrow> (string \<times> flag_value) list \<Rightarrow> flag_values" where
  "flag_lookup fs given n =
     (case map_of (rev given) n of
        Some v \<Rightarrow> v
      | None \<Rightarrow> (case find (\<lambda>f. cf_name f = n) fs of Some f \<Rightarrow> cf_default f | None \<Rightarrow> Flag_String []))"

text \<open>A flag of the command has a value of its kind, whatever was given.\<close>

lemma flag_lookup_kind:
  assumes "distinct (map cf_name fs)" "f \<in> set fs" "flags_known fs given"
  shows "same_kind (cf_default f) (flag_lookup fs given (cf_name f))"
proof (cases "map_of (rev given) (cf_name f)")
  case None
  have "find (\<lambda>g. cf_name g = cf_name f) fs = Some f"
    using assms(1,2) by (induction fs) (auto simp: image_iff)
  then show ?thesis using None by (cases "cf_default f") (simp_all add: flag_lookup_def)
next
  case (Some v)
  then have "(cf_name f, v) \<in> set given" by (auto dest: map_of_SomeD)
  then obtain g where "g \<in> set fs" "cf_name g = cf_name f" "same_kind (cf_default g) v"
    using assms(3) by (auto simp: flags_known_def list_all_iff)
  moreover from this have "g = f" using assms(1,2) by (auto simp: distinct_map inj_on_def)
  ultimately show ?thesis using Some by (simp add: flag_lookup_def)
qed

section \<open>Resolving an invocation\<close>

text \<open>
  An invocation is the words and the flags of a command line. \<open>cobra\<close> refuses one whose first word is
  no command, that has flags the command does not know, or whose arguments break the command's rule; it prints
  the help of a command that runs nothing; else it runs the hook and, if the required flags are given, the command.
\<close>

record invocation =
  inv_words :: "string list"
  inv_flags :: "(string \<times> flag_value) list"

datatype ('r, 'h) resolved = Refused | Help | Run 'r "'h option" "string list" flag_values bool

definition resolve :: "('r, 'h) command \<Rightarrow> invocation \<Rightarrow> ('r, 'h) resolved" where
  "resolve root call =
     (case find_chain (inv_words call) root of (chain, args) \<Rightarrow>
        (let cmd = cmd_fields (last chain); flags = chain_flags chain
         in if length chain = 1 \<and> args \<noteq> [] \<or> \<not> flags_known flags (inv_flags call) then Refused
            else case cmd_RunE cmd of
              None \<Rightarrow> Help
            | Some r \<Rightarrow>
                if case cmd_Args cmd of None \<Rightarrow> False | Some rule \<Rightarrow> \<not> args_accepted rule args then Refused
                else Run r (chain_hook chain) args (flag_lookup flags (inv_flags call))
                  (flags_complete flags (inv_flags call))))"

text \<open>A command that runs is one of the tree, and where only the root has a hook, that hook comes first.\<close>

lemma find_chain_rest:
  "find_chain ws cmd = (chain, args) \<Longrightarrow>
    \<exists>rest. chain = cmd # rest \<and> set rest \<subseteq> set (concat (map subtree (cmd_Commands cmd)))"
proof (induction ws arbitrary: cmd chain)
  case (Cons w ws)
  show ?case
  proof (cases "find (\<lambda>c. cmd_Name c = w) (cmd_Commands cmd)")
    case (Some c)
    then obtain ch where ch: "find_chain ws c = (ch, args)" "chain = cmd # ch"
      using Cons.prems by (auto split: prod.splits)
    obtain rest where rest: "ch = c # rest" "set rest \<subseteq> set (concat (map subtree (cmd_Commands c)))"
      using Cons.IH [OF ch(1)] by blast
    have "c \<in> set (cmd_Commands cmd)" using Some by (auto simp: find_Some_iff)
    moreover have "set ch \<subseteq> set (subtree c)" using rest by (cases c) auto
    ultimately show ?thesis using ch(2) by auto
  qed (use Cons.prems in auto)
qed simp

lemma chain_hook_root:
  assumes "find_chain ws cmd = (chain, args)" "cmd_PersistentPreRunE (cmd_fields cmd) = Some h"
    and "list_all (\<lambda>c. cmd_PersistentPreRunE (cmd_fields c) = None) (concat (map subtree (cmd_Commands cmd)))"
  shows "chain_hook chain = Some h"
proof -
  obtain rest where rest: "chain = cmd # rest" "set rest \<subseteq> set (concat (map subtree (cmd_Commands cmd)))"
    using find_chain_rest [OF assms(1)] by blast
  then have "List.map_filter (\<lambda>c. cmd_PersistentPreRunE (cmd_fields c)) (rev rest) = []"
    using assms(3) unfolding map_filter_def list_all_iff by (auto simp: filter_empty_conv)
  then show ?thesis
    using rest(1) assms(2) by (simp add: chain_hook_def map_filter_def)
qed

lemma resolve_RunI:
  assumes "find_chain (inv_words call) root = (chain, args)" "length chain \<noteq> 1"
    and "flags_known (chain_flags chain) (inv_flags call)" "cmd_RunE (cmd_fields (last chain)) = Some r"
    and "case cmd_Args (cmd_fields (last chain)) of None \<Rightarrow> True | Some rule \<Rightarrow> args_accepted rule args"
  shows "resolve root call = Run r (chain_hook chain) args (flag_lookup (chain_flags chain) (inv_flags call))
    (flags_complete (chain_flags chain) (inv_flags call))"
  using assms by (auto simp: resolve_def Let_def split: option.splits)

lemma resolve_runs:
  assumes "resolve root call = Run r hook args vals complete"
  shows "\<exists>c \<in> set (subtree root). cmd_RunE (cmd_fields c) = Some r"
    and "\<exists>chain. find_chain (inv_words call) root = (chain, args) \<and> hook = chain_hook chain"
proof -
  obtain chain as where ch: "find_chain (inv_words call) root = (chain, as)" by (cases "find_chain (inv_words call) root")
  then have "last chain \<in> set (subtree root)" using find_chain_subtree by blast
  then show "\<exists>c \<in> set (subtree root). cmd_RunE (cmd_fields c) = Some r"
    "\<exists>chain. find_chain (inv_words call) root = (chain, args) \<and> hook = chain_hook chain"
    using assms ch by (auto simp: resolve_def Let_def split: if_splits option.splits)
qed

end
