(* ===== verification/Command_Help.thy ===== *)
theory Command_Help
  imports Go_Strings
begin

text \<open>
  The help texts of the commands of \<open>tools/fxconfig/internal/cli/v1\<close>: the \<open>Long\<close> fields of the
  \<open>cobra.Command\<close> values, line by line.
\<close>

definition bullet :: string where "bullet = [CHR 0xE2, CHR 0x80, CHR 0xA2]"

definition unlines :: "string list \<Rightarrow> string" where
  "unlines ls = strings_Join ls [CHR 0x0A]"

definition ns_create_Long :: string where
  "ns_create_Long = unlines
     [''Create a new namespace with an endorsement policy.'',
      [],
      ''The endorsement policy defines which organizations must sign transactions'',
      ''in this namespace. Policies use MSP identifiers and logical operators.'',
      [],
      ''Policy Syntax:'',
      ''  '' @ bullet @ '' OR('Org1MSP.member')                    - Any member of Org1'',
      ''  '' @ bullet @ '' AND('Org1MSP.member', 'Org2MSP.member') - Both Org1 and Org2'',
      ''  '' @ bullet @ '' OutOf(2, 'Org1MSP.member', 'Org2MSP.member', 'Org3MSP.member') - 2 of 3 orgs'',
      [],
      ''Transaction Lifecycle Flags:'',
      ''  --endorse  Collect endorsement from local MSP'',
      ''  --submit   Submit transaction to ordering service'',
      ''  --wait     Wait for transaction finalization (implies --submit); exits'',
      ''             non-zero if the transaction is not committed'',
      [],
      ''The query service must be configured: the transaction is built against the'',
      ''current channel config version.'',
      [],
      ''Examples:'',
      ''  # Create namespace with single org policy (save to file)'',
      ''  fxconfig namespace create hello --policy=\"OR('Org1MSP.member')\" --output=tx.json'',
      [],
      ''  # Create and immediately deploy (endorse + submit + wait)'',
      ''  fxconfig namespace create hello --policy=\"OR('Org1MSP.member')\" --endorse --submit --wait'',
      [],
      ''  # Multi-org policy requiring both organizations'',
      ''  fxconfig namespace create payments '' @ [CHR 0x5C],
      ''    --policy=\"AND('Org1MSP.member', 'Org2MSP.member')\" '' @ [CHR 0x5C],
      ''    --endorse --submit'',
      [],
      ''  # Complex policy with threshold'',
      ''  fxconfig namespace create voting '' @ [CHR 0x5C],
      ''    --policy=\"OutOf(2, 'Org1MSP.member', 'Org2MSP.member', 'Org3MSP.member')\" '' @ [CHR 0x5C],
      ''    --output=tx.json'']"

definition ns_update_Long :: string where
  "ns_update_Long = unlines
     [''Update an existing namespace's endorsement policy.'',
      [],
      ''The --version flag is required to prevent concurrent modification conflicts.'',
      ''Use 'fxconfig namespace list' to find the current version number.'',
      [],
      ''Version numbers increment with each successful update. If the version you'',
      ''specify doesn't match the current version, the update will fail.'',
      [],
      ''The query service must be configured: the transaction is built against the'',
      ''current channel config version. With --wait, the command exits non-zero if'',
      ''the transaction is not committed.'',
      [],
      ''Examples:'',
      ''  # Update namespace policy (check version first with 'list')'',
      ''  fxconfig namespace update hello '' @ [CHR 0x5C],
      ''    --policy=\"OR('Org2MSP.member')\" '' @ [CHR 0x5C],
      ''    --version=0 '' @ [CHR 0x5C],
      ''    --endorse --submit --wait'',
      [],
      ''  # Change from single-org to multi-org policy'',
      ''  fxconfig namespace update hello '' @ [CHR 0x5C],
      ''    --policy=\"AND('Org1MSP.member', 'Org2MSP.member')\" '' @ [CHR 0x5C],
      ''    --version=1 '' @ [CHR 0x5C],
      ''    --output=tx.json'',
      [],
      ''  # Update and save transaction for multi-org endorsement'',
      ''  fxconfig namespace update payments '' @ [CHR 0x5C],
      ''    --policy=\"OutOf(2, 'Org1MSP.member', 'Org2MSP.member', 'Org3MSP.member')\" '' @ [CHR 0x5C],
      ''    --version=2 '' @ [CHR 0x5C],
      ''    --output=update_tx.json'']"

definition ns_list_Long :: string where
  "ns_list_Long = unlines
     [''Query and display all installed namespaces with their configurations.'',
      [],
      ''For each namespace, displays:'',
      ''  '' @ bullet @ '' Name (namespace identifier)'',
      ''  '' @ bullet @ '' Version (current version number)'',
      ''  '' @ bullet @ '' Policy (endorsement policy in hexadecimal format)'',
      [],
      ''Use this command to:'',
      ''  '' @ bullet @ '' Verify namespace deployment'',
      ''  '' @ bullet @ '' Check current version before updates'',
      ''  '' @ bullet @ '' Audit endorsement policies'',
      [],
      ''Examples:'',
      ''  # List all namespaces'',
      ''  fxconfig namespace list'',
      [],
      ''  # List with custom config'',
      ''  fxconfig namespace list --config /path/to/config.yaml'',
      [],
      ''  # List and save output to file'',
      ''  fxconfig namespace list > namespaces.txt'']"

definition ns_root_Long :: string where
  "ns_root_Long = unlines
     [''Manage namespace lifecycle operations.'',
      [],
      ''Namespaces in Fabric-X define isolated execution environments with their own'',
      ''endorsement policies. Each namespace has:'',
      ''  '' @ bullet @ '' Unique identifier (name)'',
      ''  '' @ bullet @ '' Version number (incremented on updates)'',
      ''  '' @ bullet @ '' Endorsement policy (defines which organizations must sign transactions)'']"

definition tx_merge_Long :: string where
  "tx_merge_Long = unlines
     [''Combine endorsements from multiple organizations into a single transaction.'',
      [],
      ''All input transactions must:'',
      ''  '' @ bullet @ '' Have the same transaction ID'',
      ''  '' @ bullet @ '' Contain the same transaction data'',
      ''  '' @ bullet @ '' Have endorsements from different organizations'',
      [],
      ''The merged transaction will contain all endorsement signatures, making it'',
      ''ready for submission if the endorsement policy is satisfied.'',
      [],
      ''This command is essential for multi-organization workflows where each'',
      ''organization endorses independently and endorsements must be collected'',
      ''before submission.'',
      [],
      ''Examples:'',
      ''  # Merge two endorsed transactions'',
      ''  fxconfig tx merge tx_org1.json tx_org2.json --output merged_tx.json'',
      [],
      ''  # Merge three organizations' endorsements'',
      ''  fxconfig tx merge tx_org1.json tx_org2.json tx_org3.json --output merged_tx.json'',
      [],
      ''  # Merge and output to stdout'',
      ''  fxconfig tx merge tx_org1.json tx_org2.json > merged_tx.json'']"

definition tx_endorse_Long :: string where
  "tx_endorse_Long = unlines
     [''Endorse a transaction with the local MSP's signature.'',
      [],
      ''Each organization that must approve a transaction (per the endorsement policy)'',
      ''needs to endorse it. This command adds the local organization's signature'',
      ''to the transaction.'',
      [],
      ''The transaction file must contain both the transaction ID and transaction data'',
      ''in JSON format (as generated by namespace create/update commands).'',
      [],
      ''If the input transaction is already endorsed, the new endorsement will be'',
      ''appended to the existing endorsements.'',
      [],
      ''Examples:'',
      ''  # Endorse transaction and save to new file'',
      ''  fxconfig tx endorse tx.json --output tx_org1.json'',
      [],
      ''  # Endorse and append to stdout (for piping)'',
      ''  fxconfig tx endorse tx.json > tx_org1.json'',
      [],
      ''  # Endorse with custom config'',
      ''  fxconfig tx endorse tx.json --config /path/to/org1-config.yaml --output tx_org1.json'']"

definition tx_submit_Long :: string where
  "tx_submit_Long = unlines
     [''Submit an endorsed transaction to the Fabric-X ordering service.'',
      [],
      ''The transaction must have sufficient endorsements to satisfy its endorsement'',
      ''policy. Use 'fxconfig tx merge' to combine endorsements from multiple'',
      ''organizations before submission.'',
      [],
      ''Status Codes (with --wait):'',
      ''  0 - Transaction successfully committed'',
      ''  1 - Transaction failed (see error message for details)'',
      [],
      ''Examples:'',
      ''  # Submit transaction (returns immediately)'',
      ''  fxconfig tx submit merged_tx.json'',
      [],
      ''  # Submit and wait for finalization'',
      ''  fxconfig tx submit merged_tx.json --wait'',
      [],
      ''  # Submit with custom config'',
      ''  fxconfig tx submit merged_tx.json --config /path/to/config.yaml --wait'',
      [],
      ''  # Submit and capture status'',
      ''  if fxconfig tx submit merged_tx.json --wait; then'',
      ''    echo \"Transaction committed successfully\"'',
      ''  else'',
      ''    echo \"Transaction failed\"'',
      ''  fi'']"

definition tx_root_Long :: string where
  "tx_root_Long = unlines
     [''Perform transaction operations such as endorsement, merging, and submission.'',
      [],
      ''Transaction Lifecycle:'',
      ''  1. Create - Generate transaction (e.g., namespace create/update)'',
      ''  2. Endorse - Collect signatures from required organizations'',
      ''  3. Merge - Combine endorsements from multiple organizations'',
      ''  4. Submit - Send to ordering service for finalization'',
      [],
      ''Multi-Organization Workflow:'',
      ''  1. Org1 creates transaction: fxconfig namespace create ... --output tx.json'',
      ''  2. Org1 endorses: fxconfig tx endorse tx.json --output tx_org1.json'',
      ''  3. Org2 endorses: fxconfig tx endorse tx.json --output tx_org2.json'',
      ''  4. Merge endorsements: fxconfig tx merge tx_org1.json tx_org2.json --output merged.json'',
      ''  5. Submit: fxconfig tx submit merged.json --wait'']"

definition version_Long :: string where
  "version_Long = unlines
     [''Display detailed version information including:'',
      ''  '' @ bullet @ '' fxconfig version'',
      ''  '' @ bullet @ '' Go compiler version'',
      ''  '' @ bullet @ '' Git commit SHA'',
      ''  '' @ bullet @ '' Operating system and architecture'']"

definition info_Long :: string where
  "info_Long = unlines
     [''Display the effective configuration after applying all overrides.'',
      [],
      ''Configuration is loaded and merged in the following order (later sources override earlier):'',
      ''  1. Default values'',
      ''  2. User config file ($HOME/.fxconfig/config.yaml)'',
      ''  3. Project config file (.fxconfig/config.yaml)'',
      ''  4. Config file (--config flag)'',
      ''  5. Environment variables (FXCONFIG_*)'',
      [],
      ''Use this command to verify your configuration before executing operations.'',
      [],
      ''Examples:'',
      ''  # Show current configuration'',
      ''  fxconfig info'',
      [],
      ''  # Show configuration from specific file'',
      ''  fxconfig info --config /path/to/config.yaml'',
      [],
      ''  # Show configuration as environment variables'',
      ''  fxconfig info --format env'']"

definition root_Long :: string where
  "root_Long = unlines
     [''fxconfig is a command-line tool for managing Fabric-X namespaces and transactions.'',
      [],
      ''Namespaces in Fabric-X define isolated execution environments with their own'',
      ''endorsement policies. This tool allows you to:'',
      ''  '' @ bullet @ '' Create and update namespaces with custom endorsement policies'',
      ''  '' @ bullet @ '' Query installed namespaces and their configurations'',
      ''  '' @ bullet @ '' Endorse, merge, and submit transactions'',
      ''  '' @ bullet @ '' Manage transaction lifecycle across multiple organizations'',
      [CHR 0x09],
      ''Configuration can be provided via:'',
      ''  '' @ bullet @ '' Config file (--config flag or $HOME/.fxconfig/config.yaml, .fxconfig/config.yaml)'',
      ''  '' @ bullet @ '' Environment variables (FXCONFIG_*)'']"

end
