(* ===== verification/Commands.thy ===== *)
theory Commands
  imports Cli_Info Command_Tree Command_Help
begin

text \<open>
  The constructors of the commands of \<open>tools/fxconfig/internal/cli/v1\<close>. The context that the commands
  share is a pointer, filled in by the hook of the root command before any of them runs: a \<open>RunE\<close> takes
  it as an argument, with the values of the flags and the positional arguments. \<^term>\<open>None\<close> is a command
  that does not return.
\<close>

text \<open>\<open>ce_version\<close> and its neighbours are the constants of the build that the version command prints.\<close>

record 'j command_env =
  ce_ctx :: "'j cli_context"
  ce_Config :: config
  ce_yaml :: "config yaml_api"
  ce_version :: string
  ce_go_version :: string
  ce_commit :: string
  ce_platform :: "string \<times> string"

type_synonym 'j runner = "'j command_env \<Rightarrow> flag_values \<Rightarrow> string list \<Rightarrow> (unit, cli) io option"

text \<open>\<open>args[0]\<close>\<close>

definition first_arg :: "string list \<Rightarrow> string result" where
  "first_arg args = (case args of [] \<Rightarrow> Panic ''index out of range [0] with length 0'' | a # _ \<Rightarrow> Ok a)"

definition with_first_arg :: "(string \<Rightarrow> (unit, cli) io option) \<Rightarrow> string list \<Rightarrow> (unit, cli) io option" where
  "with_first_arg m args = (case first_arg args of
     Ok a \<Rightarrow> m a | Err e \<Rightarrow> Some (io_fail e) | Panic q \<Rightarrow> Some (io_lift (Panic q)))"

definition deployFlags_vars :: "flag_values \<Rightarrow> namespaceDeployFlags" where
  "deployFlags_vars vals = \<lparr>fl_endorse = flag_bool (vals ''endorse''), fl_submit = flag_bool (vals ''submit''),
     fl_wait = flag_bool (vals ''wait'')\<rparr>"

section \<open>The namespace commands\<close>

definition newNsCreateCommand :: "('j runner, 'h) command" where
  "newNsCreateCommand =
     (let cmd = cobra_Command (runs ''create [name]'' ''Create new namespace'' ns_create_Long (Some (ExactArgs 1))
            (\<lambda>E vals. with_first_arg
              (ns_create_RunE (ce_ctx E) (flag_string (vals ''policy'')) (flag_string (vals ''output'')) (deployFlags_vars vals))));
          cmd = policyFlag_bind cmd;
          cmd = outputFlag_bind cmd
      in namespaceDeployFlags_bind cmd)"

definition newNsUpdateCommand :: "('j runner, 'h) command" where
  "newNsUpdateCommand =
     (let cmd = cobra_Command (runs ''update [name]'' ''Update existing namespace'' ns_update_Long (Some (ExactArgs 1))
            (\<lambda>E vals. with_first_arg
              (ns_update_RunE (ce_ctx E) (flag_int (vals ''version'')) (flag_string (vals ''policy''))
                (flag_string (vals ''output'')) (deployFlags_vars vals))));
          cmd = versionFlag_bind cmd;
          cmd = policyFlag_bind cmd;
          cmd = outputFlag_bind cmd
      in namespaceDeployFlags_bind cmd)"

definition newNsListCommand :: "('j runner, 'h) command" where
  "newNsListCommand =
     cobra_Command (runs ''list'' ''List installed Namespaces'' ns_list_Long None
       (\<lambda>E vals args. Some (ns_list_RunE (ce_ctx E))))"

definition NewNsRootCommand :: "('j runner, 'h) command" where
  "NewNsRootCommand =
     AddCommand [newNsCreateCommand, newNsUpdateCommand, newNsListCommand]
       (cobra_Command (group_fields ''namespace'' ''Manage Fabric-X namespaces'' ns_root_Long))"

section \<open>The transaction commands\<close>

definition newTxMergeCommand :: "('j runner, 'h) command" where
  "newTxMergeCommand =
     outputFlag_bind (cobra_Command
       (runs ''merge [tx1.json] [tx2.json] [txN.json...]'' ''Merge multiple endorsed transactions'' tx_merge_Long
         (Some (MinimumNArgs 2))
         (\<lambda>E vals args. Some (tx_merge_RunE (ce_ctx E) (flag_string (vals ''output'')) args))))"

definition newTxEndorseCommand :: "('j runner, 'h) command" where
  "newTxEndorseCommand =
     outputFlag_bind (cobra_Command
       (runs ''endorse [file]'' ''Add endorsement signature to transaction'' tx_endorse_Long (Some (MinimumNArgs 1))
         (\<lambda>E vals. with_first_arg (\<lambda>file. Some (tx_endorse_RunE (ce_ctx E) (flag_string (vals ''output'')) file)))))"

definition newTxSubmitCommand :: "('j runner, 'h) command" where
  "newTxSubmitCommand =
     waitFlag_bind (cobra_Command
       (runs ''submit [file]'' ''Submit transaction to ordering service'' tx_submit_Long (Some (MinimumNArgs 1))
         (\<lambda>E vals. with_first_arg (\<lambda>file. Some (tx_submit_RunE (ce_ctx E) (flag_bool (vals ''wait'')) file)))))"

definition NewTxRootCommand :: "('j runner, 'h) command" where
  "NewTxRootCommand =
     AddCommand [newTxMergeCommand, newTxEndorseCommand, newTxSubmitCommand]
       (cobra_Command (group_fields ''tx'' ''Perform transaction operations'' tx_root_Long))"

section \<open>The root command\<close>

definition NewVersionCommand :: "('j runner, 'h) command" where
  "NewVersionCommand =
     cobra_Command (runs ''version'' ''Display version information'' version_Long None
       (\<lambda>E vals args. Some (on_streams (version_Run (ctx_Printer (ce_ctx E)) (ce_version E) (ce_go_version E)
         (ce_commit E) (fst (ce_platform E)) (snd (ce_platform E))))))"

definition NewInfoCommand :: "('j runner, 'h) command" where
  "NewInfoCommand =
     FlagVar ''format'' (Flag_String ''yaml'') ''Output format (yaml|env)'' (cobra_Command
       (runs ''info'' ''Display effective configuration'' info_Long None
         (\<lambda>E vals args. Some (info_RunE (ce_ctx E) (ce_yaml E) (ce_Config E) (flag_string (vals ''format''))))))"

definition NewRootCommand :: "(string \<Rightarrow> 'b) \<Rightarrow> ('j runner, flag_values \<Rightarrow> 'b) command" where
  "NewRootCommand preRun =
     (let rootCmd = cobra_Command ((group_fields ''fxconfig'' ''CLI tool for managing Fabric-X namespaces and transactions'' root_Long)
            \<lparr>cmd_PersistentPreRunE := Some (\<lambda>vals. preRun (flag_string (vals ''config'')))\<rparr>);
          rootCmd = PersistentFlagVar ''config'' (Flag_String [])
            ''Config file (default is $HOME/.fxconfig/config.yaml)'' rootCmd;
          rootCmd = AddCommand [NewVersionCommand] rootCmd;
          rootCmd = AddCommand [NewInfoCommand] rootCmd;
          rootCmd = AddCommand [NewNsRootCommand] rootCmd
      in AddCommand [NewTxRootCommand] rootCmd)"

lemmas bind_defs = outputFlag_bind_def policyFlag_bind_def versionFlag_bind_def namespaceDeployFlags_bind_def
  waitFlag_bind_def cobra_Command_def group_fields_def runs_def flag_var_def

lemmas tree_defs = bind_defs NewRootCommand_def NewVersionCommand_def NewInfoCommand_def NewNsRootCommand_def
  NewTxRootCommand_def newNsCreateCommand_def newNsUpdateCommand_def newNsListCommand_def
  newTxMergeCommand_def newTxEndorseCommand_def newTxSubmitCommand_def Let_def

section \<open>Lemmas\<close>

text \<open>The subcommands by their names; a command without subcommands takes the words that are left.\<close>

lemma find_subcommands:
  "find (\<lambda>c. cmd_Name c = w) (cmd_Commands (NewRootCommand h)) =
     (if w = ''version'' then Some NewVersionCommand else if w = ''info'' then Some NewInfoCommand
      else if w = ''namespace'' then Some NewNsRootCommand else if w = ''tx'' then Some NewTxRootCommand else None)"
  "find (\<lambda>c. cmd_Name c = w) (cmd_Commands NewNsRootCommand) =
     (if w = ''create'' then Some newNsCreateCommand else if w = ''update'' then Some newNsUpdateCommand
      else if w = ''list'' then Some newNsListCommand else None)"
  "find (\<lambda>c. cmd_Name c = w) (cmd_Commands NewTxRootCommand) =
     (if w = ''merge'' then Some newTxMergeCommand else if w = ''endorse'' then Some newTxEndorseCommand
      else if w = ''submit'' then Some newTxSubmitCommand else None)"
  by (auto simp: tree_defs cmd_Name_def)

lemma find_chain_leaf: "cmd_Commands c = [] \<Longrightarrow> find_chain ws c = ([c], ws)"
  by (cases ws) simp_all

definition config_flag :: cobra_flag where
  "config_flag = flag_var ''config'' (Flag_String []) ''Config file (default is $HOME/.fxconfig/config.yaml)''"

definition leaf_commands :: "(string list \<times> ('j runner, 'h) command) list" where
  "leaf_commands =
     [([''version''], NewVersionCommand), ([''info''], NewInfoCommand),
      ([''namespace'', ''create''], newNsCreateCommand), ([''namespace'', ''update''], newNsUpdateCommand),
      ([''namespace'', ''list''], newNsListCommand), ([''tx'', ''merge''], newTxMergeCommand),
      ([''tx'', ''endorse''], newTxEndorseCommand), ([''tx'', ''submit''], newTxSubmitCommand)]"

lemma leaf_simps:
  "cmd_Commands NewVersionCommand = []" "cmd_PersistentFlags NewVersionCommand = []"
  "cmd_Commands NewInfoCommand = []" "cmd_PersistentFlags NewInfoCommand = []"
  "cmd_Commands newNsCreateCommand = []" "cmd_PersistentFlags newNsCreateCommand = []"
  "cmd_Commands newNsUpdateCommand = []" "cmd_PersistentFlags newNsUpdateCommand = []"
  "cmd_Commands newNsListCommand = []" "cmd_PersistentFlags newNsListCommand = []"
  "cmd_Commands newTxMergeCommand = []" "cmd_PersistentFlags newTxMergeCommand = []"
  "cmd_Commands newTxEndorseCommand = []" "cmd_PersistentFlags newTxEndorseCommand = []"
  "cmd_Commands newTxSubmitCommand = []" "cmd_PersistentFlags newTxSubmitCommand = []"
  by (simp_all add: tree_defs)

lemma group_flags:
  "cmd_PersistentFlags (NewRootCommand h) = [config_flag]"
  "cmd_PersistentFlags NewNsRootCommand = []" "cmd_PersistentFlags NewTxRootCommand = []"
  by (simp_all add: NewNsRootCommand_def NewTxRootCommand_def NewRootCommand_def bind_defs config_flag_def)

lemma leaf_Args:
  "cmd_Args (cmd_fields NewVersionCommand) = None" "cmd_Args (cmd_fields NewInfoCommand) = None"
  "cmd_Args (cmd_fields newNsCreateCommand) = Some (ExactArgs 1)" "cmd_Args (cmd_fields newNsUpdateCommand) = Some (ExactArgs 1)"
  "cmd_Args (cmd_fields newNsListCommand) = None" "cmd_Args (cmd_fields newTxMergeCommand) = Some (MinimumNArgs 2)"
  "cmd_Args (cmd_fields newTxEndorseCommand) = Some (MinimumNArgs 1)"
  "cmd_Args (cmd_fields newTxSubmitCommand) = Some (MinimumNArgs 1)"
  unfolding NewVersionCommand_def NewInfoCommand_def newNsCreateCommand_def newNsUpdateCommand_def newNsListCommand_def
    newTxMergeCommand_def newTxEndorseCommand_def newTxSubmitCommand_def Let_def
  by simp_all

lemma leaf_Flags:
  "cmd_Flags newNsListCommand = []"
  "map (\<lambda>f. (cf_name f, cf_default f)) (cmd_Flags newTxSubmitCommand) = [(''wait'', Flag_Bool False)]"
  by (simp_all add: tree_defs)

text \<open>The commands that run something are called by their paths, and see their flags and the one of the root.\<close>

lemma find_commands:
  "find_chain (''version'' # args) (NewRootCommand h) = ([NewRootCommand h, NewVersionCommand], args)"
  "find_chain (''info'' # args) (NewRootCommand h) = ([NewRootCommand h, NewInfoCommand], args)"
  "find_chain (''namespace'' # ''create'' # args) (NewRootCommand h) = ([NewRootCommand h, NewNsRootCommand, newNsCreateCommand], args)"
  "find_chain (''namespace'' # ''update'' # args) (NewRootCommand h) = ([NewRootCommand h, NewNsRootCommand, newNsUpdateCommand], args)"
  "find_chain (''namespace'' # ''list'' # args) (NewRootCommand h) = ([NewRootCommand h, NewNsRootCommand, newNsListCommand], args)"
  "find_chain (''tx'' # ''merge'' # args) (NewRootCommand h) = ([NewRootCommand h, NewTxRootCommand, newTxMergeCommand], args)"
  "find_chain (''tx'' # ''endorse'' # args) (NewRootCommand h) = ([NewRootCommand h, NewTxRootCommand, newTxEndorseCommand], args)"
  "find_chain (''tx'' # ''submit'' # args) (NewRootCommand h) = ([NewRootCommand h, NewTxRootCommand, newTxSubmitCommand], args)"
  by (simp_all add: find_subcommands find_chain_leaf leaf_simps)

lemma find_leaf:
  assumes "(path, c) \<in> set leaf_commands"
  shows "\<exists>chain. find_chain (path @ args) (NewRootCommand h) = (chain, args) \<and> length chain \<noteq> 1
    \<and> last chain = c \<and> chain_flags chain = cmd_Flags c @ [config_flag]"
  using assms unfolding leaf_commands_def list.set insert_iff empty_iff prod.inject
  by (elim disjE conjE) (simp_all add: find_commands chain_flags_def group_flags leaf_simps del: find_chain.simps)

text \<open>Any other command line leads to the root itself or to a command that only groups others.\<close>

lemma find_chain_cases:
  assumes "find_chain ws (NewRootCommand h) = (chain, args)"
  shows "length chain = 1 \<or> last chain = NewNsRootCommand \<or> last chain = NewTxRootCommand
    \<or> (\<exists>path c. (path, c) \<in> set leaf_commands \<and> ws = path @ args \<and> last chain = c)"
  using assms unfolding leaf_commands_def
  by (cases ws rule: remdups_adj.cases)
    (auto simp: find_subcommands find_chain_leaf leaf_simps split: if_splits)

lemma leaf_RunE:
  "cmd_RunE (cmd_fields NewVersionCommand) = Some (\<lambda>E vals args. Some (on_streams (version_Run
     (ctx_Printer (ce_ctx E)) (ce_version E) (ce_go_version E) (ce_commit E) (fst (ce_platform E)) (snd (ce_platform E)))))"
  "cmd_RunE (cmd_fields NewInfoCommand) =
     Some (\<lambda>E vals args. Some (info_RunE (ce_ctx E) (ce_yaml E) (ce_Config E) (flag_string (vals ''format''))))"
  "cmd_RunE (cmd_fields newNsCreateCommand) = Some (\<lambda>E vals. with_first_arg
     (ns_create_RunE (ce_ctx E) (flag_string (vals ''policy'')) (flag_string (vals ''output'')) (deployFlags_vars vals)))"
  "cmd_RunE (cmd_fields newNsUpdateCommand) = Some (\<lambda>E vals. with_first_arg
     (ns_update_RunE (ce_ctx E) (flag_int (vals ''version'')) (flag_string (vals ''policy''))
       (flag_string (vals ''output'')) (deployFlags_vars vals)))"
  "cmd_RunE (cmd_fields newNsListCommand) = Some (\<lambda>E vals args. Some (ns_list_RunE (ce_ctx E)))"
  "cmd_RunE (cmd_fields newTxMergeCommand) =
     Some (\<lambda>E vals args. Some (tx_merge_RunE (ce_ctx E) (flag_string (vals ''output'')) args))"
  "cmd_RunE (cmd_fields newTxEndorseCommand) = Some (\<lambda>E vals. with_first_arg
     (\<lambda>file. Some (tx_endorse_RunE (ce_ctx E) (flag_string (vals ''output'')) file)))"
  "cmd_RunE (cmd_fields newTxSubmitCommand) = Some (\<lambda>E vals. with_first_arg
     (\<lambda>file. Some (tx_submit_RunE (ce_ctx E) (flag_bool (vals ''wait'')) file)))"
  unfolding NewVersionCommand_def NewInfoCommand_def newNsCreateCommand_def newNsUpdateCommand_def newNsListCommand_def
    newTxMergeCommand_def newTxEndorseCommand_def newTxSubmitCommand_def Let_def
  by simp_all

lemma resolve_leaf:
  fixes r :: "'j runner" and h :: "string \<Rightarrow> 'b"
  assumes "resolve (NewRootCommand h) call = Run r hook args vals complete"
  shows "\<exists>path c. (path, c :: ('j runner, flag_values \<Rightarrow> 'b) command) \<in> set leaf_commands \<and> inv_words call = path @ args
    \<and> cmd_RunE (cmd_fields c) = Some r \<and> vals = flag_lookup (cmd_Flags c @ [config_flag]) (inv_flags call)"
proof -
  obtain chain where ch: "find_chain (inv_words call) (NewRootCommand h) = (chain, args)"
    and r: "cmd_RunE (cmd_fields (last chain)) = Some r" "length chain = 1 \<longrightarrow> args = []"
    "vals = flag_lookup (chain_flags chain) (inv_flags call)"
    using assms by (auto simp: resolve_def Let_def split: prod.splits if_splits option.splits)
  have none: "cmd_RunE (cmd_fields NewNsRootCommand) = None" "cmd_RunE (cmd_fields NewTxRootCommand) = None"
    "cmd_RunE (cmd_fields (NewRootCommand h)) = None"
    by (simp_all add: NewNsRootCommand_def NewTxRootCommand_def NewRootCommand_def bind_defs)
  have root: "last chain = NewRootCommand h" if "length chain = 1"
    using that find_chain_rest [OF ch] by auto
  have "length chain \<noteq> 1" "last chain \<noteq> NewNsRootCommand" "last chain \<noteq> NewTxRootCommand"
    using root r(1) none by (metis option.distinct(1))+
  then obtain path c where c: "(path, c) \<in> set leaf_commands" "inv_words call = path @ args" "last chain = c"
    using find_chain_cases [OF ch] by metis
  then have "chain_flags chain = cmd_Flags c @ [config_flag]"
    using find_leaf [OF c(1), of args h] ch by simp
  then show ?thesis using c r(1,3) by metis
qed

lemma NewRootCommand_subtree:
  "subtree (NewRootCommand h) =
     [NewRootCommand h, NewVersionCommand, NewInfoCommand, NewNsRootCommand, newNsCreateCommand, newNsUpdateCommand,
      newNsListCommand, NewTxRootCommand, newTxMergeCommand, newTxEndorseCommand, newTxSubmitCommand]"
  by (simp add: tree_defs)

lemma NewRootCommand_hook:
  fixes r :: "'j runner"
  assumes "resolve (NewRootCommand h) call = Run r hook args vals complete"
  shows "hook = Some (\<lambda>vals. h (flag_string (vals ''config'')))"
proof -
  obtain chain :: "('j runner, _) command list" where
    ch: "find_chain (inv_words call) (NewRootCommand h) = (chain, args)" "hook = chain_hook chain"
    using resolve_runs(2) [OF assms] by blast
  have "chain_hook chain = Some (\<lambda>vals. h (flag_string (vals ''config'')))"
    by (rule chain_hook_root [OF ch(1)]) (simp_all add: tree_defs)
  then show ?thesis using ch(2) by simp
qed

text \<open>What a property of the \<open>RunE\<close> of every command of the tree comes down to.\<close>

lemma tree_runs:
  assumes "c \<in> set (subtree (NewRootCommand h))" "cmd_RunE (cmd_fields c) = Some r"
    and "\<And>name. Q (ns_create_RunE (ce_ctx E) (flag_string (vals ''policy'')) (flag_string (vals ''output'')) (deployFlags_vars vals) name)"
    and "\<And>name. Q (ns_update_RunE (ce_ctx E) (flag_int (vals ''version'')) (flag_string (vals ''policy''))
        (flag_string (vals ''output'')) (deployFlags_vars vals) name)"
    and "Q (Some (ns_list_RunE (ce_ctx E)))" "Q (Some (tx_merge_RunE (ce_ctx E) (flag_string (vals ''output'')) args))"
    and "\<And>file. Q (Some (tx_endorse_RunE (ce_ctx E) (flag_string (vals ''output'')) file))"
    and "\<And>file. Q (Some (tx_submit_RunE (ce_ctx E) (flag_bool (vals ''wait'')) file))"
    and "\<And>m. Q (Some (on_streams m))" "Q (Some (info_RunE (ce_ctx E) (ce_yaml E) (ce_Config E) (flag_string (vals ''format''))))"
    and "\<And>p. Q (Some (io_lift (Panic p)))"
  shows "Q (r E vals args)"
proof -
  have first: "Q (with_first_arg g args)" if "\<And>a. Q (g a)" for g
    using that assms(11) by (cases args) (simp_all add: with_first_arg_def first_arg_def)
  show ?thesis
    using assms(1,2) unfolding NewRootCommand_subtree
    by (auto simp: tree_defs intro!: assms(3-10) first)
qed

lemma resolve_leafI:
  fixes c :: "('j runner, flag_values \<Rightarrow> 'b) command" and h :: "string \<Rightarrow> 'b"
  assumes "(path, c) \<in> set leaf_commands" "inv_words call = path @ args"
    and "flags_known (cmd_Flags c @ [config_flag]) (inv_flags call)" "cmd_RunE (cmd_fields c) = Some r"
    and "case cmd_Args (cmd_fields c) of None \<Rightarrow> True | Some rule \<Rightarrow> args_accepted rule args"
  shows "resolve (NewRootCommand h) call = Run r (Some (\<lambda>vals. h (flag_string (vals ''config'')))) args
    (flag_lookup (cmd_Flags c @ [config_flag]) (inv_flags call)) (flags_complete (cmd_Flags c @ [config_flag]) (inv_flags call))"
proof -
  obtain chain where ch: "find_chain (inv_words call) (NewRootCommand h) = (chain, args)" "length chain \<noteq> 1"
    "last chain = c" "chain_flags chain = cmd_Flags c @ [config_flag]"
    using find_leaf [OF assms(1), of args h] assms(2) by metis
  have "resolve (NewRootCommand h) call = Run r (chain_hook chain) args
      (flag_lookup (cmd_Flags c @ [config_flag]) (inv_flags call)) (flags_complete (cmd_Flags c @ [config_flag]) (inv_flags call))"
    using resolve_RunI [OF ch(1,2)] assms(3-5) ch(3,4) by simp
  then show ?thesis using NewRootCommand_hook by fastforce
qed

end
