(* ===== verification/Fxconfig_Process.thy ===== *)
theory Fxconfig_Process
  imports Load_Props Wiring Commands
begin

text \<open>
  A process of \<open>fxconfig\<close>: \<open>tools/fxconfig/internal/cli/v1/root.go\<close> and \<open>tools/fxconfig/main.go\<close>
  put the configuration loader, the application and the commands together. What \<open>cobra\<close> makes of a
  command line is \<^const>\<open>resolve\<close>; its documented order is that the rule for the number of arguments comes
  first, then the pre-run hook of the root command, which every command inherits, then the required flags, then
  the command itself. What \<open>cobra\<close> itself prints (help, usage, the error a command ends with), the
  commands it adds (help, completion), and the signal that cancels the context are not modelled.
\<close>

section \<open>The environment of the process\<close>

text \<open>
  \<open>pe_env\<close> holds the libraries behind the services, \<open>pe_proto\<close> and its neighbours those the
  application uses; the fields of the build are what the version command prints.
\<close>

record ('v, 'c, 'k, 'p, 'm, 'j) process_env =
  pe_fraction :: fraction
  pe_viper :: "'v viper_api"
  pe_home :: "string option"
  pe_main :: "('c, 'k, 'p, 'm) main_env"
  pe_proto :: proto_api
  pe_ValidateNamespaceID :: "string \<Rightarrow> unit result"
  pe_MetaNamespaceID :: string
  pe_sha256 :: "bytes \<Rightarrow> bytes"
  pe_random :: "trace reader"
  pe_io :: io_env
  pe_json :: "'j json_api"
  pe_print :: print_api
  pe_yaml :: "config yaml_api"
  pe_COMMITTED :: int
  pe_Status_name :: "32 word \<Rightarrow> string"
  pe_version :: string
  pe_go_version :: string
  pe_commit :: string
  pe_platform :: "string \<times> string"

text \<open>The application environment: \<open>vctx\<close> is shared by the application and its providers.\<close>

definition process_app_env :: "('v, 'c, 'k, 'p, 'm, 'j) process_env \<Rightarrow> app_env" where
  "process_app_env P =
     \<lparr>ae_Validators = NewValidationContext (me_policy (pe_main P)) (me_Stat (pe_main P)),
      ae_proto = pe_proto P, ae_policy = me_policy (pe_main P),
      ae_ValidateNamespaceID = pe_ValidateNamespaceID P, ae_MetaNamespaceID = pe_MetaNamespaceID P,
      ae_sha256 = pe_sha256 P, ae_random = pe_random P\<rparr>"

definition process_context :: "('v, 'c, 'k, 'p, 'm, 'j) process_env \<Rightarrow> 'j cli_context" where
  "process_context P =
     \<lparr>ctx_App = process_app_env P, ctx_IO = pe_io P, ctx_Codec = pe_json P, ctx_Printer = pe_print P,
      ctx_COMMITTED = pe_COMMITTED P, ctx_Status_name = pe_Status_name P\<rparr>"

section \<open>The root command\<close>

text \<open>
  \<open>PersistentPreRunE\<close>: load the configuration, with the file of \<open>--config\<close> if there is one, and
  build the application on it.
\<close>

definition root_PersistentPreRunE ::
    "('v, 'c, 'k, 'p, 'm, 'j) process_env \<Rightarrow> string \<Rightarrow> (config \<times> app) result" where
  "root_PersistentPreRunE P cfgFile =
     res_bind (Load (pe_fraction P) (pe_viper P) (pe_home P)
         (if cfgFile \<noteq> [] then [WithConfigFile cfgFile] else []))
       (\<lambda>cfg. Ok (cfg, build_app (pe_main P) cfg []))"

text \<open>The environment of the commands, once the hook has filled in the context they share.\<close>

definition process_command_env :: "('v, 'c, 'k, 'p, 'm, 'j) process_env \<Rightarrow> config \<Rightarrow> 'j command_env" where
  "process_command_env P cfg =
     \<lparr>ce_ctx = process_context P, ce_Config = cfg, ce_yaml = pe_yaml P, ce_version = pe_version P,
      ce_go_version = pe_go_version P, ce_commit = pe_commit P, ce_platform = pe_platform P\<rparr>"

section \<open>The process\<close>

definition fxconfig_root ::
    "('v, 'c, 'k, 'p, 'm, 'j) process_env \<Rightarrow> ('j runner, flag_values \<Rightarrow> (config \<times> app) result) command" where
  "fxconfig_root P = NewRootCommand (root_PersistentPreRunE P)"

text \<open>
  How a process ends: with a status (\<open>main\<close> exits with 1 on an error), or with a panic; and what it
  leaves: its streams and the calls it has made, none if the application was not built. A command without the
  hook would find its context empty; no command of the tree is one.
\<close>

datatype process_end = Exit nat | Panicked string

definition fxconfig_main ::
    "('v, 'c, 'k, 'p, 'm, 'j) process_env \<Rightarrow> invocation \<Rightarrow> streams
      \<Rightarrow> (process_end \<times> streams \<times> trace) option" where
  "fxconfig_main P call st =
     (case resolve (fxconfig_root P) call of
        Refused \<Rightarrow> Some (Exit 1, st, [])
      | Help \<Rightarrow> Some (Exit 0, st, [])
      | Run r None args vals complete \<Rightarrow> Some (Panicked ''nil pointer dereference'', st, [])
      | Run r (Some hook) args vals complete \<Rightarrow>
          (case hook vals of
             Err e \<Rightarrow> Some (Exit 1, st, [])
           | Panic q \<Rightarrow> Some (Panicked q, st, [])
           | Ok (cfg, s) \<Rightarrow>
               if \<not> complete then Some (Exit 1, st, [])
               else map_option (\<lambda>m.
                 case m \<lparr>cli_app = s, cli_streams = st\<rparr> of
                   (r, c) \<Rightarrow> (case r of Ok _ \<Rightarrow> Exit 0 | Err e \<Rightarrow> Exit 1 | Panic q \<Rightarrow> Panicked q,
                     cli_streams c, app_trace (cli_app c)))
                 (r (process_command_env P cfg) vals args)))"

section \<open>Lemmas\<close>

lemma fxconfig_hook:
  "resolve (fxconfig_root P) call = Run r hook args vals complete
    \<Longrightarrow> hook = Some (\<lambda>vals. root_PersistentPreRunE P (flag_string (vals ''config'')))"
  unfolding fxconfig_root_def by (rule NewRootCommand_hook)

text \<open>A process that comes to run a command, and what it leaves then.\<close>

lemma process_runs:
  fixes P :: "('v, 'c, 'k, 'p, 'm, 'j) process_env"
  assumes "fxconfig_main P call st = Some (e, st', tr)"
    and "resolve (fxconfig_root P) call = Run (r :: 'j runner) hook args vals True"
    and "root_PersistentPreRunE P (flag_string (vals ''config'')) = Ok (cfg, s)"
  obtains m q c where "r (process_command_env P cfg) vals args = Some m"
    and "m \<lparr>cli_app = s, cli_streams = st\<rparr> = (q, c)" "tr = app_trace (cli_app c)" "st' = cli_streams c"
    and "e = (case q of Ok _ \<Rightarrow> Exit 0 | Err e \<Rightarrow> Exit 1 | Panic q \<Rightarrow> Panicked q)"
    and "s = build_app (pe_main P) cfg []"
    and "\<exists>c \<in> set (subtree (fxconfig_root P)). cmd_RunE (cmd_fields c) = Some r"
proof -
  obtain m where m: "r (process_command_env P cfg) vals args = Some m"
    using assms fxconfig_hook [OF assms(2)] by (auto simp: fxconfig_main_def)
  show thesis
  proof (cases "m \<lparr>cli_app = s, cli_streams = st\<rparr>")
    case (Pair q c)
    have "s = build_app (pe_main P) cfg []"
      using assms(3) by (auto simp: root_PersistentPreRunE_def res_simps)
    then show thesis
      using that [OF m Pair] assms fxconfig_hook [OF assms(2)] m Pair resolve_runs(1) [OF assms(2)]
      by (auto simp: fxconfig_main_def)
  qed
qed

text \<open>A command keeps an invariant of the application when the operations it runs keep it.\<close>

abbreviation keeps_app :: "(app \<Rightarrow> bool) \<Rightarrow> ('a, cli) io \<Rightarrow> bool" where
  "keeps_app I \<equiv> ensures (\<lambda>c. I (cli_app c)) (\<lambda>_. True)"

lemma keepsD: "keeps_app I m \<Longrightarrow> m w = (r, c) \<Longrightarrow> I (cli_app w) \<Longrightarrow> I (cli_app c)"
  by (auto simp: ensures_def split: prod.splits)

named_theorems keeps_intros \<open>a command keeps an invariant of the application\<close>

lemma keeps_on_app: "ensures I (\<lambda>_. True) m \<Longrightarrow> keeps_app I (on_app m)"
  by (auto simp: ensures_def on_app_def split: prod.splits)

lemma keeps_on_streams [keeps_intros]: "keeps_app I (on_streams m)"
  by (auto simp: ensures_def on_streams_def split: prod.splits)

lemma keeps_pure [keeps_intros]:
  "keeps_app I (io_return x)" "keeps_app I (io_fail e)" "keeps_app I (io_lift r)"
  by (simp_all add: ensures_pure)

lemma keeps_bind [keeps_intros]: "keeps_app I m \<Longrightarrow> (\<And>x. keeps_app I (f x)) \<Longrightarrow> keeps_app I (io_bind m f)"
  by (rule ensures_bind)

lemma keeps_split [keeps_intros]:
  "(\<And>a b. keeps_app I (f a b)) \<Longrightarrow> keeps_app I (case x of (a, b) \<Rightarrow> f a b)"
  "keeps_app I m \<Longrightarrow> (\<And>y. keeps_app I (g y)) \<Longrightarrow> keeps_app I (case v of None \<Rightarrow> m | Some y \<Rightarrow> g y)"
  "keeps_app I m \<Longrightarrow> keeps_app I n \<Longrightarrow> keeps_app I (if b then m else n)"
  by (simp_all split: prod.split option.split)

lemma keeps_cli_Print [keeps_intros]: "keeps_app I (cli_Print ctx v)"
  by (simp add: cli_Print_def keeps_on_streams)

lemma keeps_print_lines [keeps_intros]: "keeps_app I (print_lines ctx i ps)"
  by (induction ctx i ps rule: print_lines.induct) 
    (unfold print_lines.simps, (intro keeps_intros | assumption)+)

lemma keeps_read_tx [keeps_intros]: "keeps_app I (read_tx ctx file)"
  by (simp add: read_tx_def keeps_intros)

lemma keeps_write_tx [keeps_intros]: "keeps_app I (write_tx ctx output txID t)"
  by (simp add: write_tx_def keeps_intros)

lemma keeps_print_status [keeps_intros]: "keeps_app I (print_status ctx status)"
  by (simp add: print_status_def keeps_cli_Print)

lemma keeps_resolve_loop [keeps_intros]: "keeps_app I (resolve_loop ctx txID txIDs txs args)"
  by (induction ctx txID txIDs txs args rule: resolve_loop.induct)
    (unfold resolve_loop.simps, (intro keeps_intros | assumption)+)

lemma keeps_resolveInputs [keeps_intros]: "keeps_app I (resolveInputs ctx args)"
  unfolding resolveInputs_def by (intro keeps_intros)

lemma keeps_deploy:
  assumes "\<And>m. DeployNamespace (ctx_App ctx) input = Some m \<Longrightarrow> ensures I (\<lambda>_. True) m"
    and "run_deploy ctx input output = Some m"
  shows "keeps_app I m"
  using assms(2) unfolding run_deploy_def
  by (auto intro!: keeps_intros keeps_on_app assms(1))

lemma command_wires:
  fixes P :: "('v, 'c, 'k, 'p, 'm, 'j) process_env" and r :: "'j runner"
  assumes q: "quiet_libs (pe_main P) (process_app_env P)"
    and c: "c \<in> set (subtree (NewRootCommand h))" "cmd_RunE (cmd_fields c) = Some r"
    and m: "r (process_command_env P cfg) vals args = Some m"
  shows "keeps_app (wired (pe_main P) cfg D) m"
proof -
  let ?I = "wired (pe_main P) cfg D" and ?E = "process_command_env P cfg" and ?ctx = "process_context P"
  have A: "ctx_App ?ctx = process_app_env P" by (simp add: process_context_def)
  have E: "ce_ctx ?E = ?ctx" by (simp add: process_command_env_def)
  have dep: "keeps_app ?I m'" if "run_deploy ?ctx input out = Some m'" for input out m'
    using keeps_deploy [OF wires_deploy [OF q] that] A by simp
  note run = keeps_intros keeps_on_app wires_endorse [OF q] wires_submit [OF q] wires_submit_wait [OF q] wires_list
  have submit: "keeps_app ?I (tx_submit_RunE ?ctx wait x)" for wait x
    unfolding tx_submit_RunE_def by (intro run)
  have endorse: "keeps_app ?I (tx_endorse_RunE ?ctx out x)" for out x
    unfolding tx_endorse_RunE_def A by (intro run)
  have merge: "keeps_app ?I (tx_merge_RunE ?ctx out args)" for out
    unfolding tx_merge_RunE_def MergeTransactions_def by (intro run ensures_pure TrueI)
  have list: "keeps_app ?I (ns_list_RunE ?ctx)"
    unfolding ns_list_RunE_def by (intro run)
  have info: "keeps_app ?I (info_RunE ?ctx (ce_yaml ?E) cfg' fmt)" for cfg' fmt
    unfolding info_RunE_def by (intro keeps_intros)
  have "\<forall>m. r ?E vals args = Some m \<longrightarrow> keeps_app ?I m"
    by (rule tree_runs [OF c])
      (use dep submit endorse merge list info in
        \<open>auto simp: E ns_create_RunE_def ns_update_RunE_def intro: keeps_on_streams keeps_pure\<close>)
  then show ?thesis using m by blast
qed

section \<open>Properties\<close>

text \<open>
  C14: a process of any command line, whatever fails in it, dials each of the query, ordering and
  notification services at most once, at the address and with the timeout that the configuration it
  has loaded gives, and only if the configuration of that service validates. A process whose command line is
  refused or that only prints help loads no configuration; one that has failed to load the configuration does not
  exit with status 0, and one that lacks a required flag exits with status 1; none of them makes any call.
\<close>

theorem process_dials:
  assumes "quiet_libs (pe_main P) (process_app_env P)"
    and "fxconfig_main P call st = Some (e, st', tr)"
  shows "case resolve (fxconfig_root P) call of
      Refused \<Rightarrow> e = Exit 1 \<and> tr = [] \<and> st' = st
    | Help \<Rightarrow> e = Exit 0 \<and> tr = [] \<and> st' = st
    | Run _ _ _ vals complete \<Rightarrow>
        (case root_PersistentPreRunE P (flag_string (vals ''config'')) of
           Ok (cfg, _) \<Rightarrow> dials tr \<subseteq># validated_endpoints (pe_main P) cfg
             \<and> (\<not> complete \<longrightarrow> e = Exit 1 \<and> tr = [] \<and> st' = st)
         | _ \<Rightarrow> e \<noteq> Exit 0 \<and> tr = [] \<and> st' = st)"
proof (cases "resolve (fxconfig_root P) call")
  case (Run r hook args vals complete)
  note hook = fxconfig_hook [OF Run]
  show ?thesis
  proof (cases "root_PersistentPreRunE P (flag_string (vals ''config''))")
    case (Ok x)
    then obtain cfg s where x: "x = (cfg, s)" by (cases x)
    show ?thesis
    proof (cases complete)
      case True
      note ok = Ok [unfolded x] and run = Run [unfolded eqTrueI [OF True]]
      obtain m q c where m: "r (process_command_env P cfg) vals args = Some m"
        and c: "m \<lparr>cli_app = s, cli_streams = st\<rparr> = (q, c)" "tr = app_trace (cli_app c)"
        and s: "s = build_app (pe_main P) cfg []"
        and sub: "\<exists>c \<in> set (subtree (fxconfig_root P)). cmd_RunE (cmd_fields c) = Some r"
        using process_runs [OF assms(2) run ok] by metis
      have "keeps_app (wired (pe_main P) cfg {#}) m" 
        using sub command_wires [OF assms(1), of _ _ r, OF _ _ m] unfolding fxconfig_root_def by blast
      moreover have "wired (pe_main P) cfg {#} s"
        using wired_built [of "pe_main P" cfg "[]"] s by (simp add: dials_def)
      ultimately have "wired (pe_main P) cfg {#} (cli_app c)" using keepsD [of "wired (pe_main P) cfg {#}" m, OF _ c(1)] by simp
      then show ?thesis using wired_bound c(2) ok run True by fastforce
    qed (use assms(2) Run Ok x hook in \<open>auto simp: fxconfig_main_def dials_def\<close>)
  qed (use assms(2) Run hook in \<open>auto simp: fxconfig_main_def\<close>)
qed (use assms(2) in \<open>auto simp: fxconfig_main_def\<close>)

definition fixed_viper :: "config \<Rightarrow> unit viper_api" where
  "fixed_viper cfg =
     \<lparr>vp_New = (), vp_SetDefault = (\<lambda>_ _ v. v), vp_SetEnvPrefix = (\<lambda>_ v. v), vp_SetEnvKeyReplacer = (\<lambda>_ v. v),
      vp_AutomaticEnv = (\<lambda>v. v), vp_SetConfigName = (\<lambda>_ v. v), vp_SetConfigType = (\<lambda>_ v. v),
      vp_AddConfigPath = (\<lambda>_ v. v), vp_SetConfigFile = (\<lambda>_ v. v), vp_Set = (\<lambda>_ _ v. v),
      vp_MergeInConfig = io_return (), vp_ReadInConfig = io_return (), vp_ConfigFileUsed = (\<lambda>_. []),
      vp_Unmarshal = (\<lambda>_. Ok cfg), vp_IsNotFound = (\<lambda>_. False)\<rparr>"

definition sample_process :: "(unit, unit, unit, unit, unit, bytes) process_env" where
  "sample_process =
     \<lparr>pe_fraction = (\<lambda>_ _ _. 0), pe_viper = fixed_viper sample_config, pe_home = Some ''home'', pe_main = sample_main,
      pe_proto = ae_proto sample_app_env, pe_ValidateNamespaceID = ae_ValidateNamespaceID sample_app_env,
      pe_MetaNamespaceID = ae_MetaNamespaceID sample_app_env, pe_sha256 = ae_sha256 sample_app_env,
      pe_random = ae_random sample_app_env, pe_io = sample_io, pe_json = sample_json, pe_print = sample_print,
      pe_yaml = \<lparr>ya_Marshal = (\<lambda>_. Ok []), ya_Unmarshal = (\<lambda>_. Ok [])\<rparr>, pe_COMMITTED = 7,
      pe_Status_name = (\<lambda>_. []), pe_version = ''v'', pe_go_version = ''go'', pe_commit = ''c'',
      pe_platform = (''linux'', ''amd64'')\<rparr>"

lemma fixed_pre_run:
  "root_PersistentPreRunE (sample_process\<lparr>pe_viper := fixed_viper cfg\<rparr>) [] =
     Ok (ResolveTLS cfg, build_app sample_main (ResolveTLS cfg) [])"
  by (simp add: root_PersistentPreRunE_def Load_def registered_calls config_registered sample_process_def
      fixed_viper_def merge_file_def read_explicit_def load_setup_def io_bind_def Let_def)

lemma sample_pre_run:
  "root_PersistentPreRunE sample_process [] =
     Ok (ResolveTLS sample_config, build_app sample_main (ResolveTLS sample_config) [])"
proof -
  have "sample_process\<lparr>pe_viper := fixed_viper sample_config\<rparr> = sample_process" by (simp add: sample_process_def)
  then show ?thesis using fixed_pre_run [of sample_config] by simp
qed

lemma sample_process_quiet: "quiet_libs (pe_main sample_process) (process_app_env sample_process)"
  using sample_quiet by (simp add: libs_emit_def sample_process_def process_app_env_def)

definition sample_list_call :: invocation where
  "sample_list_call = \<lparr>inv_words = [''namespace'', ''list''], inv_flags = []\<rparr>"

lemma sample_list_resolve:
  "resolve (fxconfig_root P) sample_list_call =
     Run (\<lambda>E vals args. Some (ns_list_RunE (ce_ctx E))) (Some (\<lambda>vals. root_PersistentPreRunE P (flag_string (vals ''config'')))) []
       (flag_lookup [config_flag] []) True"
proof -
  have "flags_complete [config_flag] (inv_flags sample_list_call)"
    by (simp add: flags_complete_def config_flag_def flag_var_def)
  then show ?thesis
    using resolve_leafI [where c = newNsListCommand and path = "[''namespace'', ''list'']" and args = "[]"
        and call = sample_list_call and h = "root_PersistentPreRunE P"]
    by (simp add: fxconfig_root_def leaf_commands_def sample_list_call_def flags_known_def leaf_RunE leaf_Args leaf_Flags)
qed

lemma sample_process_list:
  "\<exists>st' tr. fxconfig_main sample_process sample_list_call (cli_streams sample_cli) = Some (Exit 0, st', tr)
     \<and> dials tr = {#(''h:1'', 5)#}"
proof -
  let ?cfg = "ResolveTLS sample_config" and ?st = "cli_streams sample_cli"
  obtain s where s: "ListNamespaces (build_app sample_main ?cfg []) = (Ok [], s)"
    "app_trace s = [Ev_Dial ''h:1'' zero_secure_options 5, Ev_GetNamespacePolicies 0 5, Ev_ConnClose 0]"
  proof -
    have "cfg_Queries ?cfg = \<lparr>Address = ''h:1'', ConnectionTimeout = 5,
        ep_TLS = Some (resolved_tls None empty_tls)\<rparr>" "\<not> tls_IsEnabled (Some (resolved_tls None empty_tls))"
      by (simp_all add: ResolveTLS_eq sample_config_def resolved_tls_def tls_IsEnabled_def tls_Normalize_def
          tls_InheritFrom_def empty_tls_def tls_merge_def cmp_Or_ptr_def)
    from plain_listing [OF this] show thesis using that by blast
  qed
  have "ns_list_RunE (process_context sample_process) \<lparr>cli_app = build_app sample_main ?cfg [], cli_streams = ?st\<rparr>
      = (Ok (), \<lparr>cli_app = s, cli_streams = snd (Print (NewCLIPrinter sample_print FormatTable)
          (''Installed namespaces ('' @ dec_of_nat 0 @ '' total):'' @ [CHR 0x0A]) ?st)\<rparr>)"
    by (simp add: ns_list_RunE_def on_app_def on_streams_def io_bind_def s(1) cli_Print_def Print_def print_value_def NewCLIPrinter_def
        process_context_def sample_process_def)
  then show ?thesis
    using s(2)
    by (simp add: fxconfig_main_def sample_list_resolve sample_pre_run process_command_env_def dials_def
        flag_lookup_def flag_var_def config_flag_def)
qed

theorem process_dials_witness:
  "\<exists>st' tr. fxconfig_main sample_process sample_list_call (cli_streams sample_cli) = Some (Exit 0, st', tr)
     \<and> dials tr = {#(''h:1'', 5)#} \<and> dials tr \<subseteq># validated_endpoints sample_main (ResolveTLS sample_config)"
proof -
  obtain st' tr where run: "fxconfig_main sample_process sample_list_call (cli_streams sample_cli) = Some (Exit 0, st', tr)"
    and d: "dials tr = {#(''h:1'', 5)#}"
    using sample_process_list by blast
  have "dials tr \<subseteq># validated_endpoints (pe_main sample_process) (ResolveTLS sample_config)"
    using process_dials [OF sample_process_quiet run]
    by (simp add: sample_list_resolve sample_pre_run flag_lookup_def flag_var_def config_flag_def)
  then show ?thesis using run d by (auto simp: sample_process_def)
qed

end
