(* ===== verification/Sending.thy ===== *)
theory Sending
  imports Fxconfig_Process
begin

text \<open>
  What a process of \<open>fxconfig\<close> sends: the envelopes that leave it, counted over the run of any command
  line, and what the exit status of a command that waits says about the transaction. The invariant keeps
  the providers of \<open>main.go\<close> with the clients they build, and a bound on the envelopes sent so far; as a
  submission raises the bound, the triples here have a postcondition of their own.
\<close>

section \<open>Operations with a pre- and a postcondition\<close>

definition leads :: "('w \<Rightarrow> bool) \<Rightarrow> ('a, 'w) io \<Rightarrow> ('a \<Rightarrow> bool) \<Rightarrow> ('w \<Rightarrow> bool) \<Rightarrow> bool" where
  "leads I m Q J \<longleftrightarrow> (\<forall>w r w'. I w \<longrightarrow> m w = (r, w') \<longrightarrow> J w' \<and> (\<forall>x. r = Ok x \<longrightarrow> Q x))"

lemma leadsD: "leads I m Q J \<Longrightarrow> m w = (r, w') \<Longrightarrow> I w \<Longrightarrow> J w' \<and> (\<forall>x. r = Ok x \<longrightarrow> Q x)"
  by (simp add: leads_def)

lemma leads_ensures: "ensures I Q m \<longleftrightarrow> leads I m Q I"
  by (auto simp: ensures_def leads_def split: prod.splits)

lemma leads_weaken: "leads I m Q J \<Longrightarrow> (\<And>x. Q x \<Longrightarrow> R x) \<Longrightarrow> (\<And>w. J w \<Longrightarrow> K w) \<Longrightarrow> leads I m R K"
  unfolding leads_def by blast

lemma leads_pure:
  "(\<And>w. I w \<Longrightarrow> J w) \<Longrightarrow> Q x \<Longrightarrow> leads I (io_return x) Q J"
  "(\<And>w. I w \<Longrightarrow> J w) \<Longrightarrow> (\<And>x. r = Ok x \<Longrightarrow> Q x) \<Longrightarrow> leads I (io_lift r) Q J"
  "(\<And>w. I w \<Longrightarrow> J w) \<Longrightarrow> leads I (io_fail e) Q J"
  by (auto simp: leads_def)

lemma leads_bind:
  assumes "leads I m Q J" "\<And>x. Q x \<Longrightarrow> leads J (f x) R K" "\<And>w. J w \<Longrightarrow> K w"
  shows "leads I (io_bind m f) R K"
  unfolding leads_def
proof (intro allI impI)
  fix w q u assume "I w" and run: "io_bind m f w = (q, u)"
  obtain r v where m: "m w = (r, v)" by (cases "m w")
  with assms(1) \<open>I w\<close> have v: "J v" "\<And>x. r = Ok x \<Longrightarrow> Q x" by (auto simp: leads_def)
  show "K u \<and> (\<forall>x. q = Ok x \<longrightarrow> R x)"
  proof (cases r)
    case (Ok x)
    then show ?thesis using leadsD [OF assms(2) [OF v(2) [OF Ok]]] v(1) run m by simp
  qed (use run m v assms(3) in auto)
qed

lemma leads_wrap: "leads I m Q J \<Longrightarrow> leads I (io_wrap p m) Q J"
  by (fastforce simp: leads_def io_wrap_def res_simps split: prod.splits)

lemma leads_defer: "leads I m Q J \<Longrightarrow> leads J c (\<lambda>_. True) K \<Longrightarrow> leads I (io_defer c m) Q K"
  unfolding leads_def io_defer_def by (fastforce split: prod.splits result.splits)

lemma leads_case: "(\<And>a b. x = (a, b) \<Longrightarrow> leads I (f a b) Q J) \<Longrightarrow> leads I (case x of (a, b) \<Rightarrow> f a b) Q J"
  by (cases x) simp

lemma leads_on_app: "leads I m Q J \<Longrightarrow> leads (\<lambda>c. I (cli_app c)) (on_app m) Q (\<lambda>c. J (cli_app c))"
  by (auto simp: leads_def on_app_def split: prod.splits)

section \<open>Counting envelopes\<close>

definition sends :: "trace \<Rightarrow> nat" where
  "sends tr = length (filter is_send tr)"

abbreviation unsent :: "('a, trace) io \<Rightarrow> bool" where
  "unsent \<equiv> emits (\<lambda>e. \<not> is_send e)"

abbreviation unsent_libs :: "('c, 'k, 'p, 'm) main_env \<Rightarrow> app_env \<Rightarrow> bool" where
  "unsent_libs \<equiv> libs_emit (\<lambda>e. \<not> is_send e)"

lemma unsent_sends: "unsent m \<Longrightarrow> m tr = (r, tr') \<Longrightarrow> sends tr' = sends tr"
proof -
  assume "unsent m" "m tr = (r, tr')"
  then obtain evs where "tr' = tr @ evs" "list_all (\<lambda>e. \<not> is_send e) evs" using emitsD by metis
  then show ?thesis by (simp add: sends_def list_all_iff filter_False)
qed

definition real_query :: "('c, 'k, 'p, 'm) main_env \<Rightarrow> trace query_client \<Rightarrow> bool" where
  "real_query M x \<longleftrightarrow> (\<exists>qc. x = query_adapter (me_env M) qc)"

definition real_orderer :: "('c, 'k, 'p, 'm) main_env \<Rightarrow> config \<Rightarrow> trace orderer_client \<Rightarrow> bool" where
  "real_orderer M cfg x \<longleftrightarrow> (\<exists>conn. x = orderer_adapter (me_protoutil M) (me_broadcast M)
     \<lparr>oi_cfg = cfg_Orderer cfg, oi_client = Some conn, oi_closeF = Some conn\<rparr>)"

definition real_notification :: "('c, 'k, 'p, 'm) main_env \<Rightarrow> config \<Rightarrow> trace notification_client \<Rightarrow> bool" where
  "real_notification M cfg x \<longleftrightarrow> (\<exists>conn. x = notification_adapter M conn (cfg_Notifications cfg))"

text \<open>The application as \<open>main.go\<close> builds it, with at most \<open>n\<close> envelopes sent.\<close>

definition sent :: "('c, 'k, 'p, 'm) main_env \<Rightarrow> config \<Rightarrow> nat \<Rightarrow> app \<Rightarrow> bool" where
  "sent M cfg n s \<longleftrightarrow>
     (let vctx = NewValidationContext (me_policy M) (me_Stat M); lp = me_load_pair M
      in pv_ok (msp_factory M) (cfg_MSP cfg) msp_Validate vctx (signer_emits (\<lambda>e. \<not> is_send e)) (MspProvider s)
       \<and> pv_ok (query_factory M) (cfg_Queries cfg) (queries_Validate lp) vctx (real_query M) (QueryProvider s)
       \<and> pv_ok (orderer_factory M) (cfg_Orderer cfg) (orderer_Validate lp) vctx (real_orderer M cfg) (OrdererProvider s)
       \<and> pv_ok (notification_factory M) (cfg_Notifications cfg) (notifications_Validate lp) vctx
           (real_notification M cfg) (NotificationProvider s)
       \<and> sends (app_trace s) \<le> n)"

lemma sent_mono: "sent M cfg n s \<Longrightarrow> n \<le> k \<Longrightarrow> sent M cfg k s"
  by (auto simp: sent_def Let_def)

lemma sent_built: "sends tr \<le> n \<Longrightarrow> sent M cfg n (build_app M cfg tr)"
  by (simp add: sent_def build_app_def provider_New_def pv_ok_def Let_def)

lemma sent_trace: "sent M cfg n s \<Longrightarrow> sends tr \<le> k \<Longrightarrow> sent M cfg k (s\<lparr>app_trace := tr\<rparr>)"
  by (simp add: sent_def Let_def)

lemma unsent_leads: "unsent m \<Longrightarrow> leads (sent M cfg n) (on_trace m) (\<lambda>_. True) (sent M cfg n)"
  by (auto simp: leads_def on_trace_def sent_def Let_def split: prod.splits dest!: unsent_sends)

section \<open>The clients that the providers build\<close>

lemma newClientConn_unsent: "unsent (newClientConn E cfg)"
  unfolding newClientConn_def
  by (intro emits_intros emits_mono [OF createSecOpts_emits]) auto

lemma Get_sends:
  assumes "pv_ok factory cfg validate vctx Q p"
    and "\<And>tr r tr'. factory cfg tr = (r, tr') \<Longrightarrow> sends tr' = sends tr \<and> (\<forall>x. r = Ok x \<longrightarrow> Q x)"
    and "provider_Get p tr = (r, p', tr')"
  shows "pv_ok factory cfg validate vctx Q p' \<and> (\<forall>x. r = Ok (Some x) \<longrightarrow> Q x) \<and> sends tr' = sends tr"
  using assms unfolding pv_ok_def
  by (auto simp: provider_Get_def provider_cached_def Let_def split: if_splits result.splits prod.splits option.splits)

lemma factories_unsent:
  assumes "unsent_libs M A"
  shows "msp_factory M (cfg_MSP cfg) tr = (r1, tr') \<Longrightarrow>
      sends tr' = sends tr \<and> (\<forall>x. r1 = Ok x \<longrightarrow> signer_emits (\<lambda>e. \<not> is_send e) x)"
    and "query_factory M (cfg_Queries cfg) tr = (r2, tr') \<Longrightarrow> sends tr' = sends tr \<and> (\<forall>x. r2 = Ok x \<longrightarrow> real_query M x)"
    and "orderer_factory M (cfg_Orderer cfg) tr = (r3, tr') \<Longrightarrow> sends tr' = sends tr \<and> (\<forall>x. r3 = Ok x \<longrightarrow> real_orderer M cfg x)"
    and "notification_factory M (cfg_Notifications cfg) tr = (r4, tr') \<Longrightarrow>
      sends tr' = sends tr \<and> (\<forall>x. r4 = Ok x \<longrightarrow> real_notification M cfg x)"
  using msp_factory_emits(2) [OF assms] unsent_sends [OF msp_factory_emits(1) [OF assms]]
    unsent_sends [OF newClientConn_unsent]
  by (auto simp: query_factory_def orderer_factory_def notification_factory_def NewQueryClient_def NewOrdererClient_def
      NewNotificationClient_def io_bind_def io_wrap_def real_query_def real_orderer_def real_notification_def
      split: prod.splits result.splits)

lemma leads_Get_signer:
  assumes "unsent_libs M A"
  shows "leads (sent M cfg n) MspProvider_Get (\<lambda>sid. \<forall>x. sid = Some x \<longrightarrow> signer_emits (\<lambda>e. \<not> is_send e) x) (sent M cfg n)"
  unfolding leads_def
proof (intro allI impI)
  fix s r s' assume s: "sent M cfg n s" and run: "MspProvider_Get s = (r, s')"
  obtain q p tr where g: "provider_Get (MspProvider s) (app_trace s) = (q, p, tr)" by (rule prod_cases3)
  show "sent M cfg n s' \<and> (\<forall>y. r = Ok y \<longrightarrow> (\<forall>x. y = Some x \<longrightarrow> signer_emits (\<lambda>e. \<not> is_send e) x))"
    using Get_sends [OF _ factories_unsent(1) [OF assms] g] s run g
    by (auto simp: MspProvider_Get_def sent_def Let_def)
qed

lemma leads_Get_query:
  assumes "unsent_libs M A"
  shows "leads (sent M cfg n) QueryProvider_Get (\<lambda>qc. \<forall>x. qc = Some x \<longrightarrow> real_query M x) (sent M cfg n)"
  unfolding leads_def
proof (intro allI impI)
  fix s r s' assume s: "sent M cfg n s" and run: "QueryProvider_Get s = (r, s')"
  obtain q p tr where g: "provider_Get (QueryProvider s) (app_trace s) = (q, p, tr)" by (rule prod_cases3)
  show "sent M cfg n s' \<and> (\<forall>y. r = Ok y \<longrightarrow> (\<forall>x. y = Some x \<longrightarrow> real_query M x))"
    using Get_sends [OF _ factories_unsent(2) [OF assms] g] s run g
    by (auto simp: QueryProvider_Get_def sent_def Let_def)
qed

lemma leads_Get_orderer:
  assumes "unsent_libs M A"
  shows "leads (sent M cfg n) OrdererProvider_Get (\<lambda>oc. \<forall>x. oc = Some x \<longrightarrow> real_orderer M cfg x) (sent M cfg n)"
  unfolding leads_def
proof (intro allI impI)
  fix s r s' assume s: "sent M cfg n s" and run: "OrdererProvider_Get s = (r, s')"
  obtain q p tr where g: "provider_Get (OrdererProvider s) (app_trace s) = (q, p, tr)" by (rule prod_cases3)
  show "sent M cfg n s' \<and> (\<forall>y. r = Ok y \<longrightarrow> (\<forall>x. y = Some x \<longrightarrow> real_orderer M cfg x))"
    using Get_sends [OF _ factories_unsent(3) [OF assms] g] s run g
    by (auto simp: OrdererProvider_Get_def sent_def Let_def)
qed

lemma leads_Get_notification:
  assumes "unsent_libs M A"
  shows "leads (sent M cfg n) NotificationProvider_Get (\<lambda>nc. \<forall>x. nc = Some x \<longrightarrow> real_notification M cfg x) (sent M cfg n)"
  unfolding leads_def
proof (intro allI impI)
  fix s r s' assume s: "sent M cfg n s" and run: "NotificationProvider_Get s = (r, s')"
  obtain q p tr where g: "provider_Get (NotificationProvider s) (app_trace s) = (q, p, tr)" by (rule prod_cases3)
  show "sent M cfg n s' \<and> (\<forall>y. r = Ok y \<longrightarrow> (\<forall>x. y = Some x \<longrightarrow> real_notification M cfg x))"
    using Get_sends [OF _ factories_unsent(4) [OF assms] g] s run g
    by (auto simp: NotificationProvider_Get_def sent_def Let_def)
qed

section \<open>The operations of the application\<close>

lemma unsent_clients:
  "\<forall>x. qc = Some x \<longrightarrow> real_query M x \<Longrightarrow> unsent (qc_GetNamespacePolicies (the_query qc))
    \<and> unsent (qc_GetConfigVersion (the_query qc)) \<and> unsent (qc_Close (the_query qc))"
  "\<forall>x. oc = Some x \<longrightarrow> real_orderer M cfg x \<Longrightarrow> unsent (oc_Close (the_orderer oc))"
  "\<forall>x. nc = Some x \<longrightarrow> real_notification M cfg x \<Longrightarrow> unsent (nc_Subscribe (the_notification nc) txID)
    \<and> unsent (nc_WaitForEvent (the_notification nc) ch) \<and> unsent (nc_Close (the_notification nc))"
proof -
  show "unsent (qc_GetNamespacePolicies (the_query qc)) \<and> unsent (qc_GetConfigVersion (the_query qc))
      \<and> unsent (qc_Close (the_query qc))" if "\<forall>x. qc = Some x \<longrightarrow> real_query M x"
    using that
    by (cases qc) (auto simp: the_query_def real_query_def query_adapter_def nil_call_def query_GetNamespacePolicies_def
        query_GetConfigVersion_def query_Close_def intro!: emits_intros split: option.split)
  show "unsent (oc_Close (the_orderer oc))" if "\<forall>x. oc = Some x \<longrightarrow> real_orderer M cfg x"
    using that
    by (cases oc) (auto simp: the_orderer_def real_orderer_def orderer_adapter_def orderer_Close_def nil_call_def
        intro!: emits_intros)
  show "unsent (nc_Subscribe (the_notification nc) txID) \<and> unsent (nc_WaitForEvent (the_notification nc) ch)
      \<and> unsent (nc_Close (the_notification nc))" if "\<forall>x. nc = Some x \<longrightarrow> real_notification M cfg x"
    using that
    by (cases nc) (auto simp: the_notification_def real_notification_def notification_adapter_def nil_call_def
        intro!: emits_intros)
qed

text \<open>A broadcast: what it does before it sends, and the one envelope at most that it sends.\<close>

lemma envelope_unsent:
  "\<forall>s. sid = Some s \<longrightarrow> signer_emits (\<lambda>e. \<not> is_send e) s \<Longrightarrow> unsent (createSignedEnvelope pu oc sid txID t)"
  by (rule createSignedEnvelope_quiet) auto

lemma sends_append [simp]: "sends (tr @ evs) = sends tr + sends evs"
  by (simp add: sends_def)

lemma Broadcast_sends:
  assumes "\<forall>s. sid = Some s \<longrightarrow> signer_emits (\<lambda>e. \<not> is_send e) s" "oi_client oc = Some conn"
    and "Broadcast pu B oc sid txID t tr = (r, tr')"
  shows "sends tr' \<le> Suc (sends tr)"
proof -
  obtain q v where m: "createSignedEnvelope pu oc sid txID t tr = (q, v)" by fastforce
  have v: "sends v = sends tr" by (rule unsent_sends [OF envelope_unsent [OF assms(1)] m])
  show ?thesis
  proof (cases q)
    case (Ok env)
    then have "send B oc env v = (r, tr')" using assms(3) m by (simp add: Broadcast_def)
    from send_cases [OF this assms(2)] show ?thesis using v by (auto simp: sends_def)
  qed (use assms(3) m v in \<open>auto simp: Broadcast_def\<close>)
qed

lemma leads_Broadcast:
  assumes "\<forall>s. sid = Some s \<longrightarrow> signer_emits (\<lambda>e. \<not> is_send e) s" "\<forall>x. oc = Some x \<longrightarrow> real_orderer M cfg x"
  shows "leads (sent M cfg n) (on_trace (oc_Broadcast (the_orderer oc) sid txID t)) (\<lambda>_. True) (sent M cfg (Suc n))"
proof -
  have "sends tr' \<le> Suc (sends tr)" if "oc_Broadcast (the_orderer oc) sid txID t tr = (r, tr')" for tr tr' r
  proof (cases oc)
    case (Some x)
    then obtain conn where x: "x = orderer_adapter (me_protoutil M) (me_broadcast M)
        \<lparr>oi_cfg = cfg_Orderer cfg, oi_client = Some conn, oi_closeF = Some conn\<rparr>"
      using assms(2) by (auto simp: real_orderer_def)
    show ?thesis
      by (rule Broadcast_sends [OF assms(1), of _ conn "me_protoutil M" "me_broadcast M" txID t _ r])
        (use that x Some in \<open>auto simp: the_orderer_def orderer_adapter_def\<close>)
  qed (use that in \<open>simp add: the_orderer_def nil_call_def\<close>)
  then show ?thesis
    unfolding leads_def on_trace_def by (fastforce simp: sent_def Let_def split: prod.splits)
qed

text \<open>A submission sends one envelope at most, any other operation none.\<close>

lemma leads_submit:
  assumes "unsent_libs M A"
  shows "leads (sent M cfg n) (SubmitTransaction txID t) (\<lambda>_. True) (sent M cfg (Suc n))"
    and "leads (sent M cfg n) (SubmitTransactionWithWait txID t) (\<lambda>_. True) (sent M cfg (Suc n))"
proof -
  let ?I = "sent M cfg n" and ?J = "sent M cfg (Suc n)"
  let ?S = "\<lambda>sid. \<forall>s. sid = Some s \<longrightarrow> signer_emits (\<lambda>e. \<not> is_send e) s"
  let ?O = "\<lambda>oc. \<forall>x. oc = Some x \<longrightarrow> real_orderer M cfg x"
  have up: "?J w" if "?I w" for w by (rule sent_mono [OF that]) simp
  have prep: "leads ?I prepareSubmission (\<lambda>(sid, oc). ?S sid \<and> ?O oc) ?I"
    unfolding prepareSubmission_def
    by (rule leads_bind [OF leads_wrap [OF leads_Get_signer [OF assms]]],
        rule leads_bind [OF leads_wrap [OF leads_Get_orderer [OF assms]]]) (auto intro: leads_pure)
  note close = unsent_leads [OF unsent_clients(2)] and bc = leads_Broadcast
  have "leads ?I (case p of (sid, oc) \<Rightarrow> io_defer (on_trace (oc_Close (the_orderer oc)))
      (io_wrap w (on_trace (oc_Broadcast (the_orderer oc) sid txID t)))) (\<lambda>_. True) ?J"
    if "case p of (sid, oc) \<Rightarrow> ?S sid \<and> ?O oc" for p w
    using that by (intro leads_case leads_defer leads_wrap) (auto intro!: close bc)
  then show "leads ?I (SubmitTransaction txID t) (\<lambda>_. True) ?J"
    unfolding SubmitTransaction_def using up by (intro leads_bind [OF leads_wrap [OF prep]]) blast+
  have body: "leads ?I (submit_and_wait sid (the_orderer oc) (the_notification nc) txID t) (\<lambda>_. True) ?J"
    if "?S sid" "?O oc" "\<forall>x. nc = Some x \<longrightarrow> real_notification M cfg x" for sid oc nc
    unfolding submit_and_wait_def
    using unsent_clients(3) [OF that(3)] up
    by (intro leads_bind [where Q = "\<lambda>_. True" and J = ?I] leads_bind [where Q = "\<lambda>_. True" and J = ?J]
        leads_wrap bc [OF that(1,2)] unsent_leads) blast+
  have nc_close: "unsent (nc_Close (the_notification nc))" if "\<forall>x. nc = Some x \<longrightarrow> real_notification M cfg x" for nc
    using unsent_clients(3) [OF that] by blast
  have "leads ?I (case p of (sid, oc) \<Rightarrow> io_defer (on_trace (oc_Close (the_orderer oc)))
      (io_bind (io_wrap w NotificationProvider_Get) (\<lambda>nc. io_defer (on_trace (nc_Close (the_notification nc)))
        (submit_and_wait sid (the_orderer oc) (the_notification nc) txID t)))) (\<lambda>_. True) ?J"
    if "case p of (sid, oc) \<Rightarrow> ?S sid \<and> ?O oc" for p w
    using that up unsent_clients(3)
    by (intro leads_case leads_defer [where J = ?J] leads_bind [OF leads_wrap [OF leads_Get_notification [OF assms]]]
        close unsent_leads) (auto intro: body simp: nc_close)
  then show "leads ?I (SubmitTransactionWithWait txID t) (\<lambda>_. True) ?J"
    unfolding SubmitTransactionWithWait_def using up by (intro leads_bind [OF leads_wrap [OF prep]]) blast+
qed

lemma leads_endorse:
  assumes "unsent_libs M A"
  shows "leads (sent M cfg n) (EndorseTransaction A' txID t) (\<lambda>_. True) (sent M cfg n)"
proof -
  have "signer_emits (\<lambda>e. \<not> is_send e) (the_signer sid)"
    if "\<forall>s. sid = Some s \<longrightarrow> signer_emits (\<lambda>e. \<not> is_send e) s" for sid
    using that by (cases sid) (auto simp: the_signer_def signer_emits_def nil_call_def intro!: emits_intros)
  then show ?thesis
    unfolding EndorseTransaction_def
    by (intro leads_bind [OF leads_Get_signer [OF assms]] unsent_leads quiet_Endorse)
qed

lemma leads_list:
  assumes "unsent_libs M A"
  shows "leads (sent M cfg n) ListNamespaces (\<lambda>_. True) (sent M cfg n)"
  unfolding ListNamespaces_def
  by (intro leads_bind [OF leads_Get_query [OF assms]] leads_defer [where J = "sent M cfg n"]
      leads_bind [where Q = "\<lambda>_. True" and J = "sent M cfg n"] leads_wrap unsent_leads leads_pure)
    (simp_all add: unsent_clients)

lemma leads_create:
  assumes "unsent_libs M A"
  shows "leads (sent M cfg n) (create_with A input pol) (\<lambda>_. True) (sent M cfg n)"
proof -
  have "leads (sent M cfg n) configVersion (\<lambda>_. True) (sent M cfg n)"
    unfolding configVersion_def
    by (intro leads_bind [OF leads_Get_query [OF assms]] leads_defer [where J = "sent M cfg n"] unsent_leads) (simp_all add: unsent_clients)
  then show ?thesis
    unfolding create_with_def
    by (intro leads_bind [where Q = "\<lambda>_. True" and J = "sent M cfg n"] leads_wrap unsent_leads
        quiet_GenerateTxID [OF assms] leads_pure) auto
qed

lemma leads_deploy:
  assumes "unsent_libs M A" "DeployNamespace A input = Some m"
  shows "leads (sent M cfg n) m (\<lambda>_. True)
    (sent M cfg (if in_Endorse input \<and> (in_Submit input \<or> in_Wait input) then Suc n else n))"
  using assms(2)
proof (cases rule: DeployNamespace_cases)
  case (valid p)
  let ?I = "sent M cfg n" and ?J = "sent M cfg (if in_Endorse input \<and> (in_Submit input \<or> in_Wait input) then Suc n else n)"
  have up: "?J w" if "?I w" for w using sent_mono [OF that] by simp
  note seq = leads_bind [where Q = "\<lambda>_. True" and J = ?I]
  have "leads ?I (deploy_rest A input out) (\<lambda>_. True) ?J" for out
  proof (cases "in_Endorse input \<and> (in_Submit input \<or> in_Wait input)")
    case True
    then have J: "?J = sent M cfg (Suc n)" by simp
    have "leads ?I (io_bind (SubmitTransactionWithWait i t) (\<lambda>x. io_return (f x))) (\<lambda>_. True) ?J"
      "leads ?I (io_bind (SubmitTransaction i t) (\<lambda>x. io_return (g x))) (\<lambda>_. True) ?J" for i t f g
      unfolding J
      by (rule leads_bind [OF leads_submit(2) [OF assms(1)]], simp_all add: leads_pure del: io_bind_return)
        (rule leads_bind [OF leads_submit(1) [OF assms(1)]], simp_all add: leads_pure)
    note last = this
    have "deploy_rest A input out = io_bind (EndorseTransaction A (out_TxID out) (out_Tx out)) (\<lambda>t.
        if in_Wait input then io_bind (SubmitTransactionWithWait (out_TxID out) (Some t)) (\<lambda>status. io_return (None, status))
        else io_bind (SubmitTransaction (out_TxID out) (Some t)) (\<lambda>_. io_return (None, UnknownStatus)))"
      unfolding deploy_rest_def Let_def using True by (auto intro!: arg_cong [where f = "io_bind _"] simp del: io_bind_return)
    then show ?thesis
      using last up by (auto intro!: seq [OF leads_endorse [OF assms(1)]])
  next
    case False
    then show ?thesis
      unfolding deploy_rest_def Let_def using leads_endorse [OF assms(1)]
      by (auto intro!: seq leads_pure simp del: io_return_apply)
  qed
  then show ?thesis
    unfolding valid(3) using leads_create [OF assms(1)] up by (intro seq leads_pure) auto
qed (simp_all add: leads_def sent_mono)

section \<open>The commands\<close>

text \<open>What an invocation asks for: the words that call a command and the last value given to a flag.\<close>

definition given_true :: "invocation \<Rightarrow> string \<Rightarrow> bool" where
  "given_true call name \<longleftrightarrow> map_of (rev (inv_flags call)) name = Some (Flag_Bool True)"

definition calls_submit :: "invocation \<Rightarrow> bool" where
  "calls_submit call \<longleftrightarrow> take 2 (inv_words call) = [''tx'', ''submit'']"

definition calls_deploy :: "invocation \<Rightarrow> bool" where
  "calls_deploy call \<longleftrightarrow> take 2 (inv_words call) \<in> {[''namespace'', ''create''], [''namespace'', ''update'']}"

definition asks_to_submit :: "invocation \<Rightarrow> bool" where
  "asks_to_submit call \<longleftrightarrow> calls_submit call
     \<or> calls_deploy call \<and> given_true call ''endorse'' \<and> (given_true call ''submit'' \<or> given_true call ''wait'')"

definition asks_to_wait :: "invocation \<Rightarrow> bool" where
  "asks_to_wait call \<longleftrightarrow> given_true call ''wait'' \<and> (calls_submit call \<or> calls_deploy call \<and> given_true call ''endorse'')"

lemma flag_bool_lookup:
  assumes "list_all (\<lambda>f. cf_name f = name \<longrightarrow> cf_default f = Flag_Bool False) fs"
  shows "flag_bool (flag_lookup fs (inv_flags call) name) \<longleftrightarrow> given_true call name"
proof (cases "map_of (rev (inv_flags call)) name")
  case None
  then have "flag_bool (flag_lookup fs (inv_flags call) name) = False"
    using assms by (auto simp: flag_lookup_def find_Some_iff list_all_iff split: option.splits)
  then show ?thesis using None by (simp add: given_true_def)
next
  case (Some v)
  then show ?thesis by (cases v) (simp_all add: flag_lookup_def given_true_def)
qed

lemma command_bools:
  "flag_bool (flag_lookup (cmd_Flags newTxSubmitCommand @ [config_flag]) (inv_flags call) ''wait'') = given_true call ''wait''"
  "deployFlags_vars (flag_lookup (cmd_Flags newNsCreateCommand @ [config_flag]) (inv_flags call)) =
     \<lparr>fl_endorse = given_true call ''endorse'', fl_submit = given_true call ''submit'', fl_wait = given_true call ''wait''\<rparr>"
  "deployFlags_vars (flag_lookup (cmd_Flags newNsUpdateCommand @ [config_flag]) (inv_flags call)) =
     \<lparr>fl_endorse = given_true call ''endorse'', fl_submit = given_true call ''submit'', fl_wait = given_true call ''wait''\<rparr>"
  unfolding deployFlags_vars_def newTxSubmitCommand_def newNsCreateCommand_def newNsUpdateCommand_def Let_def
  by (simp_all add: flag_bool_lookup bind_defs config_flag_def)

text \<open>The triple of a command, from those of the operations of the application it runs.\<close>

abbreviation runs_app :: "(app \<Rightarrow> bool) \<Rightarrow> ('a, cli) io \<Rightarrow> (app \<Rightarrow> bool) \<Rightarrow> bool" where
  "runs_app I m J \<equiv> leads (\<lambda>c. I (cli_app c)) m (\<lambda>_. True) (\<lambda>c. J (cli_app c))"

lemma runs_app_bind:
  "runs_app I m J \<Longrightarrow> (\<And>x. runs_app J (f x) K) \<Longrightarrow> (\<And>s. J s \<Longrightarrow> K s) \<Longrightarrow> runs_app I (io_bind m f) K"
  by (rule leads_bind [where Q = "\<lambda>_. True" and J = "\<lambda>c. J (cli_app c)"])

lemma runs_app_keeps: "keeps_app I m = runs_app I m I"
  by (rule leads_ensures)

lemma runs_deploy:
  assumes "unsent_libs M A" "ctx_App ctx = A" "run_deploy ctx input output = Some m"
  shows "runs_app (sent M cfg n) m (sent M cfg (if in_Endorse input \<and> (in_Submit input \<or> in_Wait input) then Suc n else n))"
proof -
  let ?J = "sent M cfg (if in_Endorse input \<and> (in_Submit input \<or> in_Wait input) then Suc n else n)"
  obtain d where d: "DeployNamespace A input = Some d"
    and m: "m = io_bind (on_app d) (\<lambda>(res, status).
       case res of
         None \<Rightarrow> io_bind (print_status ctx status) (\<lambda>_.
           if in_Wait input then io_lift (requireCommitted ctx status) else io_return ())
       | Some out \<Rightarrow> write_tx ctx output (out_TxID out) (out_Tx out))"
    using assms(2,3) by (auto simp: run_deploy_def)
  show ?thesis
    unfolding m
    by (rule runs_app_bind [OF leads_on_app [OF leads_deploy [OF assms(1) d, where n = n]]])
      (unfold runs_app_keeps [symmetric], auto intro!: keeps_intros)
qed

lemma runs_submit:
  assumes "unsent_libs M A"
  shows "runs_app (sent M cfg n) (tx_submit_RunE ctx wait path) (sent M cfg (Suc n))"
proof -
  note read = keeps_read_tx [of "sent M cfg n" ctx path, unfolded runs_app_keeps]
  have "runs_app (sent M cfg n) (case p of (txID, t) \<Rightarrow>
       if wait then
         io_bind (on_app (SubmitTransactionWithWait txID (Some t))) (\<lambda>status.
         io_bind (print_status ctx status) (\<lambda>_. io_lift (requireCommitted ctx status)))
       else on_app (SubmitTransaction txID (Some t))) (sent M cfg (Suc n))" for p
  proof (cases p)
    case (Pair txID t)
    have "runs_app (sent M cfg n) (io_bind (on_app (SubmitTransactionWithWait txID (Some t))) (\<lambda>status.
         io_bind (print_status ctx status) (\<lambda>_. io_lift (requireCommitted ctx status)))) (sent M cfg (Suc n))"
      by (rule runs_app_bind [OF leads_on_app [OF leads_submit(2) [OF assms]]])
        (unfold runs_app_keeps [symmetric], intro keeps_intros)
    then show ?thesis using leads_on_app [OF leads_submit(1) [OF assms]] Pair by simp
  qed
  then show ?thesis
    unfolding tx_submit_RunE_def by (rule runs_app_bind [OF read]) (rule sent_mono, auto)
qed

lemma with_first_arg_Some:
  assumes "with_first_arg g args = Some m"
  obtains (run) a as where "args = a # as" "g a = Some m" | (none) q where "m = io_lift (Panic q)"
  using assms by (cases args) (auto simp: with_first_arg_def first_arg_def)

lemma command_sends:
  fixes P :: "('v, 'c, 'k, 'p, 'm, 'j) process_env" and r :: "'j runner"
  assumes libs: "unsent_libs (pe_main P) (process_app_env P)"
    and res: "resolve (fxconfig_root P) call = Run r hook args vals complete"
    and m: "r (process_command_env P cfg) vals args = Some m"
  shows "runs_app (sent (pe_main P) cfg n) m (sent (pe_main P) cfg (if asks_to_submit call then Suc n else n))"
proof -
  let ?I = "sent (pe_main P) cfg n" and ?J = "sent (pe_main P) cfg (if asks_to_submit call then Suc n else n)"
  let ?E = "process_command_env P cfg" and ?ctx = "process_context P"
  have A: "ctx_App ?ctx = process_app_env P" and E: "ce_ctx ?E = ?ctx"
    by (simp_all add: process_context_def process_command_env_def)
  have keep: "runs_app ?I m ?J" if "keeps_app ?I m" for m :: "(unit, cli) io"
    using that unfolding runs_app_keeps by (rule leads_weaken) (auto intro: sent_mono)
  have panic: "runs_app ?I (io_lift (Panic q) :: (unit, cli) io) ?J" for q by (intro keep keeps_pure)
  have deploy: "runs_app ?I m ?J"
    if "with_first_arg (\<lambda>name. run_deploy ?ctx (flags_input name v pol
        \<lparr>fl_endorse = given_true call ''endorse'', fl_submit = given_true call ''submit'', fl_wait = given_true call ''wait''\<rparr>) out) args = Some m"
      "calls_deploy call" for m v pol out
    using that(1)
  proof (cases rule: with_first_arg_Some)
    case (run a as)
    have "\<not> calls_submit call" using that(2) by (auto simp: calls_submit_def calls_deploy_def)
    then show ?thesis
      using runs_deploy [OF libs A run(2), of cfg n] that(2) by (simp add: flags_input_def asks_to_submit_def)
  qed (simp add: panic)
  note app = keeps_intros keeps_on_app leads_endorse [OF libs, folded leads_ensures] leads_list [OF libs, folded leads_ensures]
  have endorse: "keeps_app ?I (tx_endorse_RunE ?ctx out x)" for out x
    unfolding tx_endorse_RunE_def by (intro app)
  have merge: "keeps_app ?I (tx_merge_RunE ?ctx out xs)" for out xs
    unfolding tx_merge_RunE_def MergeTransactions_def by (intro app ensures_pure TrueI)
  have list: "keeps_app ?I (ns_list_RunE ?ctx)"
    unfolding ns_list_RunE_def by (intro app)
  have info: "keeps_app ?I (info_RunE ?ctx y c fmt)" for y c fmt
    unfolding info_RunE_def by (intro keeps_intros)
  obtain path c where leaf: "(path, c :: ('j runner, flag_values \<Rightarrow> (config \<times> app) result) command) \<in> set leaf_commands"
    and c: "inv_words call = path @ args" "cmd_RunE (cmd_fields c) = Some r"
    "vals = flag_lookup (cmd_Flags c @ [config_flag]) (inv_flags call)"
    using resolve_leaf [OF res [unfolded fxconfig_root_def]] by blast
  have eta: "ns_create_RunE ?ctx pol out fl = (\<lambda>name. run_deploy ?ctx (flags_input name (-1) pol fl) out)"
    "ns_update_RunE ?ctx v pol out fl = (\<lambda>name. run_deploy ?ctx (flags_input name v pol fl) out)" for v pol out fl
    by (simp_all add: fun_eq_iff ns_create_RunE_def ns_update_RunE_def)
  have r: "r ?E vals args = Some m" "Some r = cmd_RunE (cmd_fields c)" using m c(2) by simp_all
  from leaf show ?thesis
    unfolding leaf_commands_def list.set insert_iff empty_iff prod.inject
  proof (elim disjE conjE)
    assume p: "path = [''namespace'', ''create'']" "c = newNsCreateCommand"
    then have "calls_deploy call" using c(1) by (simp add: calls_deploy_def)
    then show ?thesis
      using r p c(3) deploy by (simp add: leaf_RunE E command_bools eta split del: if_split)
  next
    assume p: "path = [''namespace'', ''update'']" "c = newNsUpdateCommand"
    then have "calls_deploy call" using c(1) by (simp add: calls_deploy_def)
    then show ?thesis
      using r p c(3) deploy by (simp add: leaf_RunE E command_bools eta split del: if_split)
  next
    assume p: "path = [''tx'', ''submit'']" "c = newTxSubmitCommand"
    then have "asks_to_submit call" using c(1) by (simp add: asks_to_submit_def calls_submit_def)
    then show ?thesis
      using r p runs_submit [OF libs] panic by (auto simp: leaf_RunE E elim!: with_first_arg_Some)
  next
    assume "path = [''tx'', ''endorse'']" "c = newTxEndorseCommand"
    then show ?thesis using r endorse panic by (auto simp: leaf_RunE E elim!: with_first_arg_Some intro: keep split del: if_split)
  qed (use r merge list info in \<open>auto simp: leaf_RunE E intro!: keep intro: keeps_on_streams split del: if_split\<close>)
qed

section \<open>A confirmed transaction\<close>

text \<open>
  What a confirmed submission has done, in this order: subscribed to the transaction, sent one envelope
  with the transaction for the configured channel, had it accepted, waited on that subscription, and been told
  \<open>status\<close>.
\<close>

definition confirmed ::
    "('c, 'k, 'p, 'm) main_env \<Rightarrow> config \<Rightarrow> int \<Rightarrow> string \<Rightarrow> tx option \<Rightarrow> trace \<Rightarrow> bool" where
  "confirmed M cfg status txID t tr \<longleftrightarrow>
     (\<exists>pre nconn sub sig oconn abc env.
        let waiting = WaitingTimeout (cfg_Notifications cfg);
            sending = pre @ [Ev_Subscribe nconn txID waiting] @ sig @ [Ev_OpenBroadcast oconn, Ev_Send abc env];
            answered = sending @ [Ev_Recv abc]
        in sends pre = 0 \<and> sends sig = 0
         \<and> me_Subscribe M nconn txID pre = Ok sub
         \<and> payload_of (me_protoutil M) (Channel (cfg_Orderer cfg)) txID t (env_Payload env)
         \<and> be_Recv (me_broadcast M) abc sending = Ok Status_SUCCESS
         \<and> me_WaitForEvent M nconn sub answered = Ok status
         \<and> tr = answered @ [Ev_WaitForEvent nconn sub waiting, Ev_ConnClose nconn, Ev_ConnClose oconn])"

lemma Broadcast_Ok:
  assumes "Broadcast pu B \<lparr>oi_cfg = ocfg, oi_client = Some conn, oi_closeF = Some conn\<rparr> sid txID t tr = (Ok u, tr')"
    and "\<forall>s. sid = Some s \<longrightarrow> signer_emits (\<lambda>e. \<not> is_send e) s"
  shows "\<exists>sig abc env. sends sig = 0 \<and> payload_of pu (Channel ocfg) txID t (env_Payload env)
    \<and> be_Recv B abc (tr @ sig @ [Ev_OpenBroadcast conn, Ev_Send abc env]) = Ok Status_SUCCESS
    \<and> tr' = tr @ sig @ [Ev_OpenBroadcast conn, Ev_Send abc env, Ev_Recv abc]"
proof -
  let ?oc = "\<lparr>oi_cfg = ocfg, oi_client = Some conn, oi_closeF = Some conn\<rparr>"
  obtain env v where m: "createSignedEnvelope pu ?oc sid txID t tr = (Ok env, v)" and s: "send B ?oc env v = (Ok u, tr')"
    using assms(1) by (auto simp: Broadcast_def io_bind_Ok_iff)
  obtain sig where v: "v = tr @ sig" "list_all (\<lambda>e. \<not> is_send e) sig"
    using emitsD [OF envelope_unsent [OF assms(2)] m] by blast
  then have "sends sig = 0" by (simp add: sends_def list_all_iff filter_False)
  moreover obtain s' tr1 where "payload_of pu (Channel ocfg) txID t (env_Payload env)"
    using createSignedEnvelope_Ok [OF m] by (metis orderer_client_impl.select_convs(1))
  ultimately show ?thesis using send_cases [OF s, of conn] v(1) by fastforce
qed

lemma the_real_orderer:
  assumes "oc_Broadcast (the_orderer oc) sid txID t tr = (Ok u, tr')" "\<forall>x. oc = Some x \<longrightarrow> real_orderer M cfg x"
  obtains conn where "the_orderer oc = orderer_adapter (me_protoutil M) (me_broadcast M)
      \<lparr>oi_cfg = cfg_Orderer cfg, oi_client = Some conn, oi_closeF = Some conn\<rparr>"
  using assms by (cases oc) (auto simp: the_orderer_def nil_call_def real_orderer_def)

lemma the_real_notification:
  assumes "nc_Subscribe (the_notification nc) txID tr = (Ok u, tr')" "\<forall>x. nc = Some x \<longrightarrow> real_notification M cfg x"
  obtains conn where "the_notification nc = notification_adapter M conn (cfg_Notifications cfg)"
  using assms by (cases nc) (auto simp: the_notification_def nil_call_def real_notification_def)

lemma submit_wait_confirmed:
  assumes "unsent_libs M A" "sent M cfg 0 s" "SubmitTransactionWithWait txID t s = (Ok status, s')"
  shows "confirmed M cfg status txID t (app_trace s')"
proof -
  obtain sid oc nc sub s1 s2 tr1 tr2 tr3 tr4 q1 q2 where
    run: "prepareSubmission s = (Ok (sid, oc), s1)" "NotificationProvider_Get s1 = (Ok nc, s2)"
    "nc_Subscribe (the_notification nc) txID (app_trace s2) = (Ok sub, tr1)"
    "oc_Broadcast (the_orderer oc) sid txID t tr1 = (Ok (), tr2)"
    "nc_WaitForEvent (the_notification nc) sub tr2 = (Ok status, tr3)"
    "nc_Close (the_notification nc) tr3 = (q1, tr4)" "oc_Close (the_orderer oc) tr4 = (q2, app_trace s')"
    using submit_wait_Ok [OF assms(3)] by metis
  obtain v where v: "MspProvider_Get s = (Ok sid, v)" "OrdererProvider_Get v = (Ok oc, s1)"
    using prepare_Ok [OF run(1)] by blast
  note sid = leadsD [OF leads_Get_signer [OF assms(1)] v(1) assms(2)]
  note oc = leadsD [OF leads_Get_orderer [OF assms(1)] v(2) conjunct1 [OF sid]]
  note nc = leadsD [OF leads_Get_notification [OF assms(1)] run(2) conjunct1 [OF oc]]
  have good: "\<forall>s. sid = Some s \<longrightarrow> signer_emits (\<lambda>e. \<not> is_send e) s" "\<forall>x. oc = Some x \<longrightarrow> real_orderer M cfg x"
    "\<forall>x. nc = Some x \<longrightarrow> real_notification M cfg x" "sends (app_trace s2) = 0"
    using sid oc nc by (simp_all add: sent_def Let_def)
  obtain oconn where o: "the_orderer oc = orderer_adapter (me_protoutil M) (me_broadcast M)
      \<lparr>oi_cfg = cfg_Orderer cfg, oi_client = Some oconn, oi_closeF = Some oconn\<rparr>"
    using the_real_orderer [OF run(4) good(2)] by blast
  obtain nconn where n: "the_notification nc = notification_adapter M nconn (cfg_Notifications cfg)"
    using the_real_notification [OF run(3) good(3)] by blast
  let ?w = "WaitingTimeout (cfg_Notifications cfg)"
  have sub: "me_Subscribe M nconn txID (app_trace s2) = Ok sub" "tr1 = app_trace s2 @ [Ev_Subscribe nconn txID ?w]"
    using run(3) n by (simp_all add: notification_adapter_def)
  obtain sig abc env where b: "sends sig = 0"
    "payload_of (me_protoutil M) (Channel (cfg_Orderer cfg)) txID t (env_Payload env)"
    "be_Recv (me_broadcast M) abc (tr1 @ sig @ [Ev_OpenBroadcast oconn, Ev_Send abc env]) = Ok Status_SUCCESS"
    "tr2 = tr1 @ sig @ [Ev_OpenBroadcast oconn, Ev_Send abc env, Ev_Recv abc]"
    using Broadcast_Ok [OF run(4) [unfolded o orderer_adapter_def orderer_client.select_convs] good(1)] by blast
  have "me_WaitForEvent M nconn sub tr2 = Ok status"
    "app_trace s' = tr2 @ [Ev_WaitForEvent nconn sub ?w, Ev_ConnClose nconn, Ev_ConnClose oconn]"
    using run(5-7) unfolding n o by (auto simp: notification_adapter_def orderer_adapter_def orderer_Close_def)
  then show ?thesis
    unfolding confirmed_def Let_def using sub b good(4)
    by (intro exI [of _ "app_trace s2"] exI [of _ nconn] exI [of _ sub] exI [of _ sig] exI [of _ oconn]
        exI [of _ abc] exI [of _ env]) simp
qed

text \<open>The commands that wait: when they end without an error, and what they have done then.\<close>

lemma keeps_read_app: "m = read_tx ctx path \<Longrightarrow> m c = (r, c') \<Longrightarrow> cli_app c' = cli_app c"
  using keepsD [OF keeps_read_tx [of "\<lambda>s. s = cli_app c" ctx path]] by simp

lemma print_status_run:
  "io_bind (print_status ctx status) (\<lambda>_. io_lift (requireCommitted ctx status)) c = (Ok u, c') \<Longrightarrow>
     status = ctx_COMMITTED ctx \<and> cli_app c' = cli_app c"
  by (auto simp: print_status_def cli_Print_def Print_def print_value_def NewCLIPrinter_def on_streams_def io_bind_def requireCommitted_def
      split: if_splits)

lemma submit_wait_run:
  assumes "tx_submit_RunE ctx True path c = (Ok u, c')"
  obtains txID t c1 where "read_tx ctx path c = (Ok (txID, t), c1)"
    and "SubmitTransactionWithWait txID (Some t) (cli_app c) = (Ok (ctx_COMMITTED ctx), cli_app c')"
proof -
  obtain txID t c1 where read: "read_tx ctx path c = (Ok (txID, t), c1)"
    and rest: "io_bind (on_app (SubmitTransactionWithWait txID (Some t))) (\<lambda>status.
         io_bind (print_status ctx status) (\<lambda>_. io_lift (requireCommitted ctx status))) c1 = (Ok u, c')"
    using assms by (auto simp: tx_submit_RunE_def io_bind_Ok_iff)
  then obtain status c2 where "on_app (SubmitTransactionWithWait txID (Some t)) c1 = (Ok status, c2)"
    and "io_bind (print_status ctx status) (\<lambda>_. io_lift (requireCommitted ctx status)) c2 = (Ok u, c')"
    by (auto simp: io_bind_Ok_iff simp del: io_lift_apply)
  then show thesis
    using that [OF read] keeps_read_app [OF refl read] print_status_run by (force simp: on_app_def split: prod.splits)
qed

lemma deploy_wait_run:
  assumes "run_deploy ctx input output = Some m" "in_Endorse input" "in_Wait input" "m c = (Ok u, c')"
  obtains d where "DeployNamespace (ctx_App ctx) input = Some d"
    and "d (cli_app c) = (Ok (None, ctx_COMMITTED ctx), cli_app c')"
proof -
  obtain d where d: "DeployNamespace (ctx_App ctx) input = Some d"
    and m: "m = io_bind (on_app d) (\<lambda>(res, status).
       case res of
         None \<Rightarrow> io_bind (print_status ctx status) (\<lambda>_.
           if in_Wait input then io_lift (requireCommitted ctx status) else io_return ())
       | Some out \<Rightarrow> write_tx ctx output (out_TxID out) (out_Tx out))"
    using assms(1) by (auto simp: run_deploy_def)
  obtain res status c1 where on: "on_app d c = (Ok (res, status), c1)"
    and rest: "(case res of
         None \<Rightarrow> io_bind (print_status ctx status) (\<lambda>_.
           if in_Wait input then io_lift (requireCommitted ctx status) else io_return ())
       | Some out \<Rightarrow> write_tx ctx output (out_TxID out) (out_Tx out)) c1 = (Ok u, c')"
    using assms(4) unfolding m by (auto simp: io_bind_Ok_iff)
  have run: "d (cli_app c) = (Ok (res, status), cli_app c1)"
    using on by (auto simp: on_app_def split: prod.splits)
  have "res = None" using deploy_Ok_None [OF d run] assms(2,3) by simp
  then show thesis using that [OF d] run rest assms(3) print_status_run by fastforce
qed

lemma deploy_wait_confirmed:
  assumes "unsent_libs M A" "sent M cfg 0 s" "DeployNamespace A input = Some d" "d s = (Ok (None, status), s')"
    and "in_Endorse input" "in_Wait input"
  shows "\<exists>txID t. confirmed M cfg status txID t (app_trace s')"
  using assms(3)
proof (cases rule: DeployNamespace_cases)
  case (valid p)
  obtain out s1 where "io_bind (io_lift p) (create_with A input) s = (Ok out, s1)"
    and rest: "deploy_rest A input out s1 = (Ok (None, status), s')"
    using assms(4) unfolding valid(3) by (auto simp: io_bind_Ok_iff simp del: io_lift_apply)
  then obtain ns where "create_with A input ns s = (Ok out, s1)" by (auto simp: io_bind_Ok_iff)
  then have s1: "sent M cfg 0 s1" using leadsD [OF leads_create [OF assms(1)] _ assms(2)] by blast
  obtain t s2 where "EndorseTransaction A (out_TxID out) (out_Tx out) s1 = (Ok t, s2)"
    and sub: "SubmitTransactionWithWait (out_TxID out) (Some t) s2 = (Ok status, s')"
    using rest assms(5,6) by (auto simp: deploy_rest_def Let_def io_bind_Ok_iff)
  then have "sent M cfg 0 s2" using leadsD [OF leads_endorse [OF assms(1)] _ s1] by blast
  then show ?thesis using submit_wait_confirmed [OF assms(1) _ sub] by blast
qed (use assms(4) in simp_all)

text \<open>An invocation that calls one of the commands that submit comes to run that command, if it is not refused.\<close>

lemma leaf_cases:
  assumes "(path, c) \<in> set leaf_commands" "inv_words call = path @ args"
  shows "calls_submit call \<Longrightarrow> c = newTxSubmitCommand \<and> path = [''tx'', ''submit'']"
    and "calls_deploy call \<Longrightarrow> c = newNsCreateCommand \<or> c = newNsUpdateCommand"
  using assms unfolding leaf_commands_def list.set insert_iff empty_iff prod.inject
  by (auto simp: calls_submit_def calls_deploy_def)

lemma leaf_not_help:
  fixes c :: "('j runner, flag_values \<Rightarrow> 'b) command" and h :: "string \<Rightarrow> 'b"
  assumes "(path, c) \<in> set leaf_commands" "take 2 (inv_words call) = path"
  shows "resolve (NewRootCommand h :: ('j runner, _) command) call \<noteq> Help"
proof -
  have "inv_words call = path @ drop 2 (inv_words call)" using assms(2) by (metis append_take_drop_id)
  then obtain chain args where ch: "find_chain (inv_words call) (NewRootCommand h) = (chain, args)" "last chain = c"
    using find_leaf [OF assms(1), of "drop 2 (inv_words call)" h] by metis
  have "cmd_RunE (cmd_fields c) \<noteq> None"
    using assms(1) unfolding leaf_commands_def list.set insert_iff empty_iff prod.inject
    by (elim disjE conjE) (simp_all add: leaf_RunE)
  then show ?thesis using ch by (auto simp: resolve_def Let_def split: option.splits)
qed

lemma calls_not_help:
  assumes "calls_submit call \<or> calls_deploy call"
  shows "resolve (NewRootCommand h) call \<noteq> Help"
proof -
  have mem: "([''tx'', ''submit''], newTxSubmitCommand) \<in> set leaf_commands"
    "([''namespace'', ''create''], newNsCreateCommand) \<in> set leaf_commands"
    "([''namespace'', ''update''], newNsUpdateCommand) \<in> set leaf_commands"
    by (simp_all add: leaf_commands_def)
  show ?thesis
    using assms leaf_not_help [OF mem(1), of call h] leaf_not_help [OF mem(2), of call h]
      leaf_not_help [OF mem(3), of call h]
    unfolding calls_submit_def calls_deploy_def by blast
qed

definition given_config :: "invocation \<Rightarrow> string" where
  "given_config call = (case map_of (rev (inv_flags call)) ''config'' of Some v \<Rightarrow> flag_string v | None \<Rightarrow> [])"

lemma leaf_config:
  assumes "(path, c) \<in> set leaf_commands"
  shows "flag_string (flag_lookup (cmd_Flags c @ [config_flag]) (inv_flags call) ''config'') = given_config call"
proof -
  have "list_all (\<lambda>f. cf_name f \<noteq> ''config'') (cmd_Flags c)"
    using assms unfolding leaf_commands_def list.set insert_iff empty_iff prod.inject
    by (elim disjE conjE) (simp_all add: tree_defs)
  moreover have "find (\<lambda>f. cf_name f = ''config'') (fs @ [config_flag]) = Some config_flag"
    if "list_all (\<lambda>f. cf_name f \<noteq> ''config'') fs" for fs
    using that by (induction fs) (auto simp: config_flag_def flag_var_def)
  ultimately have "find (\<lambda>f. cf_name f = ''config'') (cmd_Flags c @ [config_flag]) = Some config_flag" by blast
  then show ?thesis
    by (simp add: flag_lookup_def given_config_def config_flag_def flag_var_def split: option.split)
qed

section \<open>An example\<close>

definition waiting_config :: config where
  "waiting_config = sample_config
     \<lparr>cfg_Notifications := \<lparr>Address = ''h:3'', ConnectionTimeout = 5, ep_TLS = None, WaitingTimeout = 6\<rparr>\<rparr>"

definition waiting_process :: "(unit, unit, unit, unit, unit, bytes) process_env" where
  "waiting_process = sample_process\<lparr>pe_viper := fixed_viper waiting_config\<rparr>"

definition waiting_call :: invocation where
  "waiting_call = \<lparr>inv_words = [''tx'', ''submit'', ''a''], inv_flags = [(''wait'', Flag_Bool True)]\<rparr>"

lemma waiting_runs:
  "is_ok (fst (tx_submit_RunE (process_context waiting_process) True ''a''
     \<lparr>cli_app = build_app sample_main (ResolveTLS waiting_config) [], cli_streams = cli_streams sample_cli\<rparr>))"
  by code_simp

lemma waiting_libs: "unsent_libs (pe_main waiting_process) (process_app_env waiting_process)"
  using sample_libs [of "\<lambda>e. \<not> is_send e"]
  by (simp add: libs_emit_def waiting_process_def sample_process_def process_app_env_def)

definition waiting_flags :: "cobra_flag list" where
  "waiting_flags = [flag_var ''wait'' (Flag_Bool False) ''Wait for transaction to be finalized and return status code'', config_flag]"

lemma submit_flags: "cmd_Flags newTxSubmitCommand @ [config_flag] = waiting_flags"
  by (simp add: newTxSubmitCommand_def bind_defs waiting_flags_def)

lemma waiting_resolve:
  "resolve (fxconfig_root P) waiting_call =
     Run (\<lambda>E vals. with_first_arg (\<lambda>path. Some (tx_submit_RunE (ce_ctx E) (flag_bool (vals ''wait'')) path)))
       (Some (\<lambda>vals. root_PersistentPreRunE P (flag_string (vals ''config'')))) [''a'']
       (flag_lookup waiting_flags (inv_flags waiting_call)) True"
proof -
  have "flags_known waiting_flags (inv_flags waiting_call)" "flags_complete waiting_flags (inv_flags waiting_call)"
    by (simp_all add: waiting_flags_def config_flag_def flag_var_def waiting_call_def flags_known_def flags_complete_def)
  then show ?thesis
    using resolve_leafI [where c = newTxSubmitCommand and path = "[''tx'', ''submit'']" and args = "[''a'']"
        and call = waiting_call and h = "root_PersistentPreRunE P"]
    by (simp add: fxconfig_root_def leaf_commands_def submit_flags leaf_RunE leaf_Args) (simp add: waiting_call_def)
qed

lemma waiting_process_runs:
  "\<exists>st' tr. fxconfig_main waiting_process waiting_call (cli_streams sample_cli) = Some (Exit 0, st', tr)"
proof -
  let ?w = "\<lparr>cli_app = build_app sample_main (ResolveTLS waiting_config) [], cli_streams = cli_streams sample_cli\<rparr>"
  obtain c where c: "tx_submit_RunE (process_context waiting_process) True ''a'' ?w = (Ok (), c)"
    using waiting_runs by (cases "tx_submit_RunE (process_context waiting_process) True ''a'' ?w") (auto simp: is_ok_iff)
  have vals: "flag_lookup waiting_flags (inv_flags waiting_call) ''config'' = Flag_String []"
    "flag_lookup waiting_flags (inv_flags waiting_call) ''wait'' = Flag_Bool True"
    by (simp_all add: waiting_flags_def config_flag_def flag_var_def waiting_call_def flag_lookup_def)
  have "root_PersistentPreRunE waiting_process [] =
      Ok (ResolveTLS waiting_config, build_app sample_main (ResolveTLS waiting_config) [])"
    unfolding waiting_process_def by (rule fixed_pre_run)
  then show ?thesis
    using c by (simp add: fxconfig_main_def waiting_resolve vals with_first_arg_def first_arg_def process_command_env_def)
qed

section \<open>Properties\<close>

text \<open>
  C11: a process of any command line sends at most one envelope to the ordering service, whatever fails in
  it, and none unless the command line asks for it: by calling \<open>tx submit\<close>, or by creating or updating a
  namespace with both \<open>--endorse\<close> and one of \<open>--submit\<close> and \<open>--wait\<close>.
\<close>

theorem process_sends_once:
  assumes "unsent_libs (pe_main P) (process_app_env P)" "fxconfig_main P call st = Some (e, st', tr)"
  shows "sends tr \<le> (if asks_to_submit call then 1 else 0)"
proof (cases "tr = []")
  case False
  then obtain r hook args vals cfg s where run: "resolve (fxconfig_root P) call = Run r hook args vals True"
    and load: "root_PersistentPreRunE P (flag_string (vals ''config'')) = Ok (cfg, s)"
    using assms(2) fxconfig_hook [of P call]
    by (fastforce simp: fxconfig_main_def split: resolved.splits option.splits result.splits if_splits)
  obtain m q c where m: "r (process_command_env P cfg) vals args = Some m"
    and c: "m \<lparr>cli_app = s, cli_streams = st\<rparr> = (q, c)" "tr = app_trace (cli_app c)" "s = build_app (pe_main P) cfg []"
    using process_runs [OF assms(2) run load] by metis
  have "sent (pe_main P) cfg 0 s" unfolding c(3) by (rule sent_built) (simp add: sends_def)
  then have "sent (pe_main P) cfg (if asks_to_submit call then Suc 0 else 0) (cli_app c)"
    using leadsD [OF command_sends [OF assms(1) run m, of 0] c(1)] by (simp split del: if_split)
  then show ?thesis using c(2) by (simp add: sent_def Let_def split: if_splits)
qed (simp add: sends_def)

theorem process_sends_once_witness:
  "\<exists>e st' tr. fxconfig_main waiting_process waiting_call (cli_streams sample_cli) = Some (e, st', tr) \<and> sends tr \<le> 1"
proof -
  obtain st' tr where run: "fxconfig_main waiting_process waiting_call (cli_streams sample_cli) = Some (Exit 0, st', tr)"
    using waiting_process_runs by blast
  have "asks_to_submit waiting_call" by (simp add: asks_to_submit_def calls_submit_def waiting_call_def)
  then show ?thesis using process_sends_once [OF waiting_libs run] run by auto
qed

text \<open>
  C1: exit status 0 means committed. A process of a command line that waits, \<open>tx submit --wait\<close> or the
  creation or update of a namespace with \<open>--endorse --wait\<close>, exits with status 0 only if it has
  subscribed to the transaction first, sent one envelope with it for the configured channel, had it accepted by the
  orderer with SUCCESS, and then been told the status COMMITTED on that subscription; the transaction that
  \<open>tx submit\<close> confirms is the one of its file.
\<close>

theorem exit_zero_committed:
  assumes "unsent_libs (pe_main P) (process_app_env P)" "asks_to_wait call"
    and "fxconfig_main P call st = Some (Exit 0, st', tr)"
  shows "\<exists>cfg s txID t. root_PersistentPreRunE P (given_config call) = Ok (cfg, s)
    \<and> confirmed (pe_main P) cfg (pe_COMMITTED P) txID t tr
    \<and> (calls_submit call \<longrightarrow> (\<exists>t' c. t = Some t'
         \<and> read_tx (process_context P) (inv_words call ! 2) \<lparr>cli_app = s, cli_streams = st\<rparr> = (Ok (txID, t'), c)))"
proof -
  have "resolve (fxconfig_root P) call \<noteq> Help"
    unfolding fxconfig_root_def using assms(2) by (intro calls_not_help) (auto simp: asks_to_wait_def)
  then obtain r hook args vals cfg s where run: "resolve (fxconfig_root P) call = Run r hook args vals True"
    and load: "root_PersistentPreRunE P (flag_string (vals ''config'')) = Ok (cfg, s)"
    using assms(3) fxconfig_hook [of P call]
    by (fastforce simp: fxconfig_main_def split: resolved.splits option.splits result.splits if_splits)
  obtain m q c where m: "r (process_command_env P cfg) vals args = Some m"
    and c: "m \<lparr>cli_app = s, cli_streams = st\<rparr> = (q, c)" "tr = app_trace (cli_app c)" "s = build_app (pe_main P) cfg []"
    and q: "Exit 0 = (case q of Ok _ \<Rightarrow> Exit 0 | Err e \<Rightarrow> Exit 1 | Panic q \<Rightarrow> Panicked q)"
    using process_runs [OF assms(3) run load] by metis
  from q have ok: "m \<lparr>cli_app = s, cli_streams = st\<rparr> = (Ok (), c)" using c(1) by (simp split: result.splits)
  have zero: "sent (pe_main P) cfg 0 s" unfolding c(3) by (rule sent_built) (simp add: sends_def)
  obtain path k where leaf: "(path, k :: ('f runner, flag_values \<Rightarrow> (config \<times> app) result) command) \<in> set leaf_commands"
    and k: "inv_words call = path @ args" "cmd_RunE (cmd_fields k) = Some r"
    "vals = flag_lookup (cmd_Flags k @ [config_flag]) (inv_flags call)"
    using resolve_leaf [OF run [unfolded fxconfig_root_def]] by blast
  have cfg: "root_PersistentPreRunE P (given_config call) = Ok (cfg, s)"
    using load leaf_config [OF leaf] k(3) by simp
  have E: "ce_ctx (process_command_env P cfg) = process_context P" "ctx_App (process_context P) = process_app_env P"
    "ctx_COMMITTED (process_context P) = pe_COMMITTED P"
    by (simp_all add: process_context_def process_command_env_def)
  show ?thesis
  proof (cases "calls_submit call")
    case True
    then have kk: "k = newTxSubmitCommand" "path = [''tx'', ''submit'']" using leaf_cases(1) [OF leaf k(1)] by simp_all
    have "with_first_arg (\<lambda>x. Some (tx_submit_RunE (process_context P) True x)) args = Some m"
      using m k kk assms(2) E True by (auto simp: leaf_RunE command_bools asks_to_wait_def)
    then obtain x xs where x: "args = x # xs" and submit: "tx_submit_RunE (process_context P) True x \<lparr>cli_app = s, cli_streams = st\<rparr> = (Ok (), c)"
      using ok by (auto elim!: with_first_arg_Some)
    obtain txID t c1 where "read_tx (process_context P) x \<lparr>cli_app = s, cli_streams = st\<rparr> = (Ok (txID, t), c1)"
      and "SubmitTransactionWithWait txID (Some t) s = (Ok (pe_COMMITTED P), cli_app c)"
      using submit_wait_run [OF submit] E by auto
    then show ?thesis
      using submit_wait_confirmed [OF assms(1) zero] cfg c(2) k(1) kk(2) x by fastforce
  next
    case False
    then have d: "calls_deploy call" "given_true call ''endorse''" "given_true call ''wait''"
      using assms(2) by (auto simp: asks_to_wait_def)
    have "\<exists>v pol out. with_first_arg (\<lambda>name. run_deploy (process_context P) (flags_input name v pol
        \<lparr>fl_endorse = True, fl_submit = given_true call ''submit'', fl_wait = True\<rparr>) out) args = Some m"
      using leaf_cases(2) [OF leaf k(1) d(1)] m k(2,3) d E(1)
      by (auto simp: leaf_RunE command_bools ns_create_RunE_def [abs_def]
          ns_update_RunE_def [abs_def])
        ((intro exI, assumption)+)
    then obtain inp out where inp: "run_deploy (process_context P) inp out = Some m" "in_Endorse inp" "in_Wait inp"
      using ok by (auto elim!: with_first_arg_Some simp: flags_input_def)
    obtain dep where "DeployNamespace (process_app_env P) inp = Some dep" "dep s = (Ok (None, pe_COMMITTED P), cli_app c)"
      using deploy_wait_run [OF inp ok] E by auto
    then show ?thesis
      using deploy_wait_confirmed [OF assms(1) zero _ _ inp(2,3)] cfg c(2) False by blast
  qed
qed

theorem exit_zero_committed_witness:
  "\<exists>st' tr txID t. fxconfig_main waiting_process waiting_call (cli_streams sample_cli) = Some (Exit 0, st', tr)
     \<and> confirmed sample_main (ResolveTLS waiting_config) 7 txID t tr"
proof -
  obtain st' tr where run: "fxconfig_main waiting_process waiting_call (cli_streams sample_cli) = Some (Exit 0, st', tr)"
    using waiting_process_runs by blast
  have "asks_to_wait waiting_call" "given_config waiting_call = []"
    by (simp_all add: asks_to_wait_def calls_submit_def given_true_def given_config_def waiting_call_def)
  moreover have "root_PersistentPreRunE waiting_process [] =
      Ok (ResolveTLS waiting_config, build_app sample_main (ResolveTLS waiting_config) [])"
    unfolding waiting_process_def by (rule fixed_pre_run)
  ultimately show ?thesis
    using exit_zero_committed [OF waiting_libs _ run] run by (auto simp: waiting_process_def sample_process_def)
qed

end
