(* ===== verification/Logging.thy ===== *)
theory Logging
  imports Prelude
begin

text \<open>
  \<open>tools/fxconfig/internal/logging/logging.go\<close>: what the package does when it is initialised. The logging
  framework is a parameter. No other package of the program imports this one, so no process runs it.
\<close>

record flogging_config =
  flc_Format :: string
  flc_LogSpec :: string

definition defaultFormat :: string where
  "defaultFormat = ''%{color}%{time:2006-01-02 15:04:05.000 MST} [%{module}] %{shortfunc} -> %{level:.4s} %{id:03x}%{color:reset} %{message}''"

definition logging_init :: "(flogging_config \<Rightarrow> (unit, 'w) io) \<Rightarrow> (unit, 'w) io" where
  "logging_init flogging_Init = flogging_Init \<lparr>flc_Format = defaultFormat, flc_LogSpec = ''error''\<rparr>"

end
