(* ===== verification/Configtxgen.thy ===== *)
theory Configtxgen
  imports Go_Strings
begin

text \<open>
  \<open>tools/configtxgen/main.go\<close>: the command that generates and inspects configuration artifacts. The
  parsed flags are a record. The operations of the library \<open>configtxgen\<close> and the log are the world:
  an environment answers each call as a function of the calls before it, and the calls are
  recorded. A library call may panic; the deferred function of \<open>main\<close> recovers two kinds of panic.
\<close>

record gen_flags =
  fl_outputBlock :: string
  fl_outputChannelCreateTx :: string
  fl_channelCreateTxBaseProfile :: string
  fl_profile :: string
  fl_configPath :: string
  fl_channelID :: string
  fl_inspectBlock :: string
  fl_inspectChannelCreateTx :: string
  fl_asOrg :: string
  fl_printOrg :: string
  fl_version :: bool

datatype gen_event =
    G_InitFactories
  | G_Load string "string option"
  | G_OutputBlock nat string string
  | G_OutputChannelCreateTx nat "nat option" string string
  | G_InspectBlock string
  | G_InspectChannelCreateTx string
  | G_LoadTopLevel "string option"
  | G_PrintOrg nat string
  | G_Fatal go_error
  | G_Error string
  | G_Warning string
  | G_Print string

type_synonym gen_trace = "gen_event list"

text \<open>Profiles and top-level configurations are handles; an answer may be a panic.\<close>

record gen_env =
  ge_InitFactories :: "gen_trace \<Rightarrow> unit result"
  ge_Load :: "string \<Rightarrow> string option \<Rightarrow> gen_trace \<Rightarrow> nat result"
  ge_OutputBlock :: "nat \<Rightarrow> string \<Rightarrow> string \<Rightarrow> gen_trace \<Rightarrow> unit result"
  ge_OutputChannelCreateTx :: "nat \<Rightarrow> nat option \<Rightarrow> string \<Rightarrow> string \<Rightarrow> gen_trace \<Rightarrow> unit result"
  ge_InspectBlock :: "string \<Rightarrow> gen_trace \<Rightarrow> unit result"
  ge_InspectChannelCreateTx :: "string \<Rightarrow> gen_trace \<Rightarrow> unit result"
  ge_LoadTopLevel :: "string option \<Rightarrow> gen_trace \<Rightarrow> nat result"
  ge_PrintOrg :: "nat \<Rightarrow> string \<Rightarrow> gen_trace \<Rightarrow> unit result"
  ge_version :: string
  ge_commitSHA :: string
  ge_go_version :: string
  ge_platform :: "string \<times> string"

definition gen_call :: "gen_event \<Rightarrow> (gen_trace \<Rightarrow> 'a result) \<Rightarrow> ('a, gen_trace) io" where
  "gen_call ev answer = (\<lambda>tr. (answer tr, tr @ [ev]))"

definition gen_log :: "gen_event \<Rightarrow> (unit, gen_trace) io" where
  "gen_log ev = gen_call ev (\<lambda>_. Ok ())"

definition gen_getVersionInfo :: "gen_env \<Rightarrow> string" where
  "gen_getVersionInfo E =
     (let nl = [CHR 0x0A] in
      ''configtxgen:'' @ nl @ '' Version: '' @ ge_version E @ nl @ '' Commit SHA: '' @ ge_commitSHA E @ nl
      @ '' Go version: '' @ ge_go_version E @ nl
      @ '' OS/Arch: '' @ fst (ge_platform E) @ ''/'' @ snd (ge_platform E))"

definition generates :: "gen_flags \<Rightarrow> bool" where
  "generates f \<longleftrightarrow> fl_outputBlock f \<noteq> [] \<or> fl_outputChannelCreateTx f \<noteq> []"

definition config_path :: "gen_flags \<Rightarrow> string option" where
  "config_path f = (if fl_configPath f \<noteq> [] then Some (fl_configPath f) else None)"

section \<open>The body of main\<close>

text \<open>An error is the message of \<open>logger.Fatalf\<close>, which exits with status 1 at once.\<close>

definition gen_when :: "bool \<Rightarrow> (unit, gen_trace) io \<Rightarrow> (unit, gen_trace) io" where
  "gen_when b m = (if b then m else io_return ())"

definition load_profile :: "gen_env \<Rightarrow> gen_flags \<Rightarrow> (nat option, gen_trace) io" where
  "load_profile E f =
     (if generates f then
        (if fl_profile f = [] then
           io_fail (Error_New ''The '-profile' is required when '-outputBlock', '-outputChannelCreateTx' is specified'')
         else io_bind (gen_call (G_Load (fl_profile f) (config_path f)) (ge_Load E (fl_profile f) (config_path f)))
           (\<lambda>p. io_return (Some p)))
      else io_return None)"

definition load_base_profile :: "gen_env \<Rightarrow> gen_flags \<Rightarrow> (nat option, gen_trace) io" where
  "load_base_profile E f =
     (if fl_channelCreateTxBaseProfile f \<noteq> [] then
        io_bind (gen_when (fl_outputChannelCreateTx f = []) (gen_log (G_Warning
          ''Specified 'channelCreateTxBaseProfile', but did not specify 'outputChannelCreateTx', 'channelCreateTxBaseProfile' will not affect output.'')))
        (\<lambda>_. io_bind (gen_call (G_Load (fl_channelCreateTxBaseProfile f) (config_path f))
            (ge_Load E (fl_channelCreateTxBaseProfile f) (config_path f)))
          (\<lambda>p. io_return (Some p)))
      else io_return None)"

text \<open>The part of the body that follows the loading of the profile.\<close>

definition gen_rest :: "gen_env \<Rightarrow> gen_flags \<Rightarrow> nat option \<Rightarrow> (unit, gen_trace) io" where
  "gen_rest E f profileConfig =
     io_bind (load_base_profile E f) (\<lambda>baseProfile.
     io_bind (gen_when (fl_outputBlock f \<noteq> []) (io_wrap ''Error on outputBlock: ''
       (io_bind (io_lift (deref profileConfig)) (\<lambda>p.
          gen_call (G_OutputBlock p (fl_channelID f) (fl_outputBlock f))
            (ge_OutputBlock E p (fl_channelID f) (fl_outputBlock f)))))) (\<lambda>_.
     io_bind (gen_when (fl_outputChannelCreateTx f \<noteq> []) (io_wrap ''Error on outputChannelCreateTx: ''
       (io_bind (io_lift (deref profileConfig)) (\<lambda>p.
          gen_call (G_OutputChannelCreateTx p baseProfile (fl_channelID f) (fl_outputChannelCreateTx f))
            (ge_OutputChannelCreateTx E p baseProfile (fl_channelID f) (fl_outputChannelCreateTx f)))))) (\<lambda>_.
     io_bind (gen_when (fl_inspectBlock f \<noteq> []) (io_wrap ''Error on inspectBlock: ''
       (gen_call (G_InspectBlock (fl_inspectBlock f)) (ge_InspectBlock E (fl_inspectBlock f))))) (\<lambda>_.
     io_bind (gen_when (fl_inspectChannelCreateTx f \<noteq> []) (io_wrap ''Error on inspectChannelCreateTx: ''
       (gen_call (G_InspectChannelCreateTx (fl_inspectChannelCreateTx f))
          (ge_InspectChannelCreateTx E (fl_inspectChannelCreateTx f))))) (\<lambda>_.
     gen_when (fl_printOrg f \<noteq> [])
       (io_bind (gen_call (G_LoadTopLevel (config_path f)) (ge_LoadTopLevel E (config_path f))) (\<lambda>top.
          io_wrap ''Error on printOrg: '' (gen_call (G_PrintOrg top (fl_printOrg f)) (ge_PrintOrg E top (fl_printOrg f)))))
     )))))"

definition gen_body :: "gen_env \<Rightarrow> gen_flags \<Rightarrow> (unit, gen_trace) io" where
  "gen_body E f =
     io_bind (io_wrap ''Error on initFactories: '' (gen_call G_InitFactories (ge_InitFactories E))) (\<lambda>_.
     io_bind (load_profile E f) (gen_rest E f))"

section \<open>main\<close>

datatype gen_outcome = Gen_Exit nat | Gen_Panic string

text \<open>The deferred function: two panics of the library become an error message and status 1.\<close>

definition gen_recover :: "string \<Rightarrow> gen_trace \<Rightarrow> gen_outcome \<times> gen_trace" where
  "gen_recover err tr =
     (if strings_Contains err ''Error reading configuration: Unsupported Config Type'' then
        (Gen_Exit 1, tr @ [G_Error (''Could not find configtx.yaml. Please make sure that FABRIC_CFG_PATH or -configPath is set to a path ''
           @ ''which contains configtx.yaml'')])
      else if strings_Contains err ''Could not find profile'' then
        (Gen_Exit 1, tr @ [G_Error (err @ ''. Please make sure that FABRIC_CFG_PATH or -configPath is set to a path ''
           @ ''which contains configtx.yaml with the specified profile'')])
      else (Gen_Panic err, tr))"

definition gen_main :: "gen_env \<Rightarrow> gen_flags \<Rightarrow> gen_trace \<Rightarrow> gen_outcome \<times> gen_trace" where
  "gen_main E f tr =
     (if fl_channelID f = [] \<and> generates f then
        (Gen_Exit 1, tr @ [G_Fatal (Error_New (''Missing channelID, please specify it with '-channelID'' @ [CHR 0x27]))])
      else if fl_version f then (Gen_Exit 0, tr @ [G_Print (gen_getVersionInfo E)])
      else case gen_body E f tr of
        (Ok _, tr') \<Rightarrow> (Gen_Exit 0, tr')
      | (Err e, tr') \<Rightarrow> (Gen_Exit 1, tr' @ [G_Fatal e])
      | (Panic q, tr') \<Rightarrow> gen_recover q tr')"

section \<open>Lemmas\<close>

text \<open>What an event must be when the profile \<open>p\<close> was loaded.\<close>

fun from_profile :: "gen_flags \<Rightarrow> nat \<Rightarrow> gen_event \<Rightarrow> bool" where
  "from_profile f p (G_OutputBlock q channel path) \<longleftrightarrow>
     q = p \<and> channel = fl_channelID f \<and> path = fl_outputBlock f \<and> path \<noteq> []"
| "from_profile f p (G_OutputChannelCreateTx q base channel path) \<longleftrightarrow>
     q = p \<and> channel = fl_channelID f \<and> path = fl_outputChannelCreateTx f \<and> path \<noteq> []"
| "from_profile f p _ \<longleftrightarrow> True"

fun is_output :: "gen_event \<Rightarrow> bool" where
  "is_output (G_OutputBlock _ _ _) = True"
| "is_output (G_OutputChannelCreateTx _ _ _ _) = True"
| "is_output _ = False"

text \<open>The events after the profile was loaded keep the trace that was there, and fit the profile.\<close>

definition extends_with :: "(gen_event \<Rightarrow> bool) \<Rightarrow> gen_trace \<Rightarrow> gen_trace \<Rightarrow> bool" where
  "extends_with ok before tr \<longleftrightarrow> (\<exists>evs. tr = before @ evs \<and> list_all ok evs)"

lemma ensures_call [ensures_intros]:
  "ok ev \<Longrightarrow> ensures (extends_with ok before) (\<lambda>_. True) (gen_call ev answer)"
  by (fastforce simp: ensures_def gen_call_def extends_with_def)

lemma ensures_when [ensures_intros]:
  "(b \<Longrightarrow> ensures I (\<lambda>_. True) m) \<Longrightarrow> ensures I (\<lambda>_. True) (gen_when b m)"
  by (simp add: gen_when_def ensures_pure)

lemma ensures_gen_bind: "ensures I (\<lambda>_. True) m \<Longrightarrow> (\<And>x. ensures I (\<lambda>_. True) (f x)) \<Longrightarrow> ensures I (\<lambda>_. True) (io_bind m f)"
  by (rule ensures_bind)

lemma ensures_deref_bind:
  "(\<And>p. v = Some p \<Longrightarrow> ensures I (\<lambda>_. True) (f p)) \<Longrightarrow> ensures I (\<lambda>_. True) (io_bind (io_lift (deref v)) f)"
  by (cases v) (simp_all add: ensures_def deref_def)

lemma gen_rest_ensures:
  assumes other: "\<And>ev. \<not> is_output ev \<Longrightarrow> ok ev"
    and outp: "\<And>p ev. profileConfig = Some p \<Longrightarrow> from_profile f p ev \<Longrightarrow> ok ev"
  shows "ensures (extends_with ok before) (\<lambda>_. True) (gen_rest E f profileConfig)"
proof -
  note intros = ensures_deref_bind ensures_gen_bind ensures_when ensures_wrap ensures_call ensures_if ensures_pure TrueI
  have "ensures (extends_with ok before) (\<lambda>_. True) (load_base_profile E f)"
    unfolding load_base_profile_def gen_log_def by (intro intros other) simp_all
  then show ?thesis
    unfolding gen_rest_def by (intro intros) (simp_all add: other outp)
qed

lemma gen_rest_events:
  assumes "gen_rest E f profileConfig before = (r, tr)" "ev \<in> set tr" "is_output ev" "\<forall>e \<in> set before. \<not> is_output e"
  shows "take (length before) tr = before \<and> (\<exists>p. profileConfig = Some p \<and> from_profile f p ev)"
proof -
  let ?ok = "\<lambda>e. is_output e \<longrightarrow> (\<exists>p. profileConfig = Some p \<and> from_profile f p e)"
  have "ensures (extends_with ?ok before) (\<lambda>_. True) (gen_rest E f profileConfig)"
    by (rule gen_rest_ensures) auto
  moreover have "extends_with ?ok before before" by (simp add: extends_with_def)
  ultimately have "extends_with ?ok before tr" using assms(1) by (auto simp: ensures_def)
  then show ?thesis using assms(2-4) by (auto simp: extends_with_def list_all_iff)
qed

lemma gen_body_events:
  assumes "gen_body E f [] = (r, tr)" "ev \<in> set tr" "is_output ev"
  shows "fl_profile f \<noteq> [] \<and> (\<exists>p. ge_Load E (fl_profile f) (config_path f) [G_InitFactories] = Ok p \<and> from_profile f p ev
         \<and> take 2 tr = [G_InitFactories, G_Load (fl_profile f) (config_path f)])"
proof (cases "ge_InitFactories E []")
  case (Ok u)
  let ?init = "[G_InitFactories]" and ?load = "G_Load (fl_profile f) (config_path f)"
  have body: "gen_body E f [] = io_bind (load_profile E f) (gen_rest E f) ?init"
    using Ok by (simp add: gen_body_def gen_call_def io_wrap_def io_bind_def)
  show ?thesis
  proof (cases "generates f")
    case False
    then have "gen_rest E f None ?init = (r, tr)" using assms(1) body by (simp add: load_profile_def)
    then show ?thesis using gen_rest_events assms(2,3) by fastforce
  next
    case True
    show ?thesis
    proof (cases "fl_profile f = []")
      case no_profile: True
      then show ?thesis using assms body True by (auto simp: load_profile_def)
    next
      case False
      then have l: "load_profile E f ?init = (res_map Some (ge_Load E (fl_profile f) (config_path f) ?init), ?init @ [?load])"
        using True by (cases "ge_Load E (fl_profile f) (config_path f) ?init") (simp_all add: load_profile_def gen_call_def io_bind_def)
      show ?thesis
      proof (cases "ge_Load E (fl_profile f) (config_path f) ?init")
        case (Ok p)
        then have "gen_rest E f (Some p) (?init @ [?load]) = (r, tr)" using assms(1) body l by simp
        from gen_rest_events [OF this assms(2,3)] show ?thesis using Ok False by (simp add: numeral_2_eq_2)
      qed (use assms body l in auto)
    qed
  qed
qed (use assms in \<open>auto simp: gen_body_def gen_call_def io_wrap_def io_bind_def\<close>)

section \<open>Properties\<close>

text \<open>
  C30: whatever the flags and however the run ends, every genesis block and every channel transaction
  that is written is made with the channel given by \<open>-channelID\<close>, which is not empty, to the path of
  its own flag, and from the profile of \<open>-profile\<close>, which was loaded in the same run, from the path
  of \<open>-configPath\<close> if there is one, before anything else but the crypto factories.
\<close>

theorem artifacts_from_profile:
  assumes "gen_main E f [] = (out, tr)" "ev \<in> set tr" "is_output ev"
  shows "fl_channelID f \<noteq> [] \<and> fl_profile f \<noteq> []
    \<and> (\<exists>p. ge_Load E (fl_profile f) (config_path f) [G_InitFactories] = Ok p \<and> from_profile f p ev
         \<and> take 2 tr = [G_InitFactories, G_Load (fl_profile f) (config_path f)])"
proof -
  have c: "\<not> (fl_channelID f = [] \<and> generates f)" "\<not> fl_version f"
    using assms by (auto simp: gen_main_def split: if_splits)
  obtain r tr' where b: "gen_body E f [] = (r, tr')" by (cases "gen_body E f []")
  obtain es where es: "tr = tr' @ es" "\<forall>e \<in> set es. \<not> is_output e"
    using assms(1) c b by (cases r) (auto simp: gen_main_def gen_recover_def split: if_splits)
  then have ev: "ev \<in> set tr'" using assms(2,3) by auto
  obtain p where p: "fl_profile f \<noteq> []" "ge_Load E (fl_profile f) (config_path f) [G_InitFactories] = Ok p" "from_profile f p ev"
      "take 2 tr' = [G_InitFactories, G_Load (fl_profile f) (config_path f)]"
    using gen_body_events [OF b ev assms(3)] by blast
  have "generates f" using p(3) assms(3) by (cases ev) (auto simp: generates_def)
  moreover have "take 2 tr = take 2 tr'" using arg_cong [OF p(4), of length] by (simp add: es)
  ultimately show ?thesis using c(1) p by auto
qed

definition sample_gen_env :: gen_env where
  "sample_gen_env =
     \<lparr>ge_InitFactories = (\<lambda>_. Ok ()),
      ge_Load = (\<lambda>p _ _. if p = ''SampleX'' then Ok 4 else Panic (''Could not find profile: '' @ p)),
      ge_OutputBlock = (\<lambda>_ _ path _. if path = ''genesis.block'' then Ok () else Err (Error_Ext ''no such directory'')),
      ge_OutputChannelCreateTx = (\<lambda>_ _ _ _ _. Ok ()), ge_InspectBlock = (\<lambda>_ _. Ok ()),
      ge_InspectChannelCreateTx = (\<lambda>_ _. Ok ()), ge_LoadTopLevel = (\<lambda>_ _. Ok 0), ge_PrintOrg = (\<lambda>_ _ _. Ok ()),
      ge_version = ''v'', ge_commitSHA = ''c'', ge_go_version = ''go'', ge_platform = (''linux'', ''amd64'')\<rparr>"

definition sample_gen_flags :: gen_flags where
  "sample_gen_flags =
     \<lparr>fl_outputBlock = ''genesis.block'', fl_outputChannelCreateTx = [], fl_channelCreateTxBaseProfile = [],
      fl_profile = ''SampleX'', fl_configPath = ''cfg'', fl_channelID = ''ch'', fl_inspectBlock = ''genesis.block'',
      fl_inspectChannelCreateTx = [], fl_asOrg = [], fl_printOrg = [], fl_version = False\<rparr>"

lemma sample_gen_run:
  "gen_main sample_gen_env sample_gen_flags [] =
     (Gen_Exit 0, [G_InitFactories, G_Load ''SampleX'' (Some ''cfg''), G_OutputBlock 4 ''ch'' ''genesis.block'',
       G_InspectBlock ''genesis.block''])"
  by (simp add: gen_main_def gen_body_def gen_rest_def load_profile_def load_base_profile_def gen_when_def
      gen_call_def io_bind_def io_wrap_def generates_def config_path_def deref_def sample_gen_env_def sample_gen_flags_def)

theorem artifacts_from_profile_witness:
  "\<exists>p. ge_Load sample_gen_env ''SampleX'' (Some ''cfg'') [G_InitFactories] = Ok p
     \<and> G_OutputBlock p ''ch'' ''genesis.block'' \<in> set (snd (gen_main sample_gen_env sample_gen_flags []))"
proof -
  have "\<exists>p. ge_Load sample_gen_env (fl_profile sample_gen_flags) (config_path sample_gen_flags) [G_InitFactories] = Ok p
      \<and> from_profile sample_gen_flags p (G_OutputBlock 4 ''ch'' ''genesis.block'')"
    using artifacts_from_profile [OF sample_gen_run, of "G_OutputBlock 4 ''ch'' ''genesis.block''"] by auto
  moreover have "fl_profile sample_gen_flags = ''SampleX''" "config_path sample_gen_flags = Some ''cfg''"
    by (simp_all add: sample_gen_flags_def config_path_def)
  ultimately show ?thesis by (auto simp: sample_gen_run)
qed

end
