(* ===== verification/Configtxlator.thy ===== *)
theory Configtxlator
  imports Cli_IO
begin

text \<open>
  \<open>tools/configtxlator/main.go\<close>: the command that converts configuration messages between protobuf
  and JSON, computes the difference of two configurations, or serves both over HTTP. What
  \<open>kingpin\<close> parses is a value of \<open>translator_command\<close>; \<open>protobuf\<close>, \<open>protolator\<close>, \<open>update\<close>, \<open>rest\<close> and
  the network are the record \<open>translator_api\<close>. A file opened for input is a reader, or nil when its
  flag is absent. The world is what the process has written and served, and the number of messages it has
  had marshalled.
\<close>

section \<open>The world and the libraries\<close>





section \<open>The commands\<close>










section \<open>What a command is to write\<close>







section \<open>Lemmas\<close>















section \<open>Properties\<close>





end
