(* ===== verification/Cryptogen.thy ===== *)
theory Cryptogen
  imports Cli_IO
begin

text \<open>
  \<open>tools/cryptogen/main.go\<close>: the command that generates key material. The flags \<open>kingpin\<close> has
  parsed are a record; a \<open>--config\<close> file is a reader, or nil when its flag is absent. The library
  \<open>cryptogen\<close> parses templates and works on the file system, whose type is \<open>'f\<close>.
\<close>

record keygen_flags =
  kf_outputDir :: string
  kf_genConfigFile :: "byte_reader option"
  kf_inputDir :: string
  kf_extConfigFile :: "byte_reader option"

record 'f keygen_world =
  kw_stdout :: bytes
  kw_disk :: 'f

record ('c, 'f) keygen_api =
  ka_ParseConfig :: "bytes \<Rightarrow> 'c result"
  ka_Generate :: "string \<Rightarrow> 'c \<Rightarrow> 'f \<Rightarrow> unit result \<times> 'f"
  ka_Extend :: "string \<Rightarrow> 'c \<Rightarrow> 'f \<Rightarrow> unit result \<times> 'f"
  ka_DefaultCryptoConfig :: bytes
  ka_Error :: "go_error \<Rightarrow> string"
  ka_version :: string
  ka_commitSHA :: string
  ka_go_version :: string
  ka_platform :: "string \<times> string"

section \<open>The commands\<close>

text \<open>The template: of the file of \<open>generate\<close>, else of the file of \<open>extend\<close>, else the default one.\<close>

definition getConfig :: "('c, 'f) keygen_api \<Rightarrow> keygen_flags \<Rightarrow> 'c result" where
  "getConfig L f =
     res_bind
       (case kf_genConfigFile f of
          Some file \<Rightarrow> res_wrap ''error reading configuration: '' (ReadAll (Some file))
        | None \<Rightarrow> (case kf_extConfigFile f of
            Some file \<Rightarrow> res_wrap ''error reading configuration: '' (ReadAll (Some file))
          | None \<Rightarrow> Ok (ka_DefaultCryptoConfig L)))
       (ka_ParseConfig L)"

definition on_disk :: "('f \<Rightarrow> 'a result \<times> 'f) \<Rightarrow> ('a, 'f keygen_world) io" where
  "on_disk m = (\<lambda>w. case m (kw_disk w) of (r, d) \<Rightarrow> (r, w\<lparr>kw_disk := d\<rparr>))"

definition keygen_print :: "string \<Rightarrow> 'f keygen_world \<Rightarrow> 'f keygen_world" where
  "keygen_print s w = w\<lparr>kw_stdout := kw_stdout w @ s\<rparr>"

definition extend :: "('c, 'f) keygen_api \<Rightarrow> keygen_flags \<Rightarrow> (unit, 'f keygen_world) io" where
  "extend L f = io_bind (io_lift (getConfig L f)) (\<lambda>config. on_disk (ka_Extend L (kf_inputDir f) config))"

definition generate :: "('c, 'f) keygen_api \<Rightarrow> keygen_flags \<Rightarrow> (unit, 'f keygen_world) io" where
  "generate L f = io_bind (io_lift (getConfig L f)) (\<lambda>config. on_disk (ka_Generate L (kf_outputDir f) config))"

definition cryptogen_getVersionInfo :: "('c, 'f) keygen_api \<Rightarrow> string" where
  "cryptogen_getVersionInfo L =
     (let nl = [CHR 0x0A] in
      ''cryptogen:'' @ nl @ '' Version: '' @ ka_version L @ nl @ '' Commit SHA: '' @ ka_commitSHA L @ nl
      @ '' Go version: '' @ ka_go_version L @ nl
      @ '' OS/Arch: '' @ fst (ka_platform L) @ ''/'' @ snd (ka_platform L))"

section \<open>main\<close>

text \<open>The exit status, or a panic; \<open>os.Exit(-1)\<close> is the status 255.\<close>

datatype keygen_outcome = Keygen_Exit nat | Keygen_Panic string

definition cryptogen_main ::
    "('c, 'f) keygen_api \<Rightarrow> keygen_flags \<Rightarrow> string \<Rightarrow> 'f keygen_world \<Rightarrow> keygen_outcome \<times> 'f keygen_world" where
  "cryptogen_main L f cmd w =
     (case
        (if cmd = ''generate'' then generate L f w
         else if cmd = ''extend'' then extend L f w
         else if cmd = ''showtemplate'' then (Ok (), keygen_print (ka_DefaultCryptoConfig L) w)
         else if cmd = ''version'' then (Ok (), keygen_print (cryptogen_getVersionInfo L @ [CHR 0x0A]) w)
         else (Panic ''programming error'', w))
      of
        (Ok _, w') \<Rightarrow> (Keygen_Exit 0, w')
      | (Err e, w') \<Rightarrow>
          (Keygen_Exit 255, keygen_print (''error executing command '' @ cmd @ [CHR 0x0A] @ ka_Error L e) w')
      | (Panic q, w') \<Rightarrow> (Keygen_Panic q, w'))"

section \<open>Lemmas\<close>

text \<open>
  The template that \<open>showtemplate\<close> prints is the one the other commands use when no file is given.
\<close>

lemma default_template:
  assumes "kf_genConfigFile f = None" "kf_extConfigFile f = None"
    and "cryptogen_main L g ''showtemplate'' \<lparr>kw_stdout = [], kw_disk = d\<rparr> = (out, w)"
  shows "getConfig L f = ka_ParseConfig L (kw_stdout w)"
proof -
  have "kw_stdout w = ka_DefaultCryptoConfig L"
    using assms(3) by (simp add: cryptogen_main_def keygen_print_def) auto
  then show ?thesis using assms(1,2) by (simp add: getConfig_def)
qed

text \<open>Without a template that can be read and parsed nothing is done on disk.\<close>

lemma bad_template_keeps_disk:
  assumes "\<not> is_ok (getConfig L f)"
  shows "kw_disk (snd (cryptogen_main L f cmd w)) = kw_disk w"
  using assms
  by (cases "getConfig L f")
    (auto simp: cryptogen_main_def generate_def extend_def keygen_print_def io_fail_def io_lift_def io_bind_def)

end
