(* ===== verification/Fxadmin.thy ===== *)
theory Fxadmin
  imports Prelude
begin

text \<open>
  \<open>tools/fxadmin/main.go\<close>: the front end of the administration library. The library builds its
  handlers and the command tree and runs the arguments; it writes to the standard streams itself.
\<close>

record 'h fxadmin_handlers =
  fh_Ledger :: 'h
  fh_Decode :: 'h
  fh_Update :: 'h
  fh_Tx :: 'h
  fh_Follow :: 'h

record ('h, 'a, 'w) fxadmin_api =
  fa_ledger_New :: 'h
  fa_decode_New :: 'h
  fa_update_New :: 'h
  fa_tx_New :: 'h
  fa_follow_New :: 'h
  fa_cli_New :: "'h fxadmin_handlers \<Rightarrow> string \<Rightarrow> 'a"
  fa_Run :: "'a \<Rightarrow> string list \<Rightarrow> (unit, 'w) io"
  fa_Version :: string
  fa_Fprint_stderr :: "string \<Rightarrow> 'w \<Rightarrow> 'w"
  fa_Error :: "go_error \<Rightarrow> string"

datatype fxadmin_end = Fxadmin_Exit nat | Fxadmin_Panic string

definition fxadmin_main :: "('h, 'a, 'w) fxadmin_api \<Rightarrow> string list \<Rightarrow> 'w \<Rightarrow> fxadmin_end \<times> 'w" where
  "fxadmin_main L args w =
     (let handlers = \<lparr>fh_Ledger = fa_ledger_New L, fh_Decode = fa_decode_New L, fh_Update = fa_update_New L,
            fh_Tx = fa_tx_New L, fh_Follow = fa_follow_New L\<rparr>;
          app = fa_cli_New L handlers (fa_Version L)
      in case fa_Run L app args w of
        (Ok _, w') \<Rightarrow> (Fxadmin_Exit 0, w')
      | (Err e, w') \<Rightarrow> (Fxadmin_Exit 1, fa_Fprint_stderr L (''fxadmin: '' @ fa_Error L e @ [CHR 0x0A]) w')
      | (Panic q, w') \<Rightarrow> (Fxadmin_Panic q, w'))"

end
