(* ===== verification/Block_Query.thy ===== *)
theory Block_Query
  imports Adapters
begin

text \<open>
  \<open>integration/test/block_query_client.go\<close>: the client that the integration tests read the ledger with.
  A failed \<open>require.NoError\<close> ends its goroutine after the deferred functions have run: in \<open>PullBlocks\<close>
  itself it ends the test, in the goroutine it closes the channel. The dialler and the service are
  parameters; a read-only service answers each request on its own. The channel is what its reader
  receives until it is closed: its capacity is the height, so the goroutine never waits; a height
  above what a channel can hold is left out.
\<close>

record block_query_client =
  bq_Endpoint :: string
  bq_TLSCACerts :: "bytes list"
  bq_Key :: bytes
  bq_Cert :: bytes

definition NewBlockQueryClient :: "string \<Rightarrow> bytes \<Rightarrow> bytes \<Rightarrow> bytes list \<Rightarrow> block_query_client" where
  "NewBlockQueryClient endpoint key cert caCerts =
     \<lparr>bq_Endpoint = endpoint, bq_TLSCACerts = caCerts, bq_Key = key, bq_Cert = cert\<rparr>"

text \<open>The configuration of the connection, as far as \<open>createClient\<close> sets it.\<close>

record comm_config =
  cc_ClientInterval :: int
  cc_ClientTimeout :: int
  cc_Key :: bytes
  cc_Certificate :: bytes
  cc_RequireClientCert :: bool
  cc_UseTLS :: bool
  cc_ServerRootCAs :: "bytes list"
  cc_DialTimeout :: int

record 'b block_service =
  bs_Dial :: "comm_config \<Rightarrow> string \<Rightarrow> conn result"
  bs_GetBlockchainInfo :: "conn \<Rightarrow> 64 word result"
  bs_GetBlockByNumber :: "conn \<Rightarrow> 64 word \<Rightarrow> 'b result"

definition createClient :: "'b block_service \<Rightarrow> block_query_client \<Rightarrow> conn result" where
  "createClient S c =
     bs_Dial S
       \<lparr>cc_ClientInterval = 3600 * 10 ^ 9, cc_ClientTimeout = 3600 * 10 ^ 9, cc_Key = bq_Key c,
        cc_Certificate = bq_Cert c, cc_RequireClientCert = True, cc_UseTLS = True,
        cc_ServerRootCAs = bq_TLSCACerts c, cc_DialTimeout = 5 * 10 ^ 9\<rparr>
       (bq_Endpoint c)"

text \<open>The goroutine: the blocks sent and the numbers still to fetch.\<close>

fun send_blocks :: "'b block_service \<Rightarrow> conn \<Rightarrow> 64 word list \<Rightarrow> 'b list" where
  "send_blocks S conn [] = []"
| "send_blocks S conn (targetBlockNum # ns) =
     (case bs_GetBlockByNumber S conn targetBlockNum of
        Ok block \<Rightarrow> block # send_blocks S conn ns
      | _ \<Rightarrow> [])"

definition PullBlocks :: "'b block_service \<Rightarrow> block_query_client \<Rightarrow> 'b list result" where
  "PullBlocks S c =
     res_bind (createClient S c) (\<lambda>conn.
     res_bind (bs_GetBlockchainInfo S conn) (\<lambda>bcHeight.
       Ok (send_blocks S conn (map of_nat [0 ..< unat bcHeight]))))"

section \<open>Lemmas\<close>

lemma send_blocks_prefix:
  "\<exists>k \<le> length ns. map (bs_GetBlockByNumber S conn) (take k ns) = map Ok (send_blocks S conn ns)
     \<and> (k = length ns \<or> \<not> is_ok (bs_GetBlockByNumber S conn (ns ! k)))"
proof (induction ns)
  case (Cons n ns)
  then obtain k where k: "k \<le> length ns"
    "map (bs_GetBlockByNumber S conn) (take k ns) = map Ok (send_blocks S conn ns)"
    "k = length ns \<or> \<not> is_ok (bs_GetBlockByNumber S conn (ns ! k))"
    by blast
  show ?case
  proof (cases "bs_GetBlockByNumber S conn n")
    case (Ok b)
    then show ?thesis using k by (intro exI [of _ "Suc k"]) auto
  qed (auto intro: exI [of _ 0])
qed simp

text \<open>
  A reader of the channel gets the blocks in order from the first one on; it gets fewer than the
  height, and no error, exactly when a request in the goroutine failed.
\<close>

lemma pulled_blocks:
  assumes "createClient S c = Ok conn" "bs_GetBlockchainInfo S conn = Ok h" "PullBlocks S c = Ok bs"
  shows "length bs \<le> unat h \<and> (\<forall>i < length bs. bs_GetBlockByNumber S conn (of_nat i) = Ok (bs ! i))
    \<and> (length bs < unat h \<longleftrightarrow> (\<exists>i < unat h. \<not> is_ok (bs_GetBlockByNumber S conn (of_nat i))))"
proof -
  let ?ns = "map of_nat [0 ..< unat h] :: 64 word list"
  have bs: "bs = send_blocks S conn ?ns" using assms by (simp add: PullBlocks_def)
  obtain k where k: "k \<le> unat h" "map (bs_GetBlockByNumber S conn) (take k ?ns) = map Ok bs"
    "k = unat h \<or> \<not> is_ok (bs_GetBlockByNumber S conn (?ns ! k))"
    using send_blocks_prefix [of ?ns S conn] bs by auto
  have len: "length bs = k" using arg_cong [OF k(2), of length] k(1) by simp
  have all: "bs_GetBlockByNumber S conn (of_nat i) = Ok (bs ! i)" if "i < k" for i
    using arg_cong [OF k(2), of "\<lambda>l. l ! i"] that k(1) len by simp
  have "k < unat h \<longleftrightarrow> (\<exists>i < unat h. \<not> is_ok (bs_GetBlockByNumber S conn (of_nat i)))"
  proof
    assume "k < unat h"
    then show "\<exists>i < unat h. \<not> is_ok (bs_GetBlockByNumber S conn (of_nat i))" using k(3) by auto
  next
    assume "\<exists>i < unat h. \<not> is_ok (bs_GetBlockByNumber S conn (of_nat i))"
    then obtain i where "i < unat h" "\<not> is_ok (bs_GetBlockByNumber S conn (of_nat i))" by blast
    then show "k < unat h" using all [of i] by (metis is_ok.simps(1) not_le_imp_less order.strict_trans2)
  qed
  then show ?thesis using len all k(1) by simp
qed

end
